(* ===== verification/Prelude.thy ===== *)
theory Prelude
  imports Main "HOL-Library.Word"
begin

text \<open>
  Vocabulary shared by every component: machine integers and time, the state monad with
  Rust's \<open>Result\<close> as its value (\<open>prog\<close>), and three ways of speaking about a program:
  \<open>wp\<close> (what holds when a run returns), \<open>halts\<close> (the run returns) and \<open>keeps\<close> (every
  run relates its start and end states). The locale \<open>step_relation\<close> lifts a reflexive and
  transitive relation over the combinators; the components interpret it on the relations
  their operations keep.
\<close>

section \<open>Integers and time\<close>

type_synonym u8 = "8 word"

text \<open>\<open>embassy_time\<close>: an \<open>Instant\<close> and a \<open>Duration\<close> are counts of ticks; the model counts
  microseconds.\<close>

type_synonym instant = nat
type_synonym duration = nat

definition from_secs :: "nat \<Rightarrow> duration" where
  "from_secs s = s * 1000000"

definition from_millis :: "nat \<Rightarrow> duration" where
  "from_millis m = m * 1000"

definition from_micros :: "nat \<Rightarrow> duration" where
  "from_micros u = u"

definition checked_duration_since :: "instant \<Rightarrow> instant \<Rightarrow> duration option" where
  "checked_duration_since later earlier =
     (if earlier \<le> later then Some (later - earlier) else None)"

definition saturating_add_u8 :: "u8 \<Rightarrow> u8 \<Rightarrow> u8" where
  "saturating_add_u8 a b = (if 255 < unat a + unat b then 255 else a + b)"

lemma unat_u8_bound: "unat (a :: u8) \<le> 255"
proof -
  have "unat a < 2 ^ LENGTH(8)" by (rule unsigned_less)
  then show ?thesis by simp
qed

lemma unat_saturating_add_u8:
  "unat (saturating_add_u8 a b) = min 255 (unat a + unat b)"
proof (cases "255 < unat a + unat b")
  case True
  then show ?thesis by (simp add: saturating_add_u8_def)
next
  case False
  then have "unat (a + b) = unat a + unat b"
    by (simp add: unat_word_ariths)
  with False show ?thesis by (simp add: saturating_add_u8_def)
qed

lemma saturating_add_u8_ge: "unat a \<le> unat (saturating_add_u8 a b)"
  using unat_u8_bound [of a] by (simp add: unat_saturating_add_u8)

section \<open>The program monad\<close>

text \<open>
  A program takes its state and either does not return (\<open>None\<close>: a busy-wait that never
  ends, or a recursion that does not bottom out) or returns a \<open>Result\<close> (\<open>Inl\<close> the error,
  \<open>Inr\<close> the value) with the state it leaves. An error keeps the state reached so far, as a
  Rust method that returns \<open>Err\<close> through \<open>&mut self\<close> does.
\<close>

type_synonym ('s, 'e, 'a) prog = "'s \<Rightarrow> (('e + 'a) \<times> 's) option"

definition okP :: "'a \<Rightarrow> ('s, 'e, 'a) prog" where
  "okP a s = Some (Inr a, s)"

definition errP :: "'e \<Rightarrow> ('s, 'e, 'a) prog" where
  "errP e s = Some (Inl e, s)"

text \<open>\<open>bindP m f\<close> is \<open>let x = m?; f(x)\<close>.\<close>

definition bindP :: "('s, 'e, 'a) prog \<Rightarrow> ('a \<Rightarrow> ('s, 'e, 'b) prog) \<Rightarrow> ('s, 'e, 'b) prog" where
  "bindP m f s =
     (case m s of
        None \<Rightarrow> None
      | Some (Inl e, t) \<Rightarrow> Some (Inl e, t)
      | Some (Inr a, t) \<Rightarrow> f a t)"

definition thenP :: "('s, 'e, 'a) prog \<Rightarrow> ('s, 'e, 'b) prog \<Rightarrow> ('s, 'e, 'b) prog" where
  "thenP m k = bindP m (\<lambda>_. k)"

text \<open>\<open>attempt m\<close> hands the \<open>Result\<close> itself to what follows: \<open>m.ok()\<close>, \<open>m.is_err()\<close>,
  \<open>if let Ok(x) = m\<close>, \<open>match m\<close>.\<close>

definition attempt :: "('s, 'e, 'a) prog \<Rightarrow> ('s, 'f, 'e + 'a) prog" where
  "attempt m s = (case m s of None \<Rightarrow> None | Some (r, t) \<Rightarrow> Some (Inr r, t))"

definition map_errP :: "('e \<Rightarrow> 'f) \<Rightarrow> ('s, 'e, 'a) prog \<Rightarrow> ('s, 'f, 'a) prog" where
  "map_errP f m s =
     (case m s of None \<Rightarrow> None | Some (r, t) \<Rightarrow> Some (map_sum f id r, t))"

definition getsP :: "('s \<Rightarrow> 'a) \<Rightarrow> ('s, 'e, 'a) prog" where
  "getsP f s = Some (Inr (f s), s)"

definition modifyP :: "('s \<Rightarrow> 's) \<Rightarrow> ('s, 'e, unit) prog" where
  "modifyP f s = Some (Inr (), f s)"

definition whenP :: "bool \<Rightarrow> ('s, 'e, unit) prog \<Rightarrow> ('s, 'e, unit) prog" where
  "whenP b m = (if b then m else okP ())"

text \<open>\<open>zoom get put m\<close> runs \<open>m\<close> on a field of the state (\<open>self.network.op()\<close>).\<close>

definition zoom :: "('s \<Rightarrow> 't) \<Rightarrow> ('t \<Rightarrow> 's \<Rightarrow> 's) \<Rightarrow> ('t, 'e, 'a) prog \<Rightarrow> ('s, 'e, 'a) prog" where
  "zoom get put m s =
     (case m (get s) of None \<Rightarrow> None | Some (r, t) \<Rightarrow> Some (r, put t s))"

definition is_err :: "'e + 'a \<Rightarrow> bool" where
  "is_err r = (case r of Inl _ \<Rightarrow> True | Inr _ \<Rightarrow> False)"

lemma is_err_simps [simp]: "is_err (Inl e)" "\<not> is_err (Inr a)"
  by (simp_all add: is_err_def)

lemmas prog_defs =
  okP_def errP_def bindP_def thenP_def attempt_def map_errP_def getsP_def modifyP_def
  whenP_def zoom_def

lemma bindP_okP [simp]: "bindP (okP a) f = f a"
  by (rule ext) (simp add: prog_defs)

lemma bindP_errP [simp]: "bindP (errP e) f = errP e"
  by (rule ext) (simp add: prog_defs)

lemma bindP_okP_right [simp]: "bindP m okP = m"
  by (rule ext) (auto simp: prog_defs split: option.splits sum.splits)

lemma bindP_assoc: "bindP (bindP m f) g = bindP m (\<lambda>a. bindP (f a) g)"
  by (rule ext) (auto simp: prog_defs split: option.splits sum.splits)

lemma whenP_simps [simp]: "whenP True m = m" "whenP False m = okP ()"
  by (simp_all add: whenP_def)

lemma bindP_Inr:
  "bindP m f s = Some (Inr b, u) \<longleftrightarrow> (\<exists>a t. m s = Some (Inr a, t) \<and> f a t = Some (Inr b, u))"
  by (auto simp: bindP_def split: option.splits sum.splits)

lemma bindP_Inl:
  "bindP m f s = Some (Inl e, u) \<longleftrightarrow>
     m s = Some (Inl e, u) \<or> (\<exists>a t. m s = Some (Inr a, t) \<and> f a t = Some (Inl e, u))"
  by (auto simp: bindP_def split: option.splits sum.splits)

lemma bindP_mono [partial_function_mono]:
  assumes "\<And>s. mono_option (\<lambda>f :: 'x \<Rightarrow> 'y option. B f s)" "\<And>a t. mono_option (\<lambda>f :: 'x \<Rightarrow> 'y option. C a f t)"
  shows "mono_option (\<lambda>f. bindP (B f) (\<lambda>a. C a f) s)"
proof (rule monotoneI)
  fix x y :: "'x \<Rightarrow> 'y option"
  assume le: "fun_ord option_ord x y"
  have B: "option_ord (B x s) (B y s)" using assms(1) le unfolding monotone_def by blast
  have C: "option_ord (C a x t) (C a y t)" for a t using assms(2) le unfolding monotone_def by blast
  show "option_ord (bindP (B x) (\<lambda>a. C a x) s) (bindP (B y) (\<lambda>a. C a y) s)"
  proof (cases "B x s")
    case None
    then show ?thesis by (simp add: bindP_def flat_ord_def)
  next
    case (Some p)
    with B have "B y s = Some p" by (simp add: flat_ord_def)
    with Some C show ?thesis by (cases p) (simp add: bindP_def flat_ord_def split: sum.split)
  qed
qed

lemma thenP_mono [partial_function_mono]:
  assumes "\<And>s. mono_option (\<lambda>f. B f s)" "\<And>s. mono_option (\<lambda>f. C f s)"
  shows "mono_option (\<lambda>f. thenP (B f) (C f) s)"
  unfolding thenP_def using assms by (rule bindP_mono)

lemma if_app_mono [partial_function_mono]:
  assumes "mono_option (\<lambda>f :: 'x \<Rightarrow> 'y option. B f s)" "mono_option (\<lambda>f :: 'x \<Rightarrow> 'y option. C f s)"
  shows "mono_option (\<lambda>f :: 'x \<Rightarrow> 'y option. (if b then B f else C f) s)"
  using assms by (cases b) simp_all

section \<open>What holds when a run returns\<close>

definition wp :: "('s, 'e, 'a) prog \<Rightarrow> ('a \<Rightarrow> 's \<Rightarrow> bool) \<Rightarrow> ('e \<Rightarrow> 's \<Rightarrow> bool) \<Rightarrow> 's \<Rightarrow> bool" where
  "wp m Q E s =
     (case m s of
        None \<Rightarrow> True
      | Some (Inl e, t) \<Rightarrow> E e t
      | Some (Inr a, t) \<Rightarrow> Q a t)"

lemma wp_okP [simp]: "wp (okP a) Q E s \<longleftrightarrow> Q a s"
  by (simp add: wp_def okP_def)

lemma wp_errP [simp]: "wp (errP e) Q E s \<longleftrightarrow> E e s"
  by (simp add: wp_def errP_def)

lemma wp_bindP [simp]: "wp (bindP m f) Q E s \<longleftrightarrow> wp m (\<lambda>a. wp (f a) Q E) E s"
  by (auto simp: wp_def bindP_def split: option.splits sum.splits)

lemma wp_thenP [simp]: "wp (thenP m k) Q E s \<longleftrightarrow> wp m (\<lambda>_. wp k Q E) E s"
  by (simp add: thenP_def)

lemma wp_attempt [simp]:
  "wp (attempt m) Q E s \<longleftrightarrow> wp m (\<lambda>a. Q (Inr a)) (\<lambda>e. Q (Inl e)) s"
  by (auto simp: wp_def attempt_def split: option.splits sum.splits)

lemma wp_map_errP [simp]: "wp (map_errP f m) Q E s \<longleftrightarrow> wp m Q (\<lambda>e. E (f e)) s"
  by (auto simp: wp_def map_errP_def split: option.splits sum.splits)

lemma wp_getsP [simp]: "wp (getsP f) Q E s \<longleftrightarrow> Q (f s) s"
  by (simp add: wp_def getsP_def)

lemma wp_modifyP [simp]: "wp (modifyP f) Q E s \<longleftrightarrow> Q () (f s)"
  by (simp add: wp_def modifyP_def)

lemma wp_zoom [simp]:
  "wp (zoom get put m) Q E s \<longleftrightarrow>
     wp m (\<lambda>a t. Q a (put t s)) (\<lambda>e t. E e (put t s)) (get s)"
  by (auto simp: wp_def zoom_def split: option.splits sum.splits)

lemma wp_mono:
  assumes "wp m Q E s" "\<And>a t. Q a t \<Longrightarrow> Q' a t" "\<And>e t. E e t \<Longrightarrow> E' e t"
  shows "wp m Q' E' s"
  using assms by (auto simp: wp_def split: option.splits sum.splits)

lemma wpI:
  assumes "\<And>a t. m s = Some (Inr a, t) \<Longrightarrow> Q a t" "\<And>e t. m s = Some (Inl e, t) \<Longrightarrow> E e t"
  shows "wp m Q E s"
  using assms by (auto simp: wp_def split: option.splits sum.splits)

lemma wpD_Inr: "wp m Q E s \<Longrightarrow> m s = Some (Inr a, t) \<Longrightarrow> Q a t"
  by (simp add: wp_def)

lemma wpD_Inl: "wp m Q E s \<Longrightarrow> m s = Some (Inl e, t) \<Longrightarrow> E e t"
  by (simp add: wp_def)

section \<open>Runs that return\<close>

definition halts :: "('s, 'e, 'a) prog \<Rightarrow> bool" where
  "halts m \<longleftrightarrow> (\<forall>s. \<exists>r t. m s = Some (r, t))"

named_theorems halting \<open>programs that return from every state\<close>

lemma haltsI: "(\<And>s. m s \<noteq> None) \<Longrightarrow> halts m"
  by (auto simp: halts_def)

lemma haltsD: "halts m \<Longrightarrow> \<exists>r t. m s = Some (r, t)"
  by (simp add: halts_def)

lemma halts_okP [halting, simp]: "halts (okP a)"
  by (simp add: halts_def okP_def)

lemma halts_errP [halting, simp]: "halts (errP e)"
  by (simp add: halts_def errP_def)

lemma halts_getsP [halting, simp]: "halts (getsP f)"
  by (simp add: halts_def getsP_def)

lemma halts_modifyP [halting, simp]: "halts (modifyP f)"
  by (simp add: halts_def modifyP_def)

lemma halts_bindP [halting]:
  assumes "halts m" "\<And>a. halts (f a)"
  shows "halts (bindP m f)"
proof (rule haltsI)
  fix s
  obtain r t where "m s = Some (r, t)" using haltsD [OF assms(1)] by blast
  with haltsD [OF assms(2)] show "bindP m f s \<noteq> None"
    by (fastforce simp: bindP_def split: sum.splits)
qed

lemma halts_thenP [halting]: "halts m \<Longrightarrow> halts k \<Longrightarrow> halts (thenP m k)"
  by (simp add: thenP_def halts_bindP)

lemma halts_attempt [halting]: "halts m \<Longrightarrow> halts (attempt m)"
  by (fastforce simp: halts_def attempt_def split: option.splits)

lemma halts_map_errP [halting]: "halts m \<Longrightarrow> halts (map_errP f m)"
  by (fastforce simp: halts_def map_errP_def split: option.splits)

lemma halts_zoom [halting]: "halts m \<Longrightarrow> halts (zoom get put m)"
  by (fastforce simp: halts_def zoom_def split: option.splits)

lemma halts_whenP [halting]: "halts m \<Longrightarrow> halts (whenP b m)"
  by (simp add: whenP_def)

lemma halts_if [halting]: "halts m \<Longrightarrow> halts k \<Longrightarrow> halts (if b then m else k)"
  by simp

text \<open>Total correctness: the run returns and what \<open>wp\<close> says holds.\<close>

lemma wp_total:
  assumes "halts m" "wp m Q (\<lambda>_ _. False) s"
  shows "\<exists>a t. m s = Some (Inr a, t) \<and> Q a t"
proof -
  obtain r t where "m s = Some (r, t)" using haltsD [OF assms(1)] by blast
  with assms(2) show ?thesis by (cases r) (auto simp: wp_def)
qed

section \<open>Relations kept by every run\<close>

definition keeps :: "('s \<Rightarrow> 's \<Rightarrow> bool) \<Rightarrow> ('s, 'e, 'a) prog \<Rightarrow> bool" where
  "keeps R m \<longleftrightarrow> (\<forall>s r t. m s = Some (r, t) \<longrightarrow> R s t)"

named_theorems kept \<open>programs that keep a relation between their start and end states\<close>

lemma keepsI: "(\<And>s r t. m s = Some (r, t) \<Longrightarrow> R s t) \<Longrightarrow> keeps R m"
  by (auto simp: keeps_def)

lemma keepsD: "keeps R m \<Longrightarrow> m s = Some (r, t) \<Longrightarrow> R s t"
  by (simp add: keeps_def)

lemma keeps_wp: "keeps R m \<Longrightarrow> wp m (\<lambda>_. R s) (\<lambda>_. R s) s"
  by (auto simp: keeps_def wp_def split: option.splits sum.splits)

lemma keeps_mono: "keeps R m \<Longrightarrow> (\<And>s t. R s t \<Longrightarrow> R' s t) \<Longrightarrow> keeps R' m"
  by (auto simp: keeps_def)

locale step_relation =
  fixes R :: "'s \<Rightarrow> 's \<Rightarrow> bool"
  assumes R_refl: "R s s"
    and R_trans: "R s t \<Longrightarrow> R t u \<Longrightarrow> R s u"
begin

lemma okP: "keeps R (okP a)"
  by (simp add: keeps_def okP_def R_refl)

lemma errP: "keeps R (errP e)"
  by (simp add: keeps_def errP_def R_refl)

lemma getsP: "keeps R (getsP f)"
  by (simp add: keeps_def getsP_def R_refl)

lemma modifyP: "(\<And>s. R s (f s)) \<Longrightarrow> keeps R (modifyP f)"
  by (simp add: keeps_def modifyP_def)

lemma bindP:
  assumes "keeps R m" "\<And>a. keeps R (f a)"
  shows "keeps R (bindP m f)"
proof (rule keepsI)
  fix s r u
  assume "bindP m f s = Some (r, u)"
  then show "R s u"
    using assms R_trans
    by (fastforce simp: bindP_def keeps_def split: option.splits sum.splits)
qed

lemma thenP: "keeps R m \<Longrightarrow> keeps R k \<Longrightarrow> keeps R (thenP m k)"
  by (simp add: thenP_def bindP)

lemma attempt: "keeps R m \<Longrightarrow> keeps R (attempt m)"
  by (auto simp: keeps_def attempt_def split: option.splits)

lemma map_errP: "keeps R m \<Longrightarrow> keeps R (map_errP f m)"
  by (auto simp: keeps_def map_errP_def split: option.splits)

lemma whenP: "keeps R m \<Longrightarrow> keeps R (whenP b m)"
  by (simp add: whenP_def okP)

lemma cond: "keeps R m \<Longrightarrow> keeps R k \<Longrightarrow> keeps R (if b then m else k)"
  by simp

lemma case_sum: "(\<And>e. keeps R (f e)) \<Longrightarrow> (\<And>a. keeps R (g a)) \<Longrightarrow> keeps R (case_sum f g r)"
  by (simp split: sum.split)

lemma case_option: "keeps R m \<Longrightarrow> (\<And>a. keeps R (f a)) \<Longrightarrow> keeps R (case_option m f x)"
  by (simp split: option.split)

lemmas rules = okP errP getsP modifyP bindP thenP attempt map_errP whenP cond case_sum case_option

end

text \<open>Running on a field keeps a relation of the whole state that the field's relation gives.\<close>

lemma keeps_zoom:
  assumes "keeps R m" "\<And>s t. R (get s) t \<Longrightarrow> R' s (put t s)"
  shows "keeps R' (zoom get put m)"
  using assms by (auto simp: keeps_def zoom_def split: option.splits)

section \<open>Lists\<close>

text \<open>\<open>iter_mut().find(|(h, _)| h == key)\<close> followed by a method call on what it found: the
  first entry with the key is updated, the others stay.\<close>

fun update_first :: "'k \<Rightarrow> ('v \<Rightarrow> 'v) \<Rightarrow> ('k \<times> 'v) list \<Rightarrow> ('k \<times> 'v) list" where
  "update_first k f [] = []"
| "update_first k f ((h, v) # xs) = (if h = k then (h, f v) # xs else (h, v) # update_first k f xs)"

lemma map_fst_update_first [simp]: "map fst (update_first k f xs) = map fst xs"
  by (induction k f xs rule: update_first.induct) auto

lemma update_first_absent: "k \<notin> fst ` set xs \<Longrightarrow> update_first k f xs = xs"
  by (induction k f xs rule: update_first.induct) auto

lemma map_of_update_first:
  "map_of (update_first k f xs) h =
     (if h = k then map_option f (map_of xs k) else map_of xs h)"
  by (induction k f xs rule: update_first.induct) auto

end
