(* ===== verification/Codec.thy ===== *)
theory Codec
  imports Prelude
begin

text \<open>
  The interface of an \<open>AtatEnum\<close> type: each variant has a number on the wire, and reading
  looks the number up among the variants. The locale \<open>enum_codec\<close> states what the derived
  code relies on (the list names every variant, no two variants share a number) and gives
  both round trips; every enum of \<open>command/*/types.rs\<close> interprets it. \<open>default_codec\<close>
  extends it for the enums with an \<open>at_arg(default)\<close> variant, which absorbs all other
  numbers.
\<close>

definition enum_decode :: "('a \<Rightarrow> nat) \<Rightarrow> 'a list \<Rightarrow> nat \<Rightarrow> 'a option" where
  "enum_decode code variants n = List.find (\<lambda>x. code x = n) variants"

locale enum_codec =
  fixes code :: "'a \<Rightarrow> nat"
    and variants :: "'a list"
  assumes distinct_codes: "distinct (map code variants)"
    and exhaustive: "x \<in> set variants"
begin

lemma code_inject: "code x = code y \<longleftrightarrow> x = y"
  using distinct_codes exhaustive by (auto simp: distinct_map inj_on_def)

lemma decode_Some: "enum_decode code variants n = Some x \<longleftrightarrow> code x = n"
proof
  assume "enum_decode code variants n = Some x"
  then show "code x = n" by (auto simp: enum_decode_def find_Some_iff)
next
  assume n: "code x = n"
  show "enum_decode code variants n = Some x"
  proof (cases "enum_decode code variants n")
    case None
    with n exhaustive show ?thesis by (auto simp: enum_decode_def find_None_iff)
  next
    case (Some y)
    then have "code y = n" by (auto simp: enum_decode_def find_Some_iff)
    with n have "y = x" by (simp add: code_inject flip: n)
    with Some show ?thesis by simp
  qed
qed

lemma decode_code: "enum_decode code variants (code x) = Some x"
  by (simp add: decode_Some)

lemma decode_None: "enum_decode code variants n = None \<longleftrightarrow> (\<forall>x. code x \<noteq> n)"
  using decode_Some by (metis not_None_eq)

end

locale default_codec = enum_codec code variants
  for code :: "'a \<Rightarrow> nat" and variants :: "'a list" +
  fixes default_variant :: 'a
begin

definition decode_default :: "nat \<Rightarrow> 'a" where
  "decode_default n =
     (case enum_decode code variants n of None \<Rightarrow> default_variant | Some x \<Rightarrow> x)"

lemma decode_default_code: "decode_default (code x) = x"
  by (simp add: decode_default_def decode_code)

lemma decode_default_cases: "code (decode_default n) = n \<or> decode_default n = default_variant"
proof (cases "enum_decode code variants n")
  case None
  then show ?thesis by (simp add: decode_default_def)
next
  case (Some x)
  then have "code x = n" by (rule decode_Some [THEN iffD1])
  with Some show ?thesis by (simp add: decode_default_def)
qed

end

section \<open>Strings on the wire\<close>

text \<open>An \<open>&str\<close> or \<open>String<N>\<close> is its list of bytes, written as a \<open>string\<close>; the AT
  interface is ASCII.\<close>

type_synonym bytes = "u8 list"

text \<open>\<open>no_std_net::IpAddr\<close>.\<close>

datatype ip_addr = V4 u8 u8 u8 u8 | V6 "16 word list"

text \<open>\<open>Ipv4Addr::unspecified()\<close> is 0.0.0.0.\<close>

definition ipv4_unspecified :: ip_addr where
  "ipv4_unspecified = V4 0 0 0 0"

type_synonym socket_addr = "ip_addr \<times> 16 word"

text \<open>The one-byte newtypes of the crate.\<close>

type_synonym socket_handle = u8
type_synonym profile_id = u8
type_synonym context_id = u8
type_synonym security_profile_id = u8

end
