(* ===== verification/Control_Types.thy ===== *)
theory Control_Types
  imports Codec
begin

text \<open>
  The enums of \<open>command/\<close>\<open>{general,mobile_control,control,gpio,device_lock,system_features,sms}\<close>\<open>/types.rs\<close>:
  constructors as in the source, the number of each variant, and the codec interpretation.
  \<open>PinStatusCode\<close> has hand-written (de)serialisation of byte strings
  (\<open>device_lock/impl_.rs\<close>); \<open>Functionality\<close> and \<open>BaudRate\<close> have variants that exist on some
  module variants only, which \<open>functionality_available\<close> records.
\<close>

section \<open>Module variants\<close>

text \<open>The device-selection features of \<open>Cargo.toml\<close>, exactly one of which is enabled. The sources also
  test for \<open>lisa-u1\<close> and \<open>sara-r4\<close>, which no build can enable.\<close>

datatype module_variant =
    Lara_R2 | Lara_R6 | Leon_G1 | Lisa_U2 | Mpci_L2 | Sara_G3 | Sara_G4
  | Sara_R5 | Sara_U1 | Sara_U2 | Toby_L2 | Toby_R2 | Toby_L4

definition upsd_context_activation :: "module_variant \<Rightarrow> bool" where
  "upsd_context_activation m \<longleftrightarrow> m = Sara_R5 \<or> m = Sara_U2"

section \<open>General\<close>

datatype snt =
    IMEI | IMEISV | SVN | IMEIExtended

primrec snt_code :: "snt \<Rightarrow> nat" where
  "snt_code snt.IMEI = 0"
| "snt_code snt.IMEISV = 2"
| "snt_code snt.SVN = 3"
| "snt_code snt.IMEIExtended = 255"

definition snt_variants :: "snt list" where
  "snt_variants =
     [snt.IMEI, snt.IMEISV, snt.SVN, snt.IMEIExtended]"

interpretation snt: enum_codec snt_code snt_variants
  by unfold_locales
    (simp add: snt_variants_def, case_tac x, simp_all add: snt_variants_def)

section \<open>Mobile equipment control\<close>

datatype functionality =
    Minimum | Full | AirplaneMode | DedicatedMode | DisableSimToolkit | DisableSimToolkit'
  | RawMode | SilentReset | SilentResetWithSimReset | MinimumWithoutSim | Halt

primrec functionality_code :: "functionality \<Rightarrow> nat" where
  "functionality_code functionality.Minimum = 0"
| "functionality_code functionality.Full = 1"
| "functionality_code functionality.AirplaneMode = 4"
| "functionality_code functionality.DedicatedMode = 6"
| "functionality_code functionality.DisableSimToolkit = 7"
| "functionality_code functionality.DisableSimToolkit' = 8"
| "functionality_code functionality.RawMode = 9"
| "functionality_code functionality.SilentReset = 15"
| "functionality_code functionality.SilentResetWithSimReset = 16"
| "functionality_code functionality.MinimumWithoutSim = 19"
| "functionality_code functionality.Halt = 127"

definition functionality_variants :: "functionality list" where
  "functionality_variants =
     [functionality.Minimum, functionality.Full, functionality.AirplaneMode,
      functionality.DedicatedMode, functionality.DisableSimToolkit,
      functionality.DisableSimToolkit', functionality.RawMode, functionality.SilentReset,
      functionality.SilentResetWithSimReset, functionality.MinimumWithoutSim, functionality.Halt]"

interpretation functionality: enum_codec functionality_code functionality_variants
  by unfold_locales
    (simp add: functionality_variants_def, case_tac x, simp_all add: functionality_variants_def)

datatype reset_mode =
    DontReset | Reset

primrec reset_mode_code :: "reset_mode \<Rightarrow> nat" where
  "reset_mode_code reset_mode.DontReset = 0"
| "reset_mode_code reset_mode.Reset = 1"

definition reset_mode_variants :: "reset_mode list" where
  "reset_mode_variants =
     [reset_mode.DontReset, reset_mode.Reset]"

interpretation reset_mode: enum_codec reset_mode_code reset_mode_variants
  by unfold_locales
    (simp add: reset_mode_variants_def, case_tac x, simp_all add: reset_mode_variants_def)

datatype automatic_timezone =
    Disabled | EnabledLocal | EnabledGMT

primrec automatic_timezone_code :: "automatic_timezone \<Rightarrow> nat" where
  "automatic_timezone_code automatic_timezone.Disabled = 0"
| "automatic_timezone_code automatic_timezone.EnabledLocal = 1"
| "automatic_timezone_code automatic_timezone.EnabledGMT = 2"

definition automatic_timezone_variants :: "automatic_timezone list" where
  "automatic_timezone_variants =
     [automatic_timezone.Disabled, automatic_timezone.EnabledLocal,
      automatic_timezone.EnabledGMT]"

interpretation automatic_timezone: enum_codec automatic_timezone_code automatic_timezone_variants
  by unfold_locales
    (simp add: automatic_timezone_variants_def, case_tac x, simp_all add: automatic_timezone_variants_def)

datatype termination_error_mode =
    Disabled | Enabled | Verbose

primrec termination_error_mode_code :: "termination_error_mode \<Rightarrow> nat" where
  "termination_error_mode_code termination_error_mode.Disabled = 0"
| "termination_error_mode_code termination_error_mode.Enabled = 1"
| "termination_error_mode_code termination_error_mode.Verbose = 2"

definition termination_error_mode_variants :: "termination_error_mode list" where
  "termination_error_mode_variants =
     [termination_error_mode.Disabled, termination_error_mode.Enabled,
      termination_error_mode.Verbose]"

interpretation termination_error_mode: enum_codec termination_error_mode_code termination_error_mode_variants
  by unfold_locales
    (simp add: termination_error_mode_variants_def, case_tac x, simp_all add: termination_error_mode_variants_def)

datatype power_mode =
    Minimum | On | AirplaneMode | TestMode | MinimumWithoutSim

primrec power_mode_code :: "power_mode \<Rightarrow> nat" where
  "power_mode_code power_mode.Minimum = 0"
| "power_mode_code power_mode.On = 1"
| "power_mode_code power_mode.AirplaneMode = 4"
| "power_mode_code power_mode.TestMode = 5"
| "power_mode_code power_mode.MinimumWithoutSim = 19"

definition power_mode_variants :: "power_mode list" where
  "power_mode_variants =
     [power_mode.Minimum, power_mode.On, power_mode.AirplaneMode, power_mode.TestMode,
      power_mode.MinimumWithoutSim]"

interpretation power_mode: enum_codec power_mode_code power_mode_variants
  by unfold_locales
    (simp add: power_mode_variants_def, case_tac x, simp_all add: power_mode_variants_def)

datatype stk_mode =
    DedicatedMode | Disabled | RawMode

primrec stk_mode_code :: "stk_mode \<Rightarrow> nat" where
  "stk_mode_code stk_mode.DedicatedMode = 6"
| "stk_mode_code stk_mode.Disabled = 0"
| "stk_mode_code stk_mode.RawMode = 9"

definition stk_mode_variants :: "stk_mode list" where
  "stk_mode_variants =
     [stk_mode.DedicatedMode, stk_mode.Disabled, stk_mode.RawMode]"

interpretation stk_mode: enum_codec stk_mode_code stk_mode_variants
  by unfold_locales
    (simp add: stk_mode_variants_def, case_tac x, simp_all add: stk_mode_variants_def)

datatype report_mobile_termination_error_status =
    DisabledERRORused | EnabledCodeUsed | EnabledVerbose

primrec report_mobile_termination_error_status_code :: "report_mobile_termination_error_status \<Rightarrow> nat" where
  "report_mobile_termination_error_status_code report_mobile_termination_error_status.DisabledERRORused = 0"
| "report_mobile_termination_error_status_code report_mobile_termination_error_status.EnabledCodeUsed = 1"
| "report_mobile_termination_error_status_code report_mobile_termination_error_status.EnabledVerbose = 2"

definition report_mobile_termination_error_status_variants :: "report_mobile_termination_error_status list" where
  "report_mobile_termination_error_status_variants =
     [report_mobile_termination_error_status.DisabledERRORused,
      report_mobile_termination_error_status.EnabledCodeUsed,
      report_mobile_termination_error_status.EnabledVerbose]"

interpretation report_mobile_termination_error_status: enum_codec report_mobile_termination_error_status_code report_mobile_termination_error_status_variants
  by unfold_locales
    (simp add: report_mobile_termination_error_status_variants_def, case_tac x, simp_all add: report_mobile_termination_error_status_variants_def)

text \<open>The \<open>cfg(any(feature = ...))\<close> list of each variant, \<open>None\<close> where there is none: a
  variant exists in a build when the list is absent or names the module.\<close>

primrec functionality_features :: "functionality \<Rightarrow> module_variant list option" where
  "functionality_features functionality.Minimum =
     Some [Toby_L2, Mpci_L2, Lisa_U2, Sara_U2, Toby_R2, Lara_R2, Lara_R6,
       Toby_L4, Leon_G1, Sara_G3, Sara_G4, Sara_R5]"
| "functionality_features functionality.Full =
     Some [Toby_L2, Mpci_L2, Lisa_U2, Sara_U2, Toby_R2, Lara_R2, Lara_R6,
       Toby_L4, Leon_G1, Sara_G3, Sara_G4, Sara_R5]"
| "functionality_features functionality.AirplaneMode =
     Some [Toby_L2, Mpci_L2, Lisa_U2, Sara_U2, Toby_R2, Lara_R2, Lara_R6,
       Toby_L4, Sara_R5]"
| "functionality_features functionality.DedicatedMode =
     Some [Toby_L2, Mpci_L2, Lisa_U2, Sara_U2, Toby_R2, Lara_R2, Lara_R6,
       Toby_L4, Leon_G1, Sara_G3, Sara_G4, Sara_R5]"
| "functionality_features functionality.DisableSimToolkit =
     Some [Lisa_U2, Sara_U2, Toby_R2, Lara_R2, Toby_L4, Leon_G1, Sara_G3,
       Sara_G4, Sara_R5]"
| "functionality_features functionality.DisableSimToolkit' =
     Some [Lisa_U2, Sara_U2, Toby_R2, Lara_R2, Toby_L4, Leon_G1, Sara_G3,
       Sara_G4, Sara_R5]"
| "functionality_features functionality.RawMode =
     Some [Lisa_U2, Sara_U2, Toby_R2, Lara_R2, Sara_R5]"
| "functionality_features functionality.SilentReset =
     Some [Toby_L2, Mpci_L2, Lisa_U2, Sara_U2, Toby_R2, Lara_R2, Lara_R6,
       Toby_L4, Leon_G1, Sara_G3, Sara_G4, Sara_R5]"
| "functionality_features functionality.SilentResetWithSimReset =
     Some [Lisa_U2, Sara_U2, Toby_R2, Lara_R2, Lara_R6, Toby_L4, Leon_G1,
       Sara_G3, Sara_G4, Sara_R5]"
| "functionality_features functionality.MinimumWithoutSim =
     Some [Toby_L2, Mpci_L2, Toby_L4, Sara_R5]"
| "functionality_features functionality.Halt =
     Some [Toby_L2, Mpci_L2, Sara_R5]"

definition functionality_available :: "module_variant \<Rightarrow> functionality \<Rightarrow> bool" where
  "functionality_available m f \<longleftrightarrow>
     (case functionality_features f of None \<Rightarrow> True | Some ms \<Rightarrow> m \<in> set ms)"

section \<open>V24 control\<close>

datatype circuit109_behaviour =
    AlwaysPresent | ChangesWithCarrier

primrec circuit109_behaviour_code :: "circuit109_behaviour \<Rightarrow> nat" where
  "circuit109_behaviour_code circuit109_behaviour.AlwaysPresent = 0"
| "circuit109_behaviour_code circuit109_behaviour.ChangesWithCarrier = 1"

definition circuit109_behaviour_variants :: "circuit109_behaviour list" where
  "circuit109_behaviour_variants =
     [circuit109_behaviour.AlwaysPresent, circuit109_behaviour.ChangesWithCarrier]"

interpretation circuit109_behaviour: enum_codec circuit109_behaviour_code circuit109_behaviour_variants
  by unfold_locales
    (simp add: circuit109_behaviour_variants_def, case_tac x, simp_all add: circuit109_behaviour_variants_def)

datatype circuit108_behaviour =
    Ignore | OnlineCommandState | OrderlyCleardown

primrec circuit108_behaviour_code :: "circuit108_behaviour \<Rightarrow> nat" where
  "circuit108_behaviour_code circuit108_behaviour.Ignore = 0"
| "circuit108_behaviour_code circuit108_behaviour.OnlineCommandState = 1"
| "circuit108_behaviour_code circuit108_behaviour.OrderlyCleardown = 2"

definition circuit108_behaviour_variants :: "circuit108_behaviour list" where
  "circuit108_behaviour_variants =
     [circuit108_behaviour.Ignore, circuit108_behaviour.OnlineCommandState,
      circuit108_behaviour.OrderlyCleardown]"

interpretation circuit108_behaviour: enum_codec circuit108_behaviour_code circuit108_behaviour_variants
  by unfold_locales
    (simp add: circuit108_behaviour_variants_def, case_tac x, simp_all add: circuit108_behaviour_variants_def)

datatype flow_control =
    Disabled | RtsCts | XonXoff

primrec flow_control_code :: "flow_control \<Rightarrow> nat" where
  "flow_control_code flow_control.Disabled = 0"
| "flow_control_code flow_control.RtsCts = 3"
| "flow_control_code flow_control.XonXoff = 4"

definition flow_control_variants :: "flow_control list" where
  "flow_control_variants =
     [flow_control.Disabled, flow_control.RtsCts, flow_control.XonXoff]"

interpretation flow_control: enum_codec flow_control_code flow_control_variants
  by unfold_locales
    (simp add: flow_control_variants_def, case_tac x, simp_all add: flow_control_variants_def)

datatype software_flow_control =
    Flow_None | Circuit103_104 | Circuit105_106

primrec software_flow_control_code :: "software_flow_control \<Rightarrow> nat" where
  "software_flow_control_code software_flow_control.Flow_None = 0"
| "software_flow_control_code software_flow_control.Circuit103_104 = 1"
| "software_flow_control_code software_flow_control.Circuit105_106 = 3"

definition software_flow_control_variants :: "software_flow_control list" where
  "software_flow_control_variants =
     [software_flow_control.Flow_None, software_flow_control.Circuit103_104,
      software_flow_control.Circuit105_106]"

interpretation software_flow_control: enum_codec software_flow_control_code software_flow_control_variants
  by unfold_locales
    (simp add: software_flow_control_variants_def, case_tac x, simp_all add: software_flow_control_variants_def)

datatype baud_rate =
    B0 | B1200 | B2400 | B4800 | B9600 | B19200 | B38400 | B57600 | B115200 | B230400
  | B460800 | B921600 | B3000000 | B3250000 | B6000000 | B6500000

primrec baud_rate_code :: "baud_rate \<Rightarrow> nat" where
  "baud_rate_code baud_rate.B0 = 0"
| "baud_rate_code baud_rate.B1200 = 1200"
| "baud_rate_code baud_rate.B2400 = 2400"
| "baud_rate_code baud_rate.B4800 = 4800"
| "baud_rate_code baud_rate.B9600 = 9600"
| "baud_rate_code baud_rate.B19200 = 19200"
| "baud_rate_code baud_rate.B38400 = 38400"
| "baud_rate_code baud_rate.B57600 = 57600"
| "baud_rate_code baud_rate.B115200 = 115200"
| "baud_rate_code baud_rate.B230400 = 230400"
| "baud_rate_code baud_rate.B460800 = 460800"
| "baud_rate_code baud_rate.B921600 = 921600"
| "baud_rate_code baud_rate.B3000000 = 3000000"
| "baud_rate_code baud_rate.B3250000 = 3250000"
| "baud_rate_code baud_rate.B6000000 = 6000000"
| "baud_rate_code baud_rate.B6500000 = 6500000"

definition baud_rate_variants :: "baud_rate list" where
  "baud_rate_variants =
     [baud_rate.B0, baud_rate.B1200, baud_rate.B2400, baud_rate.B4800, baud_rate.B9600,
      baud_rate.B19200, baud_rate.B38400, baud_rate.B57600, baud_rate.B115200, baud_rate.B230400,
      baud_rate.B460800, baud_rate.B921600, baud_rate.B3000000, baud_rate.B3250000,
      baud_rate.B6000000, baud_rate.B6500000]"

interpretation baud_rate: enum_codec baud_rate_code baud_rate_variants
  by unfold_locales
    (simp add: baud_rate_variants_def, case_tac x, simp_all add: baud_rate_variants_def)

primrec baud_rate_features :: "baud_rate \<Rightarrow> module_variant list option" where
  "baud_rate_features baud_rate.B0 =
     Some [Toby_L2, Mpci_L2, Sara_U2, Toby_R2, Lara_R2, Toby_L4, Leon_G1, Sara_G3, Sara_G4]"
| "baud_rate_features baud_rate.B1200 =
     Some [Lisa_U2, Sara_U2]"
| "baud_rate_features baud_rate.B2400 =
     Some [Lisa_U2, Sara_U2, Leon_G1, Sara_G3, Sara_G4]"
| "baud_rate_features baud_rate.B4800 =
     Some [Lisa_U2, Sara_U2, Leon_G1, Sara_G3, Sara_G4]"
| "baud_rate_features baud_rate.B9600 = None"
| "baud_rate_features baud_rate.B19200 = None"
| "baud_rate_features baud_rate.B38400 = None"
| "baud_rate_features baud_rate.B57600 = None"
| "baud_rate_features baud_rate.B115200 = None"
| "baud_rate_features baud_rate.B230400 =
     Some [Toby_L2, Mpci_L2, Lisa_U2, Sara_U2, Toby_R2, Lara_R2, Toby_L4]"
| "baud_rate_features baud_rate.B460800 =
     Some [Toby_L2, Mpci_L2, Lisa_U2, Sara_U2, Toby_R2, Lara_R2, Toby_L4]"
| "baud_rate_features baud_rate.B921600 =
     Some [Toby_L2, Mpci_L2, Lisa_U2, Sara_U2, Toby_R2, Lara_R2, Toby_L4]"
| "baud_rate_features baud_rate.B3000000 =
     Some [Toby_R2, Lara_R2]"
| "baud_rate_features baud_rate.B3250000 =
     Some [Toby_R2, Lara_R2]"
| "baud_rate_features baud_rate.B6000000 =
     Some [Toby_R2, Lara_R2]"
| "baud_rate_features baud_rate.B6500000 =
     Some [Toby_R2, Lara_R2]"

definition baud_rate_available :: "module_variant \<Rightarrow> baud_rate \<Rightarrow> bool" where
  "baud_rate_available m b \<longleftrightarrow>
     (case baud_rate_features b of None \<Rightarrow> True | Some ms \<Rightarrow> m \<in> set ms)"

section \<open>GPIO\<close>

datatype gpio_out_value =
    Low | High

primrec gpio_out_value_code :: "gpio_out_value \<Rightarrow> nat" where
  "gpio_out_value_code gpio_out_value.Low = 0"
| "gpio_out_value_code gpio_out_value.High = 1"

definition gpio_out_value_variants :: "gpio_out_value list" where
  "gpio_out_value_variants =
     [gpio_out_value.Low, gpio_out_value.High]"

interpretation gpio_out_value: enum_codec gpio_out_value_code gpio_out_value_variants
  by unfold_locales
    (simp add: gpio_out_value_variants_def, case_tac x, simp_all add: gpio_out_value_variants_def)

datatype gpio_in_pull =
    NoPull | PullUp | PullDown

primrec gpio_in_pull_code :: "gpio_in_pull \<Rightarrow> nat" where
  "gpio_in_pull_code gpio_in_pull.NoPull = 0"
| "gpio_in_pull_code gpio_in_pull.PullUp = 1"
| "gpio_in_pull_code gpio_in_pull.PullDown = 2"

definition gpio_in_pull_variants :: "gpio_in_pull list" where
  "gpio_in_pull_variants =
     [gpio_in_pull.NoPull, gpio_in_pull.PullUp, gpio_in_pull.PullDown]"

interpretation gpio_in_pull: enum_codec gpio_in_pull_code gpio_in_pull_variants
  by unfold_locales
    (simp add: gpio_in_pull_variants_def, case_tac x, simp_all add: gpio_in_pull_variants_def)

text \<open>An enum with fields is written as its tag followed by the fields.\<close>

datatype gpio_mode =
    Output gpio_out_value | Input gpio_in_pull | NetworkStatus | ExternalGnssSupplyEnable
  | ExternalGnssDataReady | ExternalGnssRtcSharing | JammingDetection | SimDetection
  | HeadsetDetection | GsmTxIndication | ModuleOperatingStatus | ModuleFunctionalityStatus
  | I2SDigitalAudio | SpiSerial | MasterClockGeneration | Uart | WifiEnable | RingIndication
  | LastGaspEnable | ExternalGnssAntenna | TimePulseGnss | TimePulseModem
  | TimestampExternalInterrupt | FastPoweroff | Lwm2mPulse | HardwareFlowControl
  | ClockOutput | PadDisabled

primrec gpio_mode_tag :: "gpio_mode \<Rightarrow> nat" where
  "gpio_mode_tag (gpio_mode.Output _) = 0"
| "gpio_mode_tag (gpio_mode.Input _) = 1"
| "gpio_mode_tag gpio_mode.NetworkStatus = 2"
| "gpio_mode_tag gpio_mode.ExternalGnssSupplyEnable = 3"
| "gpio_mode_tag gpio_mode.ExternalGnssDataReady = 4"
| "gpio_mode_tag gpio_mode.ExternalGnssRtcSharing = 5"
| "gpio_mode_tag gpio_mode.JammingDetection = 6"
| "gpio_mode_tag gpio_mode.SimDetection = 7"
| "gpio_mode_tag gpio_mode.HeadsetDetection = 8"
| "gpio_mode_tag gpio_mode.GsmTxIndication = 9"
| "gpio_mode_tag gpio_mode.ModuleOperatingStatus = 10"
| "gpio_mode_tag gpio_mode.ModuleFunctionalityStatus = 11"
| "gpio_mode_tag gpio_mode.I2SDigitalAudio = 12"
| "gpio_mode_tag gpio_mode.SpiSerial = 13"
| "gpio_mode_tag gpio_mode.MasterClockGeneration = 14"
| "gpio_mode_tag gpio_mode.Uart = 15"
| "gpio_mode_tag gpio_mode.WifiEnable = 16"
| "gpio_mode_tag gpio_mode.RingIndication = 18"
| "gpio_mode_tag gpio_mode.LastGaspEnable = 19"
| "gpio_mode_tag gpio_mode.ExternalGnssAntenna = 20"
| "gpio_mode_tag gpio_mode.TimePulseGnss = 21"
| "gpio_mode_tag gpio_mode.TimePulseModem = 22"
| "gpio_mode_tag gpio_mode.TimestampExternalInterrupt = 23"
| "gpio_mode_tag gpio_mode.FastPoweroff = 24"
| "gpio_mode_tag gpio_mode.Lwm2mPulse = 25"
| "gpio_mode_tag gpio_mode.HardwareFlowControl = 26"
| "gpio_mode_tag gpio_mode.ClockOutput = 32"
| "gpio_mode_tag gpio_mode.PadDisabled = 255"

section \<open>Device lock\<close>

text \<open>\<open>Field\<close>, the names of the variants on the wire, and the variants themselves.\<close>

datatype pin_field =
    Ready | SimPin | SimPuk | SimPin2 | SimPuk2 | PhNetPin | PhNetSubPin | PhSpPin | PhCorpPin
  | PhSimPin

datatype pin_status_code =
    Ready | SimPin | SimPuk | SimPin2 | SimPuk2 | PhNetPin | PhNetSubPin | PhSpPin | PhCorpPin
  | PhSimPin

text \<open>\<open>Serialize for PinStatusCode\<close>: the byte string written for each code.\<close>

primrec pin_status_serialize :: "pin_status_code \<Rightarrow> string" where
  "pin_status_serialize Ready = ''READY''"
| "pin_status_serialize SimPin = ''SIM PIN''"
| "pin_status_serialize SimPuk = ''SIM PUK''"
| "pin_status_serialize SimPin2 = ''SIM PIN2''"
| "pin_status_serialize SimPuk2 = ''SIM PUK2''"
| "pin_status_serialize PhNetPin = ''PH-NET PIN''"
| "pin_status_serialize PhNetSubPin = ''PH-NETSUB PIN''"
| "pin_status_serialize PhSpPin = ''PH-SP PIN''"
| "pin_status_serialize PhCorpPin = ''PH-CORP PIN''"
| "pin_status_serialize PhSimPin = ''PH-SIM PIN''"

text \<open>\<open>FieldVisitor::visit_bytes\<close>: the byte strings accepted, in the order they are tried;
  anything else is \<open>unknown_variant\<close>.\<close>

definition pin_field_visit_bytes :: "string \<Rightarrow> pin_field option" where
  "pin_field_visit_bytes value =
     (if value = ''READY'' then Some pin_field.Ready
      else if value = ''SIM PIN'' then Some pin_field.SimPin
      else if value = ''SIM PUK'' then Some pin_field.SimPuk
      else if value = ''SIM PIN2'' then Some pin_field.SimPin2
      else if value = ''SIM PUK2'' then Some pin_field.SimPuk2
      else if value = ''PH-NET PIN'' then Some pin_field.PhNetPin
      else if value = ''PH-NETSUB PIN'' then Some pin_field.PhNetSubPin
      else if value = ''PH-SP PIN'' then Some pin_field.PhSpPin
      else if value = ''PH-CORP PIN'' then Some pin_field.PhCorpPin
      else if value = ''PH-SIM PIN'' then Some pin_field.PhSimPin
      else None)"

text \<open>\<open>Visitor::visit_enum\<close>.\<close>

primrec pin_status_visit_enum :: "pin_field \<Rightarrow> pin_status_code" where
  "pin_status_visit_enum pin_field.Ready = Ready"
| "pin_status_visit_enum pin_field.SimPin = SimPin"
| "pin_status_visit_enum pin_field.SimPuk = SimPuk"
| "pin_status_visit_enum pin_field.SimPin2 = SimPin2"
| "pin_status_visit_enum pin_field.SimPuk2 = SimPuk2"
| "pin_status_visit_enum pin_field.PhNetPin = PhNetPin"
| "pin_status_visit_enum pin_field.PhNetSubPin = PhNetSubPin"
| "pin_status_visit_enum pin_field.PhSpPin = PhSpPin"
| "pin_status_visit_enum pin_field.PhCorpPin = PhCorpPin"
| "pin_status_visit_enum pin_field.PhSimPin = PhSimPin"

definition pin_status_deserialize :: "string \<Rightarrow> pin_status_code option" where
  "pin_status_deserialize value = map_option pin_status_visit_enum (pin_field_visit_bytes value)"

lemma pin_status_deserialize_serialize: "pin_status_deserialize (pin_status_serialize c) = Some c"
  by (cases c) (simp_all add: pin_status_deserialize_def pin_field_visit_bytes_def)

lemma pin_status_deserialize_Some:
  "pin_status_deserialize v = Some c \<Longrightarrow> pin_status_serialize c = v"
  by (auto simp: pin_status_deserialize_def pin_field_visit_bytes_def split: if_splits)

section \<open>System features\<close>

datatype power_saving_mode =
    Disabled | Enabled | CtrlByRts | CtrlByDtr

primrec power_saving_mode_code :: "power_saving_mode \<Rightarrow> nat" where
  "power_saving_mode_code power_saving_mode.Disabled = 0"
| "power_saving_mode_code power_saving_mode.Enabled = 1"
| "power_saving_mode_code power_saving_mode.CtrlByRts = 2"
| "power_saving_mode_code power_saving_mode.CtrlByDtr = 3"

definition power_saving_mode_variants :: "power_saving_mode list" where
  "power_saving_mode_variants =
     [power_saving_mode.Disabled, power_saving_mode.Enabled, power_saving_mode.CtrlByRts,
      power_saving_mode.CtrlByDtr]"

interpretation power_saving_mode: enum_codec power_saving_mode_code power_saving_mode_variants
  by unfold_locales
    (simp add: power_saving_mode_variants_def, case_tac x, simp_all add: power_saving_mode_variants_def)

datatype fs_factory_restore_type =
    NoRestore | FSFlashSectors | AllFiles

primrec fs_factory_restore_type_code :: "fs_factory_restore_type \<Rightarrow> nat" where
  "fs_factory_restore_type_code fs_factory_restore_type.NoRestore = 0"
| "fs_factory_restore_type_code fs_factory_restore_type.FSFlashSectors = 1"
| "fs_factory_restore_type_code fs_factory_restore_type.AllFiles = 2"

definition fs_factory_restore_type_variants :: "fs_factory_restore_type list" where
  "fs_factory_restore_type_variants =
     [fs_factory_restore_type.NoRestore, fs_factory_restore_type.FSFlashSectors,
      fs_factory_restore_type.AllFiles]"

interpretation fs_factory_restore_type: enum_codec fs_factory_restore_type_code fs_factory_restore_type_variants
  by unfold_locales
    (simp add: fs_factory_restore_type_variants_def, case_tac x, simp_all add: fs_factory_restore_type_variants_def)

datatype nvm_factory_restore_type =
    NoRestore | NVMFlashSectors | InternalUseOnly

primrec nvm_factory_restore_type_code :: "nvm_factory_restore_type \<Rightarrow> nat" where
  "nvm_factory_restore_type_code nvm_factory_restore_type.NoRestore = 0"
| "nvm_factory_restore_type_code nvm_factory_restore_type.NVMFlashSectors = 1"
| "nvm_factory_restore_type_code nvm_factory_restore_type.InternalUseOnly = 2"

definition nvm_factory_restore_type_variants :: "nvm_factory_restore_type list" where
  "nvm_factory_restore_type_variants =
     [nvm_factory_restore_type.NoRestore, nvm_factory_restore_type.NVMFlashSectors,
      nvm_factory_restore_type.InternalUseOnly]"

interpretation nvm_factory_restore_type: enum_codec nvm_factory_restore_type_code nvm_factory_restore_type_variants
  by unfold_locales
    (simp add: nvm_factory_restore_type_variants_def, case_tac x, simp_all add: nvm_factory_restore_type_variants_def)

text \<open>\<open>Seconds(u32)\<close>.\<close>

type_synonym seconds = "32 word"

section \<open>Short messages\<close>

datatype message_indication_type =
    VoiceMessage | FaxMessage | EmailMessage | ExtendedMessage | VideoMessage
  | VoiceMessageLine2 | Reserved

primrec message_indication_type_code :: "message_indication_type \<Rightarrow> nat" where
  "message_indication_type_code message_indication_type.VoiceMessage = 1"
| "message_indication_type_code message_indication_type.FaxMessage = 2"
| "message_indication_type_code message_indication_type.EmailMessage = 3"
| "message_indication_type_code message_indication_type.ExtendedMessage = 4"
| "message_indication_type_code message_indication_type.VideoMessage = 5"
| "message_indication_type_code message_indication_type.VoiceMessageLine2 = 6"
| "message_indication_type_code message_indication_type.Reserved = 7"

definition message_indication_type_variants :: "message_indication_type list" where
  "message_indication_type_variants =
     [message_indication_type.VoiceMessage, message_indication_type.FaxMessage,
      message_indication_type.EmailMessage, message_indication_type.ExtendedMessage,
      message_indication_type.VideoMessage, message_indication_type.VoiceMessageLine2,
      message_indication_type.Reserved]"

interpretation message_indication_type: enum_codec message_indication_type_code message_indication_type_variants
  by unfold_locales
    (simp add: message_indication_type_variants_def, case_tac x, simp_all add: message_indication_type_variants_def)

datatype message_waiting_mode =
    Disabled | Enabled

primrec message_waiting_mode_code :: "message_waiting_mode \<Rightarrow> nat" where
  "message_waiting_mode_code message_waiting_mode.Disabled = 0"
| "message_waiting_mode_code message_waiting_mode.Enabled = 1"

definition message_waiting_mode_variants :: "message_waiting_mode list" where
  "message_waiting_mode_variants =
     [message_waiting_mode.Disabled, message_waiting_mode.Enabled]"

interpretation message_waiting_mode: default_codec message_waiting_mode_code message_waiting_mode_variants message_waiting_mode.Enabled
  by unfold_locales
    (simp add: message_waiting_mode_variants_def, case_tac x, simp_all add: message_waiting_mode_variants_def)

end
