(* ===== verification/Network_Types.thy ===== *)
theory Network_Types
  imports Codec
begin

text \<open>
  The enums of \<open>command/network_service/types.rs\<close> and \<open>command/psn/types.rs\<close>: registration
  and operator selection, and the packet-switched data profile. \<open>param_tag\<close> and
  \<open>packet_switched_param_req_code\<close> are the two halves of \<open>AT+UPSD\<close>: the tag a parameter is
  written with and the tag it is asked for with.
\<close>

section \<open>Network service\<close>

text \<open>\<open>OperatorSelectionMode\<close> has an \<open>at_arg(default)\<close> variant \<open>Unknown\<close> with no number of its
  own: reading gives it for every number that is not listed, and only the numbered modes
  are ever written.\<close>

datatype operator_selection_mode =
    Automatic | Manual | Deregister | FormatOnly | ManualAutomatic | ExtendedNetworkSearch
  | ExtendedNetworkSearchWithoutTags | NetworkTimingAdvanceSearch | Mode_Unknown

definition operator_selection_mode_of :: "nat \<Rightarrow> operator_selection_mode" where
  "operator_selection_mode_of n =
     (if n = 0 then Automatic else if n = 1 then Manual else if n = 2 then Deregister
      else if n = 3 then FormatOnly else if n = 4 then ManualAutomatic
      else if n = 5 then ExtendedNetworkSearch
      else if n = 6 then ExtendedNetworkSearchWithoutTags
      else if n = 8 then NetworkTimingAdvanceSearch else Mode_Unknown)"

datatype rat_act =
    Gsm | GsmCompact | Utran | GsmGprsEdge | UtranHspda | UtranHsupa | UtranHspdaHsupa | Lte
  | EcGsmIot | Eutran | Unknown

primrec rat_act_code :: "rat_act \<Rightarrow> nat" where
  "rat_act_code rat_act.Gsm = 0"
| "rat_act_code rat_act.GsmCompact = 1"
| "rat_act_code rat_act.Utran = 2"
| "rat_act_code rat_act.GsmGprsEdge = 3"
| "rat_act_code rat_act.UtranHspda = 4"
| "rat_act_code rat_act.UtranHsupa = 5"
| "rat_act_code rat_act.UtranHspdaHsupa = 6"
| "rat_act_code rat_act.Lte = 7"
| "rat_act_code rat_act.EcGsmIot = 8"
| "rat_act_code rat_act.Eutran = 9"
| "rat_act_code rat_act.Unknown = 10"

definition rat_act_variants :: "rat_act list" where
  "rat_act_variants =
     [rat_act.Gsm, rat_act.GsmCompact, rat_act.Utran, rat_act.GsmGprsEdge, rat_act.UtranHspda,
      rat_act.UtranHsupa, rat_act.UtranHspdaHsupa, rat_act.Lte, rat_act.EcGsmIot, rat_act.Eutran,
      rat_act.Unknown]"

interpretation rat_act: default_codec rat_act_code rat_act_variants rat_act.Unknown
  by unfold_locales
    (simp add: rat_act_variants_def, case_tac x, simp_all add: rat_act_variants_def)

datatype network_registration_urc_config =
    UrcDisabled | UrcEnabled | UrcVerbose

primrec network_registration_urc_config_code :: "network_registration_urc_config \<Rightarrow> nat" where
  "network_registration_urc_config_code network_registration_urc_config.UrcDisabled = 0"
| "network_registration_urc_config_code network_registration_urc_config.UrcEnabled = 1"
| "network_registration_urc_config_code network_registration_urc_config.UrcVerbose = 2"

definition network_registration_urc_config_variants :: "network_registration_urc_config list" where
  "network_registration_urc_config_variants =
     [network_registration_urc_config.UrcDisabled, network_registration_urc_config.UrcEnabled,
      network_registration_urc_config.UrcVerbose]"

interpretation network_registration_urc_config: enum_codec network_registration_urc_config_code network_registration_urc_config_variants
  by unfold_locales
    (simp add: network_registration_urc_config_variants_def, case_tac x, simp_all add: network_registration_urc_config_variants_def)

datatype network_registration_stat =
    NotRegistered | Registered | NotRegisteredSearching | RegistrationDenied | Unknown
  | RegisteredRoaming | RegisteredSmsOnly | RegisteredSmsOnlyRoaming
  | RegisteredCsfbNotPerferred | RegisteredCsfbNotPerferredRoaming

primrec network_registration_stat_code :: "network_registration_stat \<Rightarrow> nat" where
  "network_registration_stat_code network_registration_stat.NotRegistered = 0"
| "network_registration_stat_code network_registration_stat.Registered = 1"
| "network_registration_stat_code network_registration_stat.NotRegisteredSearching = 2"
| "network_registration_stat_code network_registration_stat.RegistrationDenied = 3"
| "network_registration_stat_code network_registration_stat.Unknown = 4"
| "network_registration_stat_code network_registration_stat.RegisteredRoaming = 5"
| "network_registration_stat_code network_registration_stat.RegisteredSmsOnly = 6"
| "network_registration_stat_code network_registration_stat.RegisteredSmsOnlyRoaming = 7"
| "network_registration_stat_code network_registration_stat.RegisteredCsfbNotPerferred = 9"
| "network_registration_stat_code network_registration_stat.RegisteredCsfbNotPerferredRoaming = 10"

definition network_registration_stat_variants :: "network_registration_stat list" where
  "network_registration_stat_variants =
     [network_registration_stat.NotRegistered, network_registration_stat.Registered,
      network_registration_stat.NotRegisteredSearching,
      network_registration_stat.RegistrationDenied, network_registration_stat.Unknown,
      network_registration_stat.RegisteredRoaming, network_registration_stat.RegisteredSmsOnly,
      network_registration_stat.RegisteredSmsOnlyRoaming,
      network_registration_stat.RegisteredCsfbNotPerferred,
      network_registration_stat.RegisteredCsfbNotPerferredRoaming]"

interpretation network_registration_stat: enum_codec network_registration_stat_code network_registration_stat_variants
  by unfold_locales
    (simp add: network_registration_stat_variants_def, case_tac x, simp_all add: network_registration_stat_variants_def)

datatype rat_preferred =
    GsmGprsEgprs | Utran | Lte

primrec rat_preferred_code :: "rat_preferred \<Rightarrow> nat" where
  "rat_preferred_code rat_preferred.GsmGprsEgprs = 0"
| "rat_preferred_code rat_preferred.Utran = 2"
| "rat_preferred_code rat_preferred.Lte = 3"

definition rat_preferred_variants :: "rat_preferred list" where
  "rat_preferred_variants =
     [rat_preferred.GsmGprsEgprs, rat_preferred.Utran, rat_preferred.Lte]"

interpretation rat_preferred: enum_codec rat_preferred_code rat_preferred_variants
  by unfold_locales
    (simp add: rat_preferred_variants_def, case_tac x, simp_all add: rat_preferred_variants_def)

datatype first_radio_access_technology =
    GsmGprsEGprs | Umts | Lte

primrec first_radio_access_technology_code :: "first_radio_access_technology \<Rightarrow> nat" where
  "first_radio_access_technology_code first_radio_access_technology.GsmGprsEGprs = 0"
| "first_radio_access_technology_code first_radio_access_technology.Umts = 2"
| "first_radio_access_technology_code first_radio_access_technology.Lte = 3"

definition first_radio_access_technology_variants :: "first_radio_access_technology list" where
  "first_radio_access_technology_variants =
     [first_radio_access_technology.GsmGprsEGprs, first_radio_access_technology.Umts,
      first_radio_access_technology.Lte]"

interpretation first_radio_access_technology: enum_codec first_radio_access_technology_code first_radio_access_technology_variants
  by unfold_locales
    (simp add: first_radio_access_technology_variants_def, case_tac x, simp_all add: first_radio_access_technology_variants_def)

datatype second_radio_access_technology =
    Umts

primrec second_radio_access_technology_code :: "second_radio_access_technology \<Rightarrow> nat" where
  "second_radio_access_technology_code second_radio_access_technology.Umts = 2"

definition second_radio_access_technology_variants :: "second_radio_access_technology list" where
  "second_radio_access_technology_variants =
     [second_radio_access_technology.Umts]"

interpretation second_radio_access_technology: enum_codec second_radio_access_technology_code second_radio_access_technology_variants
  by unfold_locales
    (simp add: second_radio_access_technology_variants_def, case_tac x, simp_all add: second_radio_access_technology_variants_def)

datatype third_radio_access_technology =
    GsmGprsEGprs

primrec third_radio_access_technology_code :: "third_radio_access_technology \<Rightarrow> nat" where
  "third_radio_access_technology_code third_radio_access_technology.GsmGprsEGprs = 0"

definition third_radio_access_technology_variants :: "third_radio_access_technology list" where
  "third_radio_access_technology_variants =
     [third_radio_access_technology.GsmGprsEGprs]"

interpretation third_radio_access_technology: enum_codec third_radio_access_technology_code third_radio_access_technology_variants
  by unfold_locales
    (simp add: third_radio_access_technology_variants_def, case_tac x, simp_all add: third_radio_access_technology_variants_def)

datatype radio_access_technology_selected =
    GsmGprsEGprs | GsmUmts rat_preferred | Umts | Lte
  | GsmUmtsLte rat_preferred rat_preferred | GsmLte rat_preferred | UmtsLte rat_preferred

primrec rat_selected_tag :: "radio_access_technology_selected \<Rightarrow> nat" where
  "rat_selected_tag radio_access_technology_selected.GsmGprsEGprs = 0"
| "rat_selected_tag (radio_access_technology_selected.GsmUmts _) = 1"
| "rat_selected_tag radio_access_technology_selected.Umts = 2"
| "rat_selected_tag radio_access_technology_selected.Lte = 3"
| "rat_selected_tag (radio_access_technology_selected.GsmUmtsLte _ _) = 4"
| "rat_selected_tag (radio_access_technology_selected.GsmLte _) = 5"
| "rat_selected_tag (radio_access_technology_selected.UmtsLte _) = 6"

datatype operator_name_format =
    Long string | Short string | Numeric string

primrec operator_name_format_tag :: "operator_name_format \<Rightarrow> nat" where
  "operator_name_format_tag (operator_name_format.Long _) = 0"
| "operator_name_format_tag (operator_name_format.Short _) = 1"
| "operator_name_format_tag (operator_name_format.Numeric _) = 2"

section \<open>Packet-switched data\<close>

datatype pdp_context_status =
    Deactivated | Activated

primrec pdp_context_status_code :: "pdp_context_status \<Rightarrow> nat" where
  "pdp_context_status_code pdp_context_status.Deactivated = 0"
| "pdp_context_status_code pdp_context_status.Activated = 1"

definition pdp_context_status_variants :: "pdp_context_status list" where
  "pdp_context_status_variants =
     [pdp_context_status.Deactivated, pdp_context_status.Activated]"

interpretation pdp_context_status: enum_codec pdp_context_status_code pdp_context_status_variants
  by unfold_locales
    (simp add: pdp_context_status_variants_def, case_tac x, simp_all add: pdp_context_status_variants_def)

datatype packet_switched_param_req =
    ProtocolType | APN | Username | Password | DNS1 | DNS2 | Authentication | IPAddress
  | DataCompression | HeaderCompression | QoSPrecedence | QoSDelay | QoSReliability
  | UNUSED | MapProfile

primrec packet_switched_param_req_code :: "packet_switched_param_req \<Rightarrow> nat" where
  "packet_switched_param_req_code packet_switched_param_req.ProtocolType = 0"
| "packet_switched_param_req_code packet_switched_param_req.APN = 1"
| "packet_switched_param_req_code packet_switched_param_req.Username = 2"
| "packet_switched_param_req_code packet_switched_param_req.Password = 3"
| "packet_switched_param_req_code packet_switched_param_req.DNS1 = 4"
| "packet_switched_param_req_code packet_switched_param_req.DNS2 = 5"
| "packet_switched_param_req_code packet_switched_param_req.Authentication = 6"
| "packet_switched_param_req_code packet_switched_param_req.IPAddress = 7"
| "packet_switched_param_req_code packet_switched_param_req.DataCompression = 8"
| "packet_switched_param_req_code packet_switched_param_req.HeaderCompression = 9"
| "packet_switched_param_req_code packet_switched_param_req.QoSPrecedence = 10"
| "packet_switched_param_req_code packet_switched_param_req.QoSDelay = 11"
| "packet_switched_param_req_code packet_switched_param_req.QoSReliability = 12"
| "packet_switched_param_req_code packet_switched_param_req.UNUSED = 255"
| "packet_switched_param_req_code packet_switched_param_req.MapProfile = 100"

definition packet_switched_param_req_variants :: "packet_switched_param_req list" where
  "packet_switched_param_req_variants =
     [packet_switched_param_req.ProtocolType, packet_switched_param_req.APN,
      packet_switched_param_req.Username, packet_switched_param_req.Password,
      packet_switched_param_req.DNS1, packet_switched_param_req.DNS2,
      packet_switched_param_req.Authentication, packet_switched_param_req.IPAddress,
      packet_switched_param_req.DataCompression, packet_switched_param_req.HeaderCompression,
      packet_switched_param_req.QoSPrecedence, packet_switched_param_req.QoSDelay,
      packet_switched_param_req.QoSReliability, packet_switched_param_req.UNUSED,
      packet_switched_param_req.MapProfile]"

interpretation packet_switched_param_req: enum_codec packet_switched_param_req_code packet_switched_param_req_variants
  by unfold_locales
    (simp add: packet_switched_param_req_variants_def, case_tac x, simp_all add: packet_switched_param_req_variants_def)

datatype protocol_type =
    IPv4 | IPv6 | IPv4v6PreferV4Internal | IPv4v6PreferV6Internal

primrec protocol_type_code :: "protocol_type \<Rightarrow> nat" where
  "protocol_type_code protocol_type.IPv4 = 0"
| "protocol_type_code protocol_type.IPv6 = 1"
| "protocol_type_code protocol_type.IPv4v6PreferV4Internal = 2"
| "protocol_type_code protocol_type.IPv4v6PreferV6Internal = 3"

definition protocol_type_variants :: "protocol_type list" where
  "protocol_type_variants =
     [protocol_type.IPv4, protocol_type.IPv6, protocol_type.IPv4v6PreferV4Internal,
      protocol_type.IPv4v6PreferV6Internal]"

interpretation protocol_type: enum_codec protocol_type_code protocol_type_variants
  by unfold_locales
    (simp add: protocol_type_variants_def, case_tac x, simp_all add: protocol_type_variants_def)

datatype authentication_type =
    Auth_None | PAP | CHAP | Auto

primrec authentication_type_code :: "authentication_type \<Rightarrow> nat" where
  "authentication_type_code authentication_type.Auth_None = 0"
| "authentication_type_code authentication_type.PAP = 1"
| "authentication_type_code authentication_type.CHAP = 2"
| "authentication_type_code authentication_type.Auto = 3"

definition authentication_type_variants :: "authentication_type list" where
  "authentication_type_variants =
     [authentication_type.Auth_None, authentication_type.PAP, authentication_type.CHAP,
      authentication_type.Auto]"

interpretation authentication_type: enum_codec authentication_type_code authentication_type_variants
  by unfold_locales
    (simp add: authentication_type_variants_def, case_tac x, simp_all add: authentication_type_variants_def)

datatype data_compression =
    Off | Predefined | V42Bits

primrec data_compression_code :: "data_compression \<Rightarrow> nat" where
  "data_compression_code data_compression.Off = 0"
| "data_compression_code data_compression.Predefined = 1"
| "data_compression_code data_compression.V42Bits = 2"

definition data_compression_variants :: "data_compression list" where
  "data_compression_variants =
     [data_compression.Off, data_compression.Predefined, data_compression.V42Bits]"

interpretation data_compression: enum_codec data_compression_code data_compression_variants
  by unfold_locales
    (simp add: data_compression_variants_def, case_tac x, simp_all add: data_compression_variants_def)

datatype header_compression =
    Off | Predefined | RFC1144 | RFC2507 | RFC3095

primrec header_compression_code :: "header_compression \<Rightarrow> nat" where
  "header_compression_code header_compression.Off = 0"
| "header_compression_code header_compression.Predefined = 1"
| "header_compression_code header_compression.RFC1144 = 2"
| "header_compression_code header_compression.RFC2507 = 3"
| "header_compression_code header_compression.RFC3095 = 4"

definition header_compression_variants :: "header_compression list" where
  "header_compression_variants =
     [header_compression.Off, header_compression.Predefined, header_compression.RFC1144,
      header_compression.RFC2507, header_compression.RFC3095]"

interpretation header_compression: enum_codec header_compression_code header_compression_variants
  by unfold_locales
    (simp add: header_compression_variants_def, case_tac x, simp_all add: header_compression_variants_def)

datatype qos_precedence =
    Subscribed | High | Normal | Low

primrec qos_precedence_code :: "qos_precedence \<Rightarrow> nat" where
  "qos_precedence_code qos_precedence.Subscribed = 0"
| "qos_precedence_code qos_precedence.High = 1"
| "qos_precedence_code qos_precedence.Normal = 2"
| "qos_precedence_code qos_precedence.Low = 3"

definition qos_precedence_variants :: "qos_precedence list" where
  "qos_precedence_variants =
     [qos_precedence.Subscribed, qos_precedence.High, qos_precedence.Normal, qos_precedence.Low]"

interpretation qos_precedence: enum_codec qos_precedence_code qos_precedence_variants
  by unfold_locales
    (simp add: qos_precedence_variants_def, case_tac x, simp_all add: qos_precedence_variants_def)

datatype qos_delay =
    Subscribed | Class1 | Class2 | Class3 | BestEffort

primrec qos_delay_code :: "qos_delay \<Rightarrow> nat" where
  "qos_delay_code qos_delay.Subscribed = 0"
| "qos_delay_code qos_delay.Class1 = 1"
| "qos_delay_code qos_delay.Class2 = 2"
| "qos_delay_code qos_delay.Class3 = 3"
| "qos_delay_code qos_delay.BestEffort = 4"

definition qos_delay_variants :: "qos_delay list" where
  "qos_delay_variants =
     [qos_delay.Subscribed, qos_delay.Class1, qos_delay.Class2, qos_delay.Class3,
      qos_delay.BestEffort]"

interpretation qos_delay: enum_codec qos_delay_code qos_delay_variants
  by unfold_locales
    (simp add: qos_delay_variants_def, case_tac x, simp_all add: qos_delay_variants_def)

datatype qos_reliability =
    Subscribed | Class1 | Class2 | Class3 | Class4 | Class5 | Class6

primrec qos_reliability_code :: "qos_reliability \<Rightarrow> nat" where
  "qos_reliability_code qos_reliability.Subscribed = 0"
| "qos_reliability_code qos_reliability.Class1 = 1"
| "qos_reliability_code qos_reliability.Class2 = 2"
| "qos_reliability_code qos_reliability.Class3 = 3"
| "qos_reliability_code qos_reliability.Class4 = 4"
| "qos_reliability_code qos_reliability.Class5 = 5"
| "qos_reliability_code qos_reliability.Class6 = 6"

definition qos_reliability_variants :: "qos_reliability list" where
  "qos_reliability_variants =
     [qos_reliability.Subscribed, qos_reliability.Class1, qos_reliability.Class2,
      qos_reliability.Class3, qos_reliability.Class4, qos_reliability.Class5,
      qos_reliability.Class6]"

interpretation qos_reliability: enum_codec qos_reliability_code qos_reliability_variants
  by unfold_locales
    (simp add: qos_reliability_variants_def, case_tac x, simp_all add: qos_reliability_variants_def)

datatype packet_switched_action =
    Reset | Store | Load | Activate | Deactivate

primrec packet_switched_action_code :: "packet_switched_action \<Rightarrow> nat" where
  "packet_switched_action_code packet_switched_action.Reset = 0"
| "packet_switched_action_code packet_switched_action.Store = 1"
| "packet_switched_action_code packet_switched_action.Load = 2"
| "packet_switched_action_code packet_switched_action.Activate = 3"
| "packet_switched_action_code packet_switched_action.Deactivate = 4"

definition packet_switched_action_variants :: "packet_switched_action list" where
  "packet_switched_action_variants =
     [packet_switched_action.Reset, packet_switched_action.Store, packet_switched_action.Load,
      packet_switched_action.Activate, packet_switched_action.Deactivate]"

interpretation packet_switched_action: enum_codec packet_switched_action_code packet_switched_action_variants
  by unfold_locales
    (simp add: packet_switched_action_variants_def, case_tac x, simp_all add: packet_switched_action_variants_def)

datatype packet_switched_network_data_param =
    IPAddress | DNS1 | DNS2 | QoSPrecedence | QoSDelay | QoSReliability | QoSPeakRate
  | QoSMeanRate | PsdProfileStatus | QoS3GDeliveryOrder | QoS3GTransferDelay

primrec packet_switched_network_data_param_code :: "packet_switched_network_data_param \<Rightarrow> nat" where
  "packet_switched_network_data_param_code packet_switched_network_data_param.IPAddress = 0"
| "packet_switched_network_data_param_code packet_switched_network_data_param.DNS1 = 1"
| "packet_switched_network_data_param_code packet_switched_network_data_param.DNS2 = 2"
| "packet_switched_network_data_param_code packet_switched_network_data_param.QoSPrecedence = 3"
| "packet_switched_network_data_param_code packet_switched_network_data_param.QoSDelay = 4"
| "packet_switched_network_data_param_code packet_switched_network_data_param.QoSReliability = 5"
| "packet_switched_network_data_param_code packet_switched_network_data_param.QoSPeakRate = 6"
| "packet_switched_network_data_param_code packet_switched_network_data_param.QoSMeanRate = 7"
| "packet_switched_network_data_param_code packet_switched_network_data_param.PsdProfileStatus = 8"
| "packet_switched_network_data_param_code packet_switched_network_data_param.QoS3GDeliveryOrder = 9"
| "packet_switched_network_data_param_code packet_switched_network_data_param.QoS3GTransferDelay = 24"

definition packet_switched_network_data_param_variants :: "packet_switched_network_data_param list" where
  "packet_switched_network_data_param_variants =
     [packet_switched_network_data_param.IPAddress, packet_switched_network_data_param.DNS1,
      packet_switched_network_data_param.DNS2, packet_switched_network_data_param.QoSPrecedence,
      packet_switched_network_data_param.QoSDelay,
      packet_switched_network_data_param.QoSReliability,
      packet_switched_network_data_param.QoSPeakRate,
      packet_switched_network_data_param.QoSMeanRate,
      packet_switched_network_data_param.PsdProfileStatus,
      packet_switched_network_data_param.QoS3GDeliveryOrder,
      packet_switched_network_data_param.QoS3GTransferDelay]"

interpretation packet_switched_network_data_param: enum_codec packet_switched_network_data_param_code packet_switched_network_data_param_variants
  by unfold_locales
    (simp add: packet_switched_network_data_param_variants_def, case_tac x, simp_all add: packet_switched_network_data_param_variants_def)

datatype gprs_attached_state =
    Detached | Attached

primrec gprs_attached_state_code :: "gprs_attached_state \<Rightarrow> nat" where
  "gprs_attached_state_code gprs_attached_state.Detached = 0"
| "gprs_attached_state_code gprs_attached_state.Attached = 1"

definition gprs_attached_state_variants :: "gprs_attached_state list" where
  "gprs_attached_state_variants =
     [gprs_attached_state.Detached, gprs_attached_state.Attached]"

interpretation gprs_attached_state: enum_codec gprs_attached_state_code gprs_attached_state_variants
  by unfold_locales
    (simp add: gprs_attached_state_variants_def, case_tac x, simp_all add: gprs_attached_state_variants_def)

datatype gprs_network_registration_urc_config =
    UrcDisabled | UrcEnabled | UrcVerbose

primrec gprs_network_registration_urc_config_code :: "gprs_network_registration_urc_config \<Rightarrow> nat" where
  "gprs_network_registration_urc_config_code gprs_network_registration_urc_config.UrcDisabled = 0"
| "gprs_network_registration_urc_config_code gprs_network_registration_urc_config.UrcEnabled = 1"
| "gprs_network_registration_urc_config_code gprs_network_registration_urc_config.UrcVerbose = 2"

definition gprs_network_registration_urc_config_variants :: "gprs_network_registration_urc_config list" where
  "gprs_network_registration_urc_config_variants =
     [gprs_network_registration_urc_config.UrcDisabled,
      gprs_network_registration_urc_config.UrcEnabled,
      gprs_network_registration_urc_config.UrcVerbose]"

interpretation gprs_network_registration_urc_config: enum_codec gprs_network_registration_urc_config_code gprs_network_registration_urc_config_variants
  by unfold_locales
    (simp add: gprs_network_registration_urc_config_variants_def, case_tac x, simp_all add: gprs_network_registration_urc_config_variants_def)

datatype ps_event_reporting_mode =
    CircularBufferUrcs | DiscardUrcs | BufferUrcs

primrec ps_event_reporting_mode_code :: "ps_event_reporting_mode \<Rightarrow> nat" where
  "ps_event_reporting_mode_code ps_event_reporting_mode.CircularBufferUrcs = 0"
| "ps_event_reporting_mode_code ps_event_reporting_mode.DiscardUrcs = 1"
| "ps_event_reporting_mode_code ps_event_reporting_mode.BufferUrcs = 2"

definition ps_event_reporting_mode_variants :: "ps_event_reporting_mode list" where
  "ps_event_reporting_mode_variants =
     [ps_event_reporting_mode.CircularBufferUrcs, ps_event_reporting_mode.DiscardUrcs,
      ps_event_reporting_mode.BufferUrcs]"

interpretation ps_event_reporting_mode: enum_codec ps_event_reporting_mode_code ps_event_reporting_mode_variants
  by unfold_locales
    (simp add: ps_event_reporting_mode_variants_def, case_tac x, simp_all add: ps_event_reporting_mode_variants_def)

datatype gprs_network_registration_stat =
    NotRegistered | Registered | NotRegisteredSearching | RegistrationDenied | Unknown
  | RegisteredRoaming | AttachedEmergencyOnly

primrec gprs_network_registration_stat_code :: "gprs_network_registration_stat \<Rightarrow> nat" where
  "gprs_network_registration_stat_code gprs_network_registration_stat.NotRegistered = 0"
| "gprs_network_registration_stat_code gprs_network_registration_stat.Registered = 1"
| "gprs_network_registration_stat_code gprs_network_registration_stat.NotRegisteredSearching = 2"
| "gprs_network_registration_stat_code gprs_network_registration_stat.RegistrationDenied = 3"
| "gprs_network_registration_stat_code gprs_network_registration_stat.Unknown = 4"
| "gprs_network_registration_stat_code gprs_network_registration_stat.RegisteredRoaming = 5"
| "gprs_network_registration_stat_code gprs_network_registration_stat.AttachedEmergencyOnly = 8"

definition gprs_network_registration_stat_variants :: "gprs_network_registration_stat list" where
  "gprs_network_registration_stat_variants =
     [gprs_network_registration_stat.NotRegistered, gprs_network_registration_stat.Registered,
      gprs_network_registration_stat.NotRegisteredSearching,
      gprs_network_registration_stat.RegistrationDenied, gprs_network_registration_stat.Unknown,
      gprs_network_registration_stat.RegisteredRoaming,
      gprs_network_registration_stat.AttachedEmergencyOnly]"

interpretation gprs_network_registration_stat: enum_codec gprs_network_registration_stat_code gprs_network_registration_stat_variants
  by unfold_locales
    (simp add: gprs_network_registration_stat_variants_def, case_tac x, simp_all add: gprs_network_registration_stat_variants_def)

datatype extended_ps_network_registration_urc_config =
    UrcDisabled | UrcEnabled

primrec extended_ps_network_registration_urc_config_code :: "extended_ps_network_registration_urc_config \<Rightarrow> nat" where
  "extended_ps_network_registration_urc_config_code extended_ps_network_registration_urc_config.UrcDisabled = 0"
| "extended_ps_network_registration_urc_config_code extended_ps_network_registration_urc_config.UrcEnabled = 1"

definition extended_ps_network_registration_urc_config_variants :: "extended_ps_network_registration_urc_config list" where
  "extended_ps_network_registration_urc_config_variants =
     [extended_ps_network_registration_urc_config.UrcDisabled,
      extended_ps_network_registration_urc_config.UrcEnabled]"

interpretation extended_ps_network_registration_urc_config: enum_codec extended_ps_network_registration_urc_config_code extended_ps_network_registration_urc_config_variants
  by unfold_locales
    (simp add: extended_ps_network_registration_urc_config_variants_def, case_tac x, simp_all add: extended_ps_network_registration_urc_config_variants_def)

datatype extended_ps_network_registration_state =
    NotRegistered | Registered2gGprs | Registered2gEdge | Registered3gWcdma
  | Registered3gHsdpa | Registered3gHsupa | Registered3gHspdaHsupa | Registered4g
  | Registered2gGprsDtm | Registered2gEdgeDtm

primrec extended_ps_network_registration_state_code :: "extended_ps_network_registration_state \<Rightarrow> nat" where
  "extended_ps_network_registration_state_code extended_ps_network_registration_state.NotRegistered = 0"
| "extended_ps_network_registration_state_code extended_ps_network_registration_state.Registered2gGprs = 1"
| "extended_ps_network_registration_state_code extended_ps_network_registration_state.Registered2gEdge = 2"
| "extended_ps_network_registration_state_code extended_ps_network_registration_state.Registered3gWcdma = 3"
| "extended_ps_network_registration_state_code extended_ps_network_registration_state.Registered3gHsdpa = 4"
| "extended_ps_network_registration_state_code extended_ps_network_registration_state.Registered3gHsupa = 5"
| "extended_ps_network_registration_state_code extended_ps_network_registration_state.Registered3gHspdaHsupa = 6"
| "extended_ps_network_registration_state_code extended_ps_network_registration_state.Registered4g = 7"
| "extended_ps_network_registration_state_code extended_ps_network_registration_state.Registered2gGprsDtm = 8"
| "extended_ps_network_registration_state_code extended_ps_network_registration_state.Registered2gEdgeDtm = 9"

definition extended_ps_network_registration_state_variants :: "extended_ps_network_registration_state list" where
  "extended_ps_network_registration_state_variants =
     [extended_ps_network_registration_state.NotRegistered,
      extended_ps_network_registration_state.Registered2gGprs,
      extended_ps_network_registration_state.Registered2gEdge,
      extended_ps_network_registration_state.Registered3gWcdma,
      extended_ps_network_registration_state.Registered3gHsdpa,
      extended_ps_network_registration_state.Registered3gHsupa,
      extended_ps_network_registration_state.Registered3gHspdaHsupa,
      extended_ps_network_registration_state.Registered4g,
      extended_ps_network_registration_state.Registered2gGprsDtm,
      extended_ps_network_registration_state.Registered2gEdgeDtm]"

interpretation extended_ps_network_registration_state: enum_codec extended_ps_network_registration_state_code extended_ps_network_registration_state_variants
  by unfold_locales
    (simp add: extended_ps_network_registration_state_variants_def, case_tac x, simp_all add: extended_ps_network_registration_state_variants_def)

datatype eps_network_registration_urc_config =
    UrcDisabled | UrcEnabled | UrcVerbose

primrec eps_network_registration_urc_config_code :: "eps_network_registration_urc_config \<Rightarrow> nat" where
  "eps_network_registration_urc_config_code eps_network_registration_urc_config.UrcDisabled = 0"
| "eps_network_registration_urc_config_code eps_network_registration_urc_config.UrcEnabled = 1"
| "eps_network_registration_urc_config_code eps_network_registration_urc_config.UrcVerbose = 2"

definition eps_network_registration_urc_config_variants :: "eps_network_registration_urc_config list" where
  "eps_network_registration_urc_config_variants =
     [eps_network_registration_urc_config.UrcDisabled,
      eps_network_registration_urc_config.UrcEnabled,
      eps_network_registration_urc_config.UrcVerbose]"

interpretation eps_network_registration_urc_config: enum_codec eps_network_registration_urc_config_code eps_network_registration_urc_config_variants
  by unfold_locales
    (simp add: eps_network_registration_urc_config_variants_def, case_tac x, simp_all add: eps_network_registration_urc_config_variants_def)

datatype eps_network_registration_stat =
    NotRegistered | Registered | NotRegisteredSearching | RegistrationDenied | Unknown
  | RegisteredRoaming | AttachedEmergencyOnly

primrec eps_network_registration_stat_code :: "eps_network_registration_stat \<Rightarrow> nat" where
  "eps_network_registration_stat_code eps_network_registration_stat.NotRegistered = 0"
| "eps_network_registration_stat_code eps_network_registration_stat.Registered = 1"
| "eps_network_registration_stat_code eps_network_registration_stat.NotRegisteredSearching = 2"
| "eps_network_registration_stat_code eps_network_registration_stat.RegistrationDenied = 3"
| "eps_network_registration_stat_code eps_network_registration_stat.Unknown = 4"
| "eps_network_registration_stat_code eps_network_registration_stat.RegisteredRoaming = 5"
| "eps_network_registration_stat_code eps_network_registration_stat.AttachedEmergencyOnly = 8"

definition eps_network_registration_stat_variants :: "eps_network_registration_stat list" where
  "eps_network_registration_stat_variants =
     [eps_network_registration_stat.NotRegistered, eps_network_registration_stat.Registered,
      eps_network_registration_stat.NotRegisteredSearching,
      eps_network_registration_stat.RegistrationDenied, eps_network_registration_stat.Unknown,
      eps_network_registration_stat.RegisteredRoaming,
      eps_network_registration_stat.AttachedEmergencyOnly]"

interpretation eps_network_registration_stat: enum_codec eps_network_registration_stat_code eps_network_registration_stat_variants
  by unfold_locales
    (simp add: eps_network_registration_stat_variants_def, case_tac x, simp_all add: eps_network_registration_stat_variants_def)

datatype packet_switched_param =
    ProtocolType protocol_type | APN string | Username string | Password string
  | DNS1 ip_addr | DNS2 ip_addr | Authentication authentication_type | IPAddress ip_addr
  | DataCompression data_compression | HeaderCompression header_compression
  | QoSPrecedence qos_precedence | QoSDelay qos_delay | QoSReliability qos_reliability
  | UNUSED | MapProfile context_id

primrec param_tag :: "packet_switched_param \<Rightarrow> nat" where
  "param_tag (packet_switched_param.ProtocolType _) = 0"
| "param_tag (packet_switched_param.APN _) = 1"
| "param_tag (packet_switched_param.Username _) = 2"
| "param_tag (packet_switched_param.Password _) = 3"
| "param_tag (packet_switched_param.DNS1 _) = 4"
| "param_tag (packet_switched_param.DNS2 _) = 5"
| "param_tag (packet_switched_param.Authentication _) = 6"
| "param_tag (packet_switched_param.IPAddress _) = 7"
| "param_tag (packet_switched_param.DataCompression _) = 8"
| "param_tag (packet_switched_param.HeaderCompression _) = 9"
| "param_tag (packet_switched_param.QoSPrecedence _) = 10"
| "param_tag (packet_switched_param.QoSDelay _) = 11"
| "param_tag (packet_switched_param.QoSReliability _) = 12"
| "param_tag packet_switched_param.UNUSED = 255"
| "param_tag (packet_switched_param.MapProfile _) = 100"

text \<open>The capacities of the \<open>String<N>\<close> fields of a parameter.\<close>

primrec param_fits :: "packet_switched_param \<Rightarrow> bool" where
  "param_fits (packet_switched_param.ProtocolType _) \<longleftrightarrow> True"
| "param_fits (packet_switched_param.APN s) \<longleftrightarrow> length s \<le> 99"
| "param_fits (packet_switched_param.Username s) \<longleftrightarrow> length s \<le> 64"
| "param_fits (packet_switched_param.Password s) \<longleftrightarrow> length s \<le> 64"
| "param_fits (packet_switched_param.DNS1 _) \<longleftrightarrow> True"
| "param_fits (packet_switched_param.DNS2 _) \<longleftrightarrow> True"
| "param_fits (packet_switched_param.Authentication _) \<longleftrightarrow> True"
| "param_fits (packet_switched_param.IPAddress _) \<longleftrightarrow> True"
| "param_fits (packet_switched_param.DataCompression _) \<longleftrightarrow> True"
| "param_fits (packet_switched_param.HeaderCompression _) \<longleftrightarrow> True"
| "param_fits (packet_switched_param.QoSPrecedence _) \<longleftrightarrow> True"
| "param_fits (packet_switched_param.QoSDelay _) \<longleftrightarrow> True"
| "param_fits (packet_switched_param.QoSReliability _) \<longleftrightarrow> True"
| "param_fits packet_switched_param.UNUSED \<longleftrightarrow> True"
| "param_fits (packet_switched_param.MapProfile _) \<longleftrightarrow> True"

end
