(* ===== verification/Socket_Types.thy ===== *)
theory Socket_Types
  imports Codec
begin

text \<open>
  The enums of \<open>command/\<close>\<open>{ip_transport_layer,dns,device_data_security}\<close>\<open>/types.rs\<close>: sockets,
  name resolution and security profiles.
\<close>

section \<open>IP transport layer\<close>

datatype socket_protocol =
    TCP | UDP

primrec socket_protocol_code :: "socket_protocol \<Rightarrow> nat" where
  "socket_protocol_code socket_protocol.TCP = 6"
| "socket_protocol_code socket_protocol.UDP = 17"

definition socket_protocol_variants :: "socket_protocol list" where
  "socket_protocol_variants =
     [socket_protocol.TCP, socket_protocol.UDP]"

interpretation socket_protocol: enum_codec socket_protocol_code socket_protocol_variants
  by unfold_locales
    (simp add: socket_protocol_variants_def, case_tac x, simp_all add: socket_protocol_variants_def)

datatype hex_mode =
    Disabled | Enabled

primrec hex_mode_code :: "hex_mode \<Rightarrow> nat" where
  "hex_mode_code hex_mode.Disabled = 0"
| "hex_mode_code hex_mode.Enabled = 1"

definition hex_mode_variants :: "hex_mode list" where
  "hex_mode_variants =
     [hex_mode.Disabled, hex_mode.Enabled]"

interpretation hex_mode: enum_codec hex_mode_code hex_mode_variants
  by unfold_locales
    (simp add: hex_mode_variants_def, case_tac x, simp_all add: hex_mode_variants_def)

datatype socket_control_param =
    SocketType | LastSocketError | BytesSent | BytesReceived | RemotePeerSocketAddr
  | SocketStatus | OutgoingUnackData

primrec socket_control_param_code :: "socket_control_param \<Rightarrow> nat" where
  "socket_control_param_code socket_control_param.SocketType = 0"
| "socket_control_param_code socket_control_param.LastSocketError = 1"
| "socket_control_param_code socket_control_param.BytesSent = 2"
| "socket_control_param_code socket_control_param.BytesReceived = 3"
| "socket_control_param_code socket_control_param.RemotePeerSocketAddr = 4"
| "socket_control_param_code socket_control_param.SocketStatus = 10"
| "socket_control_param_code socket_control_param.OutgoingUnackData = 11"

definition socket_control_param_variants :: "socket_control_param list" where
  "socket_control_param_variants =
     [socket_control_param.SocketType, socket_control_param.LastSocketError,
      socket_control_param.BytesSent, socket_control_param.BytesReceived,
      socket_control_param.RemotePeerSocketAddr, socket_control_param.SocketStatus,
      socket_control_param.OutgoingUnackData]"

interpretation socket_control_param: enum_codec socket_control_param_code socket_control_param_variants
  by unfold_locales
    (simp add: socket_control_param_variants_def, case_tac x, simp_all add: socket_control_param_variants_def)

datatype ssl_tls_status =
    Disabled | Enabled security_profile_id

primrec ssl_tls_status_tag :: "ssl_tls_status \<Rightarrow> nat" where
  "ssl_tls_status_tag ssl_tls_status.Disabled = 0"
| "ssl_tls_status_tag (ssl_tls_status.Enabled _) = 1"

section \<open>DNS\<close>

datatype resolution_type =
    DomainNameToIp | IpToDomainName

primrec resolution_type_code :: "resolution_type \<Rightarrow> nat" where
  "resolution_type_code resolution_type.DomainNameToIp = 0"
| "resolution_type_code resolution_type.IpToDomainName = 1"

definition resolution_type_variants :: "resolution_type list" where
  "resolution_type_variants =
     [resolution_type.DomainNameToIp, resolution_type.IpToDomainName]"

interpretation resolution_type: enum_codec resolution_type_code resolution_type_variants
  by unfold_locales
    (simp add: resolution_type_variants_def, case_tac x, simp_all add: resolution_type_variants_def)

section \<open>Device and data security\<close>

datatype security_operation =
    ImportStream | ImportFS | Remove | List_Data | RetrieveMD5

primrec security_operation_code :: "security_operation \<Rightarrow> nat" where
  "security_operation_code security_operation.ImportStream = 0"
| "security_operation_code security_operation.ImportFS = 1"
| "security_operation_code security_operation.Remove = 2"
| "security_operation_code security_operation.List_Data = 3"
| "security_operation_code security_operation.RetrieveMD5 = 4"

definition security_operation_variants :: "security_operation list" where
  "security_operation_variants =
     [security_operation.ImportStream, security_operation.ImportFS, security_operation.Remove,
      security_operation.List_Data, security_operation.RetrieveMD5]"

interpretation security_operation: enum_codec security_operation_code security_operation_variants
  by unfold_locales
    (simp add: security_operation_variants_def, case_tac x, simp_all add: security_operation_variants_def)

datatype security_data_type =
    TrustedRootCA | ClientCertificate | ClientPrivateKey | RFU
  | SignatureVerificationCertificate | SignatureVerificationPublicKey

primrec security_data_type_code :: "security_data_type \<Rightarrow> nat" where
  "security_data_type_code security_data_type.TrustedRootCA = 0"
| "security_data_type_code security_data_type.ClientCertificate = 1"
| "security_data_type_code security_data_type.ClientPrivateKey = 2"
| "security_data_type_code security_data_type.RFU = 3"
| "security_data_type_code security_data_type.SignatureVerificationCertificate = 4"
| "security_data_type_code security_data_type.SignatureVerificationPublicKey = 5"

definition security_data_type_variants :: "security_data_type list" where
  "security_data_type_variants =
     [security_data_type.TrustedRootCA, security_data_type.ClientCertificate,
      security_data_type.ClientPrivateKey, security_data_type.RFU,
      security_data_type.SignatureVerificationCertificate,
      security_data_type.SignatureVerificationPublicKey]"

interpretation security_data_type: enum_codec security_data_type_code security_data_type_variants
  by unfold_locales
    (simp add: security_data_type_variants_def, case_tac x, simp_all add: security_data_type_variants_def)

datatype pinning_level =
    Level0 | Level1 | Level2

primrec pinning_level_code :: "pinning_level \<Rightarrow> nat" where
  "pinning_level_code pinning_level.Level0 = 0"
| "pinning_level_code pinning_level.Level1 = 1"
| "pinning_level_code pinning_level.Level2 = 2"

definition pinning_level_variants :: "pinning_level list" where
  "pinning_level_variants =
     [pinning_level.Level0, pinning_level.Level1, pinning_level.Level2]"

interpretation pinning_level: enum_codec pinning_level_code pinning_level_variants
  by unfold_locales
    (simp add: pinning_level_variants_def, case_tac x, simp_all add: pinning_level_variants_def)

datatype certificate_validation_level =
    NoValidation | RootCertValidationWithoutIntegrity | RootCertValidationWithIntegrity
  | RootCertValidationWithValidityDate

primrec certificate_validation_level_code :: "certificate_validation_level \<Rightarrow> nat" where
  "certificate_validation_level_code certificate_validation_level.NoValidation = 0"
| "certificate_validation_level_code certificate_validation_level.RootCertValidationWithoutIntegrity = 1"
| "certificate_validation_level_code certificate_validation_level.RootCertValidationWithIntegrity = 2"
| "certificate_validation_level_code certificate_validation_level.RootCertValidationWithValidityDate = 3"

definition certificate_validation_level_variants :: "certificate_validation_level list" where
  "certificate_validation_level_variants =
     [certificate_validation_level.NoValidation,
      certificate_validation_level.RootCertValidationWithoutIntegrity,
      certificate_validation_level.RootCertValidationWithIntegrity,
      certificate_validation_level.RootCertValidationWithValidityDate]"

interpretation certificate_validation_level: enum_codec certificate_validation_level_code certificate_validation_level_variants
  by unfold_locales
    (simp add: certificate_validation_level_variants_def, case_tac x, simp_all add: certificate_validation_level_variants_def)

datatype security_profile_operation =
    CertificateValidationLevel certificate_validation_level | SslTslVersion | CipherSuite u8
  | TrustedRootCertificateInternalName string | ExpectedServerHostname string
  | ClientCertificateInternalName string | ClientPrivateKeyInternalName string
  | ClientPrivateKeyPassword string | PresharedKey | PresharedKeyIdentity
  | ServerNameIndication string | PskKey bool
  | ServerCertificatePinning string pinning_level | TlsSessionResumption

primrec security_profile_operation_tag :: "security_profile_operation \<Rightarrow> nat" where
  "security_profile_operation_tag (security_profile_operation.CertificateValidationLevel _) = 0"
| "security_profile_operation_tag security_profile_operation.SslTslVersion = 1"
| "security_profile_operation_tag (security_profile_operation.CipherSuite _) = 2"
| "security_profile_operation_tag (security_profile_operation.TrustedRootCertificateInternalName _) = 3"
| "security_profile_operation_tag (security_profile_operation.ExpectedServerHostname _) = 4"
| "security_profile_operation_tag (security_profile_operation.ClientCertificateInternalName _) = 5"
| "security_profile_operation_tag (security_profile_operation.ClientPrivateKeyInternalName _) = 6"
| "security_profile_operation_tag (security_profile_operation.ClientPrivateKeyPassword _) = 7"
| "security_profile_operation_tag security_profile_operation.PresharedKey = 8"
| "security_profile_operation_tag security_profile_operation.PresharedKeyIdentity = 9"
| "security_profile_operation_tag (security_profile_operation.ServerNameIndication _) = 10"
| "security_profile_operation_tag (security_profile_operation.PskKey _) = 11"
| "security_profile_operation_tag (security_profile_operation.ServerCertificatePinning _ _) = 12"
| "security_profile_operation_tag security_profile_operation.TlsSessionResumption = 13"

end
