(* ===== verification/Commands.thy ===== *)
theory Commands
  imports Control_Types Network_Types Socket_Types
begin

text \<open>
  The AT commands of \<open>command/*/mod.rs\<close>: one datatype per module, a constructor per command
  struct with its arguments, and the attributes its \<open>at_cmd\<close> declares. \<open>at_req\<close> is the sum
  of the modules. \<open>at_cmd\<close> is what the code uses of the \<open>AtatCmd\<close> trait: the request and how
  the response text is read into the command's \<open>Response\<close>. How a request is written and
  which retries the client makes is \<open>atat\<close>'s business; the crate relies on \<open>ATTEMPTS\<close> only.
\<close>

section \<open>Attributes\<close>

text \<open>The arguments of \<open>#[at_cmd(name, Response, ...)]\<close>; \<open>None\<close> where the attribute is absent
  and \<open>atat\<close>'s default applies. \<open>at_raw\<close> stands for \<open>cmd_prefix = "", termination = "",
  force_receive_state = true\<close>, the commands that carry a binary payload.\<close>

record at_attrs =
  at_name :: string
  at_attempts :: "u8 option"
  at_timeout_ms :: "nat option"
  at_abortable :: bool
  at_value_sep :: bool
  at_raw :: bool

definition default_attrs :: "string \<Rightarrow> at_attrs" where
  "default_attrs n =
     \<lparr>at_name = n, at_attempts = None, at_timeout_ms = None, at_abortable = False,
      at_value_sep = True, at_raw = False\<rparr>"

definition single_attempt :: "string \<Rightarrow> nat \<Rightarrow> bool \<Rightarrow> at_attrs" where
  "single_attempt n ms abort =
     (default_attrs n)\<lparr>at_attempts := Some 1, at_timeout_ms := Some ms, at_abortable := abort\<rparr>"

definition no_value_sep :: "string \<Rightarrow> at_attrs" where
  "no_value_sep n = (default_attrs n)\<lparr>at_value_sep := False\<rparr>"

definition raw_payload :: "nat option \<Rightarrow> at_attrs" where
  "raw_payload ms = (no_value_sep [])\<lparr>at_timeout_ms := ms, at_raw := True\<rparr>"

section \<open>The commands, by module\<close>

datatype general_cmd =
    GetManufacturerId | GetModelId | GetFirmwareVersion | GetIMEI "snt option"
  | IdentificationInformation u8 | GetCIMI | GetCCID

primrec general_attrs :: "general_cmd \<Rightarrow> at_attrs" where
  "general_attrs GetManufacturerId = default_attrs ''+CGMI''"
| "general_attrs GetModelId = default_attrs ''+CGMM''"
| "general_attrs GetFirmwareVersion = default_attrs ''+CGMR''"
| "general_attrs (GetIMEI _) = default_attrs ''+CGSN''"
| "general_attrs (IdentificationInformation _) = no_value_sep ''I''"
| "general_attrs GetCIMI = default_attrs ''+CIMI''"
| "general_attrs GetCCID = default_attrs ''+CCID''"

datatype mobile_control_cmd =
    ModuleSwitchOff | SetModuleFunctionality functionality "reset_mode option"
  | GetModuleFunctionality | GetIndicatorControl | SetClock string | GetClock
  | SetAutomaticTimezoneUpdate automatic_timezone
  | SetReportMobileTerminationError termination_error_mode | GetReportMobileTerminationError
  | GetExtendedErrorReport

primrec mobile_control_attrs :: "mobile_control_cmd \<Rightarrow> at_attrs" where
  "mobile_control_attrs ModuleSwitchOff = single_attempt ''+CPWROFF'' 40000 False"
| "mobile_control_attrs (SetModuleFunctionality _ _) = single_attempt ''+CFUN'' 180000 False"
| "mobile_control_attrs GetModuleFunctionality = single_attempt ''+CFUN?'' 8000 False"
| "mobile_control_attrs GetIndicatorControl = default_attrs ''+CIND?''"
| "mobile_control_attrs (SetClock _) = default_attrs ''+CCLK''"
| "mobile_control_attrs GetClock = default_attrs ''+CCLK?''"
| "mobile_control_attrs (SetAutomaticTimezoneUpdate _) = default_attrs ''+CTZU''"
| "mobile_control_attrs (SetReportMobileTerminationError _) = default_attrs ''+CMEE''"
| "mobile_control_attrs GetReportMobileTerminationError = default_attrs ''+CMEE?''"
| "mobile_control_attrs GetExtendedErrorReport = default_attrs ''+CEER''"

datatype control_cmd =
    SetCircuit109Behaviour circuit109_behaviour | SetCircuit108Behaviour circuit108_behaviour
  | SetFlowControl flow_control | SetSoftwareFlowControl software_flow_control
  | SetDataRate baud_rate | FactoryResetConfig

primrec control_attrs :: "control_cmd \<Rightarrow> at_attrs" where
  "control_attrs (SetCircuit109Behaviour _) = no_value_sep ''&C''"
| "control_attrs (SetCircuit108Behaviour _) = no_value_sep ''&D''"
| "control_attrs (SetFlowControl _) = no_value_sep ''&K''"
| "control_attrs (SetSoftwareFlowControl _) = no_value_sep (CHR 0x5C # ''Q'')"
| "control_attrs (SetDataRate _) = default_attrs ''+IPR''"
| "control_attrs FactoryResetConfig = default_attrs ''&F''"

datatype gpio_cmd = SetGpioConfiguration u8 gpio_mode | GetGpioConfiguration

primrec gpio_attrs :: "gpio_cmd \<Rightarrow> at_attrs" where
  "gpio_attrs (SetGpioConfiguration _ _) = default_attrs ''+UGPIOC''"
| "gpio_attrs GetGpioConfiguration = default_attrs ''+UGPIOC?''"

datatype device_lock_cmd = GetPinStatus | SetPin string | ChangePin string string

primrec device_lock_attrs :: "device_lock_cmd \<Rightarrow> at_attrs" where
  "device_lock_attrs GetPinStatus = default_attrs ''+CPIN?''"
| "device_lock_attrs (SetPin _) = default_attrs ''+CPIN''"
| "device_lock_attrs (ChangePin _ _) = default_attrs ''+CPIN''"

text \<open>\<open>SetRadioAccessTechnology\<close> has the second shape under \<open>lara-r6\<close>.\<close>

datatype network_service_cmd =
    GetSignalQuality | SetOperatorSelection operator_selection_mode "u8 option"
  | GetOperatorSelection | SetRadioAccessTechnology radio_access_technology_selected
  | SetRadioAccessTechnology_lara_r6 first_radio_access_technology
      "second_radio_access_technology option" "third_radio_access_technology option"
  | GetRadioAccessTechnology | SetNetworkRegistrationStatus network_registration_urc_config
  | GetNetworkRegistrationStatus

primrec network_service_attrs :: "network_service_cmd \<Rightarrow> at_attrs" where
  "network_service_attrs GetSignalQuality = default_attrs ''+CESQ''"
| "network_service_attrs (SetOperatorSelection _ _) = single_attempt ''+COPS'' 180000 False"
| "network_service_attrs GetOperatorSelection = single_attempt ''+COPS?'' 180000 False"
| "network_service_attrs (SetRadioAccessTechnology _) = default_attrs ''+URAT''"
| "network_service_attrs (SetRadioAccessTechnology_lara_r6 _ _ _) = default_attrs ''+URAT''"
| "network_service_attrs GetRadioAccessTechnology = default_attrs ''+URAT?''"
| "network_service_attrs (SetNetworkRegistrationStatus _) = default_attrs ''+CREG''"
| "network_service_attrs GetNetworkRegistrationStatus = default_attrs ''+CREG?''"

text \<open>\<open>command/psn/mod.rs\<close> in two groups: contexts and profiles, and registration.\<close>

datatype psn_context_cmd =
    SetPDPContextDefinition context_id string string
  | SetPacketSwitchedConfig profile_id packet_switched_param
  | GetPacketSwitchedConfig profile_id packet_switched_param_req
  | SetPacketSwitchedAction profile_id packet_switched_action
  | GetPacketSwitchedNetworkData profile_id packet_switched_network_data_param
  | SetGPRSAttached gprs_attached_state | GetGPRSAttached
  | SetPDPContextState pdp_context_status "context_id option" | GetPDPContextState

primrec psn_context_attrs :: "psn_context_cmd \<Rightarrow> at_attrs" where
  "psn_context_attrs (SetPDPContextDefinition _ _ _) = default_attrs ''+CGDCONT''"
| "psn_context_attrs (SetPacketSwitchedConfig _ _) = default_attrs ''+UPSD''"
| "psn_context_attrs (GetPacketSwitchedConfig _ _) = default_attrs ''+UPSD''"
| "psn_context_attrs (SetPacketSwitchedAction _ _) = single_attempt ''+UPSDA'' 180000 True"
| "psn_context_attrs (GetPacketSwitchedNetworkData _ _) = default_attrs ''+UPSND''"
| "psn_context_attrs (SetGPRSAttached _) = single_attempt ''+CGATT'' 180000 True"
| "psn_context_attrs GetGPRSAttached = single_attempt ''+CGATT?'' 10000 True"
| "psn_context_attrs (SetPDPContextState _ _) = single_attempt ''+CGACT'' 150000 True"
| "psn_context_attrs GetPDPContextState = single_attempt ''+CGACT?'' 150000 True"

datatype psn_registration_cmd =
    SetPacketSwitchedEventReporting ps_event_reporting_mode "u8 option"
  | SetGPRSNetworkRegistrationStatus gprs_network_registration_urc_config
  | GetGPRSNetworkRegistrationStatus
  | SetExtendedPSNetworkRegistrationStatus extended_ps_network_registration_urc_config
  | GetExtendedPSNetworkRegistrationStatus
  | SetEPSNetworkRegistrationStatus eps_network_registration_urc_config
  | GetEPSNetworkRegistrationStatus
  | SetAuthParameters context_id authentication_type string string

primrec psn_registration_attrs :: "psn_registration_cmd \<Rightarrow> at_attrs" where
  "psn_registration_attrs (SetPacketSwitchedEventReporting _ _) = default_attrs ''+CGEREP''"
| "psn_registration_attrs (SetGPRSNetworkRegistrationStatus _) = default_attrs ''+CGREG''"
| "psn_registration_attrs GetGPRSNetworkRegistrationStatus = default_attrs ''+CGREG?''"
| "psn_registration_attrs (SetExtendedPSNetworkRegistrationStatus _) = default_attrs ''+UREG''"
| "psn_registration_attrs GetExtendedPSNetworkRegistrationStatus = default_attrs ''+UREG?''"
| "psn_registration_attrs (SetEPSNetworkRegistrationStatus _) = default_attrs ''+CEREG''"
| "psn_registration_attrs GetEPSNetworkRegistrationStatus = default_attrs ''+CEREG?''"
| "psn_registration_attrs (SetAuthParameters _ _ _ _) = default_attrs ''+UAUTHREQ''"

datatype sms_cmd = SetMessageWaitingIndication message_waiting_mode

primrec sms_attrs :: "sms_cmd \<Rightarrow> at_attrs" where
  "sms_attrs (SetMessageWaitingIndication _) = default_attrs ''+UMWI''"

datatype system_features_cmd =
    SetPowerSavingControl power_saving_mode "seconds option" | GetPowerSavingControl
  | SetFactoryConfiguration fs_factory_restore_type nvm_factory_restore_type
  | GetFactoryConfiguration

primrec system_features_attrs :: "system_features_cmd \<Rightarrow> at_attrs" where
  "system_features_attrs (SetPowerSavingControl _ _) = default_attrs ''+UPSV''"
| "system_features_attrs GetPowerSavingControl = default_attrs ''+UPSV?''"
| "system_features_attrs (SetFactoryConfiguration _ _) = default_attrs ''+UFACTORY''"
| "system_features_attrs GetFactoryConfiguration = default_attrs ''+UFACTORY?''"

text \<open>\<open>command/ip_transport_layer/mod.rs\<close>: managing sockets, and moving data.\<close>

datatype socket_cmd =
    CreateSocket socket_protocol "16 word option" | SetSocketSslState socket_handle ssl_tls_status
  | CloseSocket socket_handle | GetSocketError | ConnectSocket socket_handle ip_addr "16 word"
  | SetHexMode hex_mode | SocketControl socket_handle socket_control_param

primrec socket_attrs :: "socket_cmd \<Rightarrow> at_attrs" where
  "socket_attrs (CreateSocket _ _) = default_attrs ''+USOCR''"
| "socket_attrs (SetSocketSslState _ _) = default_attrs ''+USOSEC''"
| "socket_attrs (CloseSocket _) = single_attempt ''+USOCL'' 120000 False"
| "socket_attrs GetSocketError = default_attrs ''+USOER''"
| "socket_attrs (ConnectSocket _ _ _) = single_attempt ''+USOCO'' 120000 False"
| "socket_attrs (SetHexMode _) = no_value_sep ''+UDCONF=1,''"
| "socket_attrs (SocketControl _ _) = default_attrs ''+USOCTL''"

datatype socket_data_cmd =
    WriteSocketData socket_handle nat string | WriteSocketDataHex socket_handle nat bytes
  | PrepareWriteSocketDataBinary socket_handle nat | WriteSocketDataBinary bytes
  | PrepareUDPSendToDataBinary socket_handle ip_addr "16 word" nat | UDPSendToDataBinary bytes
  | ReadSocketData socket_handle nat | ReadUDPSocketData socket_handle nat

primrec socket_data_attrs :: "socket_data_cmd \<Rightarrow> at_attrs" where
  "socket_data_attrs (WriteSocketData _ _ _) = default_attrs ''+USOWR''"
| "socket_data_attrs (WriteSocketDataHex _ _ _) = default_attrs ''+USOWR''"
| "socket_data_attrs (PrepareWriteSocketDataBinary _ _) = default_attrs ''+USOWR''"
| "socket_data_attrs (WriteSocketDataBinary _) = raw_payload None"
| "socket_data_attrs (PrepareUDPSendToDataBinary _ _ _ _) = default_attrs ''+USOST''"
| "socket_data_attrs (UDPSendToDataBinary _) = raw_payload None"
| "socket_data_attrs (ReadSocketData _ _) = default_attrs ''+USORD''"
| "socket_data_attrs (ReadUDPSocketData _ _) = default_attrs ''+USORF''"

datatype dns_cmd = ResolveNameIp resolution_type string

primrec dns_attrs :: "dns_cmd \<Rightarrow> at_attrs" where
  "dns_attrs (ResolveNameIp _ _) = single_attempt ''+UDNSRN'' 120000 False"

datatype security_cmd =
    PrepareSecurityDataImport security_data_type string nat "string option"
  | SendSecurityDataImport bytes | DeleteSecurityData security_data_type string
  | ListSecurityData | RetrieveSecurityMd5 security_data_type string
  | SecurityProfileManager security_profile_id "security_profile_operation option"

primrec security_attrs :: "security_cmd \<Rightarrow> at_attrs" where
  "security_attrs (PrepareSecurityDataImport _ _ _ _) = no_value_sep ''+USECMNG=0,''"
| "security_attrs (SendSecurityDataImport _) = raw_payload (Some 3000)"
| "security_attrs (DeleteSecurityData _ _) = no_value_sep ''+USECMNG=2,''"
| "security_attrs ListSecurityData = no_value_sep ''+USECMNG=3''"
| "security_attrs (RetrieveSecurityMd5 _ _) = no_value_sep ''+USECMNG=4,''"
| "security_attrs (SecurityProfileManager _ _) = default_attrs ''+USECPRF''"

datatype file_system_cmd =
    PrepareDownloadFile string nat | DownloadFile bytes | ListFiles | ReadFile string
  | ReadBlock string nat nat | DeleteFile string

primrec file_system_attrs :: "file_system_cmd \<Rightarrow> at_attrs" where
  "file_system_attrs (PrepareDownloadFile _ _) = default_attrs ''+UDWNFILE''"
| "file_system_attrs (DownloadFile _) = raw_payload None"
| "file_system_attrs ListFiles = no_value_sep ''+ULSTFILE=0''"
| "file_system_attrs (ReadFile _) = default_attrs ''+URDFILE''"
| "file_system_attrs (ReadBlock _ _ _) = default_attrs ''+URDBLOCK''"
| "file_system_attrs (DeleteFile _) = default_attrs ''+UDELFILE''"

datatype at_req =
    AT | General general_cmd | Mobile_Control mobile_control_cmd | Control control_cmd
  | Gpio gpio_cmd | Device_Lock device_lock_cmd | Network_Service network_service_cmd
  | Psn_Context psn_context_cmd | Psn_Registration psn_registration_cmd | Sms sms_cmd
  | System_Features system_features_cmd | Socket socket_cmd | Socket_Data socket_data_cmd
  | Dns dns_cmd | Security security_cmd | File_System file_system_cmd

primrec req_attrs :: "at_req \<Rightarrow> at_attrs" where
  "req_attrs AT = default_attrs []"
| "req_attrs (General c) = general_attrs c"
| "req_attrs (Mobile_Control c) = mobile_control_attrs c"
| "req_attrs (Control c) = control_attrs c"
| "req_attrs (Gpio c) = gpio_attrs c"
| "req_attrs (Device_Lock c) = device_lock_attrs c"
| "req_attrs (Network_Service c) = network_service_attrs c"
| "req_attrs (Psn_Context c) = psn_context_attrs c"
| "req_attrs (Psn_Registration c) = psn_registration_attrs c"
| "req_attrs (Sms c) = sms_attrs c"
| "req_attrs (System_Features c) = system_features_attrs c"
| "req_attrs (Socket c) = socket_attrs c"
| "req_attrs (Socket_Data c) = socket_data_attrs c"
| "req_attrs (Dns c) = dns_attrs c"
| "req_attrs (Security c) = security_attrs c"
| "req_attrs (File_System c) = file_system_attrs c"

end
