(* ===== verification/Responses.thy ===== *)
theory Responses
  imports Commands
begin

text \<open>
  The responses of \<open>command/*/responses.rs\<close>, the URCs of \<open>command/mod.rs\<close>, and the typed
  command \<open>at_cmd\<close>. \<open>at_resp\<close> is a response text by the struct whose fields it spells;
  \<open>resp_fits\<close> gives the capacities of the \<open>heapless\<close> fields, which bound what a text can be
  read into. A command reads the response of its own type and rejects every other text.
\<close>

section \<open>Responses, by module\<close>

datatype general_resp =
    R_ManufacturerId bytes | R_ModelId bytes | R_FirmwareVersion bytes | R_IMEI "64 word"
  | R_IdentificationInformation bytes | R_CIMI "64 word" | R_CCID "128 word"

primrec general_fits :: "general_resp \<Rightarrow> bool" where
  "general_fits (R_ManufacturerId b) \<longleftrightarrow> length b \<le> 10"
| "general_fits (R_ModelId b) \<longleftrightarrow> length b \<le> 16"
| "general_fits (R_FirmwareVersion b) \<longleftrightarrow> length b \<le> 10"
| "general_fits (R_IMEI _) \<longleftrightarrow> True"
| "general_fits (R_IdentificationInformation b) \<longleftrightarrow> length b \<le> 32"
| "general_fits (R_CIMI _) \<longleftrightarrow> True"
| "general_fits (R_CCID _) \<longleftrightarrow> True"

record indicator_control =
  ic_battchg :: u8
  ic_signal :: u8
  ic_service :: "16 word"
  ic_sounder :: u8
  ic_message :: u8
  ic_call :: u8
  ic_roam :: "16 word"
  ic_smsfull :: u8
  ic_gprs :: "16 word"
  ic_callsetup :: u8
  ic_callheld :: u8
  ic_simind :: u8

datatype mobile_control_resp =
    R_ModuleFunctionality power_mode "stk_mode option" | R_IndicatorControl indicator_control
  | R_DateTime string
  | R_ReportMobileTerminationError report_mobile_termination_error_status
  | R_ExtendedErrorReport string "32 word" string

primrec mobile_control_fits :: "mobile_control_resp \<Rightarrow> bool" where
  "mobile_control_fits (R_ModuleFunctionality _ _) \<longleftrightarrow> True"
| "mobile_control_fits (R_IndicatorControl _) \<longleftrightarrow> True"
| "mobile_control_fits (R_DateTime s) \<longleftrightarrow> length s \<le> 20"
| "mobile_control_fits (R_ReportMobileTerminationError _) \<longleftrightarrow> True"
| "mobile_control_fits (R_ExtendedErrorReport t _ d) \<longleftrightarrow> length t \<le> 32 \<and> length d \<le> 64"

record signal_quality =
  sq_rxlev :: u8
  sq_ber :: u8
  sq_rscp :: u8
  sq_ecn0 :: u8
  sq_rsrq :: u8
  sq_rsrp :: u8

record operator_selection =
  os_mode :: operator_selection_mode
  os_oper :: "operator_name_format option"
  os_act :: "rat_act option"

record network_registration_status =
  nrs_n :: network_registration_urc_config
  nrs_stat :: network_registration_stat
  nrs_lac :: "string option"
  nrs_ci :: "string option"
  nrs_act_status :: "u8 option"

datatype network_service_resp =
    R_SignalQuality signal_quality | R_OperatorSelection operator_selection
  | R_RadioAccessTechnology radio_access_technology_selected
  | R_NetworkRegistrationStatus network_registration_status

definition opt_fits :: "nat \<Rightarrow> 'a list option \<Rightarrow> bool" where
  "opt_fits n x \<longleftrightarrow> (case x of None \<Rightarrow> True | Some s \<Rightarrow> length s \<le> n)"

primrec oper_fits :: "operator_name_format \<Rightarrow> bool" where
  "oper_fits (Long s) \<longleftrightarrow> length s \<le> 24"
| "oper_fits (Short s) \<longleftrightarrow> length s \<le> 10"
| "oper_fits (Numeric s) \<longleftrightarrow> length s \<le> 6"

primrec network_service_fits :: "network_service_resp \<Rightarrow> bool" where
  "network_service_fits (R_SignalQuality _) \<longleftrightarrow> True"
| "network_service_fits (R_OperatorSelection os) \<longleftrightarrow>
     (case os_oper os of None \<Rightarrow> True | Some f \<Rightarrow> oper_fits f)"
| "network_service_fits (R_RadioAccessTechnology _) \<longleftrightarrow> True"
| "network_service_fits (R_NetworkRegistrationStatus r) \<longleftrightarrow>
     opt_fits 4 (nrs_lac r) \<and> opt_fits 8 (nrs_ci r)"

record packet_switched_config =
  psc_profile_id :: profile_id
  psc_param :: packet_switched_param

record packet_switched_network_data =
  psnd_profile :: profile_id
  psnd_param :: packet_switched_network_data_param
  psnd_param_tag :: u8

record pdp_context_state =
  pcs_cid :: context_id
  pcs_status :: pdp_context_status

record gprs_network_registration_status =
  grs_n :: gprs_network_registration_urc_config
  grs_stat :: gprs_network_registration_stat
  grs_lac :: "string option"
  grs_ci :: "string option"
  grs_act :: "rat_act option"
  grs_rac :: "string option"

record eps_network_registration_status =
  ers_n :: eps_network_registration_urc_config
  ers_stat :: eps_network_registration_stat
  ers_tac :: "string option"
  ers_ci :: "string option"
  ers_act :: "rat_act option"

datatype psn_resp =
    R_PacketSwitchedConfig packet_switched_config
  | R_PacketSwitchedNetworkData packet_switched_network_data
  | R_GPRSAttached gprs_attached_state
  | R_PDPContextState "pdp_context_state list"
  | R_GPRSNetworkRegistrationStatus gprs_network_registration_status
  | R_ExtendedPSNetworkRegistrationStatus extended_ps_network_registration_urc_config
      extended_ps_network_registration_state
  | R_EPSNetworkRegistrationStatus eps_network_registration_status

text \<open>\<open>GetPDPContextState\<close> answers with a \<open>heapless::Vec<PDPContextState, 7>\<close>.\<close>

primrec psn_fits :: "psn_resp \<Rightarrow> bool" where
  "psn_fits (R_PacketSwitchedConfig c) \<longleftrightarrow> param_fits (psc_param c)"
| "psn_fits (R_PacketSwitchedNetworkData _) \<longleftrightarrow> True"
| "psn_fits (R_GPRSAttached _) \<longleftrightarrow> True"
| "psn_fits (R_PDPContextState cs) \<longleftrightarrow> length cs \<le> 7"
| "psn_fits (R_GPRSNetworkRegistrationStatus r) \<longleftrightarrow>
     opt_fits 4 (grs_lac r) \<and> opt_fits 8 (grs_ci r) \<and> opt_fits 2 (grs_rac r)"
| "psn_fits (R_ExtendedPSNetworkRegistrationStatus _ _) \<longleftrightarrow> True"
| "psn_fits (R_EPSNetworkRegistrationStatus r) \<longleftrightarrow>
     opt_fits 4 (ers_tac r) \<and> opt_fits 8 (ers_ci r)"

datatype system_features_resp =
    R_PowerSavingControl power_saving_mode "seconds option"
  | R_FactoryConfiguration fs_factory_restore_type nvm_factory_restore_type

record socket_data =
  sd_socket :: socket_handle
  sd_length :: nat
  sd_data :: "bytes option"

record udp_socket_data =
  ud_socket :: socket_handle
  ud_remote_addr :: ip_addr
  ud_remote_port :: "16 word"
  ud_length :: nat
  ud_data :: "bytes option"

datatype socket_resp =
    R_CreateSocketResponse socket_handle | R_SocketErrorResponse u8
  | R_WriteSocketDataResponse socket_handle nat | R_UDPSendToDataResponse socket_handle nat
  | R_SocketData socket_data | R_UDPSocketData udp_socket_data
  | R_SocketControlResponse socket_handle socket_control_param "32 word"

text \<open>\<open>services::data::INGRESS_CHUNK_SIZE\<close>; a data field holds twice as much, in hex.\<close>

definition INGRESS_CHUNK_SIZE :: nat where
  "INGRESS_CHUNK_SIZE = 256"

primrec socket_fits :: "socket_resp \<Rightarrow> bool" where
  "socket_fits (R_CreateSocketResponse _) \<longleftrightarrow> True"
| "socket_fits (R_SocketErrorResponse _) \<longleftrightarrow> True"
| "socket_fits (R_WriteSocketDataResponse _ _) \<longleftrightarrow> True"
| "socket_fits (R_UDPSendToDataResponse _ _) \<longleftrightarrow> True"
| "socket_fits (R_SocketData d) \<longleftrightarrow> opt_fits (INGRESS_CHUNK_SIZE * 2) (sd_data d)"
| "socket_fits (R_UDPSocketData d) \<longleftrightarrow> opt_fits (INGRESS_CHUNK_SIZE * 2) (ud_data d)"
| "socket_fits (R_SocketControlResponse _ _ _) \<longleftrightarrow> True"

record security_data_import =
  sdi_op_code :: security_operation
  sdi_data_type :: security_data_type
  sdi_internal_name :: string
  sdi_md5_string :: string

record security_data =
  secd_cert_type :: string
  secd_internal_name :: string
  secd_common_name :: "string option"
  secd_expiration_date :: "string option"

datatype security_resp =
    R_SecurityDataImport security_data_import | R_SecurityDataList "security_data list"

primrec security_fits :: "security_resp \<Rightarrow> bool" where
  "security_fits (R_SecurityDataImport d) \<longleftrightarrow>
     length (sdi_internal_name d) \<le> 200 \<and> length (sdi_md5_string d) \<le> 32"
| "security_fits (R_SecurityDataList ds) \<longleftrightarrow>
     length ds \<le> 3 \<and>
     (\<forall>d \<in> set ds. length (secd_cert_type d) \<le> 2 \<and> length (secd_internal_name d) \<le> 200
        \<and> opt_fits 100 (secd_common_name d) \<and> opt_fits 100 (secd_expiration_date d))"

datatype file_system_resp =
    R_ListFiles "string list" | R_ReadFile string nat bytes | R_ReadBlock string nat bytes

primrec file_system_fits :: "file_system_resp \<Rightarrow> bool" where
  "file_system_fits (R_ListFiles fs) \<longleftrightarrow> length fs \<le> 10 \<and> (\<forall>f \<in> set fs. length f \<le> 248)"
| "file_system_fits (R_ReadFile f _ d) \<longleftrightarrow> length f \<le> 248 \<and> length d \<le> 1026"
| "file_system_fits (R_ReadBlock f _ d) \<longleftrightarrow> length f \<le> 248 \<and> length d \<le> 514"

datatype at_resp =
    R_NoResponse | R_General general_resp | R_Mobile_Control mobile_control_resp
  | R_Gpio u8 gpio_mode | R_Pin_Status pin_status_code
  | R_Network_Service network_service_resp | R_Psn psn_resp
  | R_System_Features system_features_resp | R_Socket socket_resp | R_Dns string
  | R_Security security_resp | R_File_System file_system_resp

primrec resp_fits :: "at_resp \<Rightarrow> bool" where
  "resp_fits R_NoResponse \<longleftrightarrow> True"
| "resp_fits (R_General r) \<longleftrightarrow> general_fits r"
| "resp_fits (R_Mobile_Control r) \<longleftrightarrow> mobile_control_fits r"
| "resp_fits (R_Gpio _ _) \<longleftrightarrow> True"
| "resp_fits (R_Pin_Status _) \<longleftrightarrow> True"
| "resp_fits (R_Network_Service r) \<longleftrightarrow> network_service_fits r"
| "resp_fits (R_Psn r) \<longleftrightarrow> psn_fits r"
| "resp_fits (R_System_Features _) \<longleftrightarrow> True"
| "resp_fits (R_Socket r) \<longleftrightarrow> socket_fits r"
| "resp_fits (R_Dns s) \<longleftrightarrow> length s \<le> 128"
| "resp_fits (R_Security r) \<longleftrightarrow> security_fits r"
| "resp_fits (R_File_System r) \<longleftrightarrow> file_system_fits r"

section \<open>Unsolicited result codes\<close>

datatype urc =
    NetworkDetach | MobileStationDetach | NetworkDeactivate | MobileStationDeactivate
  | NetworkPDNDeactivate | MobileStationPDNDeactivate
  | SocketDataAvailable socket_handle nat | SocketDataAvailableUDP socket_handle nat
  | DataConnectionActivated u8 "ip_addr option" | DataConnectionDeactivated profile_id
  | SocketClosed socket_handle | MessageWaitingIndication u8 message_indication_type
  | ExtendedPSNetworkRegistration extended_ps_network_registration_state
  | HttpResponse u8 u8 u8

text \<open>The registration URCs of \<open>network_service/urc.rs\<close> and \<open>psn/urc.rs\<close>. No variant of \<open>Urc\<close> carries
  them: the driver asks for the registration instead.\<close>

record network_registration =
  nr_stat :: network_registration_stat
  nr_lac :: "string option"
  nr_ci :: "string option"
  nr_act_status :: "u8 option"

record gprs_network_registration =
  gr_stat :: gprs_network_registration_stat
  gr_lac :: "string option"
  gr_ci :: "string option"
  gr_act :: "rat_act option"
  gr_rac :: "string option"

record eps_network_registration =
  er_stat :: eps_network_registration_stat
  er_tac :: "string option"
  er_ci :: "string option"
  er_act :: "rat_act option"
  er_cause_type :: "u8 option"
  er_reject_cause :: "u8 option"

definition network_registration_fits :: "network_registration \<Rightarrow> bool" where
  "network_registration_fits r \<longleftrightarrow> opt_fits 4 (nr_lac r) \<and> opt_fits 8 (nr_ci r)"

definition gprs_network_registration_fits :: "gprs_network_registration \<Rightarrow> bool" where
  "gprs_network_registration_fits r \<longleftrightarrow>
     opt_fits 4 (gr_lac r) \<and> opt_fits 8 (gr_ci r) \<and> opt_fits 2 (gr_rac r)"

definition eps_network_registration_fits :: "eps_network_registration \<Rightarrow> bool" where
  "eps_network_registration_fits r \<longleftrightarrow> opt_fits 4 (er_tac r) \<and> opt_fits 8 (er_ci r)"

section \<open>Typed commands\<close>

record 'r at_cmd =
  cmd_req :: at_req
  cmd_parse :: "at_resp \<Rightarrow> 'r option"

definition typed_cmd :: "at_req \<Rightarrow> (at_resp \<Rightarrow> 'r option) \<Rightarrow> 'r at_cmd" where
  "typed_cmd q p = \<lparr>cmd_req = q, cmd_parse = (\<lambda>r. if resp_fits r then p r else None)\<rparr>"

text \<open>\<open>NoResponse\<close> has no fields to read.\<close>

definition plain :: "at_req \<Rightarrow> unit at_cmd" where
  "plain q = typed_cmd q (\<lambda>r. if r = R_NoResponse then Some () else None)"

definition get_model_id :: "bytes at_cmd" where
  "get_model_id = typed_cmd (General GetModelId)
     (\<lambda>r. case r of R_General (R_ModelId b) \<Rightarrow> Some b | _ \<Rightarrow> None)"

definition get_firmware_version :: "bytes at_cmd" where
  "get_firmware_version = typed_cmd (General GetFirmwareVersion)
     (\<lambda>r. case r of R_General (R_FirmwareVersion b) \<Rightarrow> Some b | _ \<Rightarrow> None)"

definition get_cimi :: "64 word at_cmd" where
  "get_cimi = typed_cmd (General GetCIMI)
     (\<lambda>r. case r of R_General (R_CIMI w) \<Rightarrow> Some w | _ \<Rightarrow> None)"

definition get_ccid :: "128 word at_cmd" where
  "get_ccid = typed_cmd (General GetCCID)
     (\<lambda>r. case r of R_General (R_CCID w) \<Rightarrow> Some w | _ \<Rightarrow> None)"

definition get_extended_error_report :: "(string \<times> 32 word \<times> string) at_cmd" where
  "get_extended_error_report = typed_cmd (Mobile_Control GetExtendedErrorReport)
     (\<lambda>r. case r of R_Mobile_Control (R_ExtendedErrorReport t c d) \<Rightarrow> Some (t, c, d) | _ \<Rightarrow> None)"

definition get_pin_status :: "pin_status_code at_cmd" where
  "get_pin_status = typed_cmd (Device_Lock GetPinStatus)
     (\<lambda>r. case r of R_Pin_Status c \<Rightarrow> Some c | _ \<Rightarrow> None)"

definition get_signal_quality :: "signal_quality at_cmd" where
  "get_signal_quality = typed_cmd (Network_Service GetSignalQuality)
     (\<lambda>r. case r of R_Network_Service (R_SignalQuality q) \<Rightarrow> Some q | _ \<Rightarrow> None)"

definition get_operator_selection :: "operator_selection at_cmd" where
  "get_operator_selection = typed_cmd (Network_Service GetOperatorSelection)
     (\<lambda>r. case r of R_Network_Service (R_OperatorSelection os) \<Rightarrow> Some os | _ \<Rightarrow> None)"

definition get_network_registration :: "network_registration_status at_cmd" where
  "get_network_registration = typed_cmd (Network_Service GetNetworkRegistrationStatus)
     (\<lambda>r. case r of R_Network_Service (R_NetworkRegistrationStatus x) \<Rightarrow> Some x | _ \<Rightarrow> None)"

definition get_gprs_registration :: "gprs_network_registration_status at_cmd" where
  "get_gprs_registration = typed_cmd (Psn_Registration GetGPRSNetworkRegistrationStatus)
     (\<lambda>r. case r of R_Psn (R_GPRSNetworkRegistrationStatus x) \<Rightarrow> Some x | _ \<Rightarrow> None)"

definition get_eps_registration :: "eps_network_registration_status at_cmd" where
  "get_eps_registration = typed_cmd (Psn_Registration GetEPSNetworkRegistrationStatus)
     (\<lambda>r. case r of R_Psn (R_EPSNetworkRegistrationStatus x) \<Rightarrow> Some x | _ \<Rightarrow> None)"

definition get_gprs_attached :: "gprs_attached_state at_cmd" where
  "get_gprs_attached = typed_cmd (Psn_Context GetGPRSAttached)
     (\<lambda>r. case r of R_Psn (R_GPRSAttached x) \<Rightarrow> Some x | _ \<Rightarrow> None)"

definition get_pdp_context_state :: "pdp_context_state list at_cmd" where
  "get_pdp_context_state = typed_cmd (Psn_Context GetPDPContextState)
     (\<lambda>r. case r of R_Psn (R_PDPContextState x) \<Rightarrow> Some x | _ \<Rightarrow> None)"

definition get_packet_switched_config ::
    "profile_id \<Rightarrow> packet_switched_param_req \<Rightarrow> packet_switched_config at_cmd" where
  "get_packet_switched_config p q = typed_cmd (Psn_Context (GetPacketSwitchedConfig p q))
     (\<lambda>r. case r of R_Psn (R_PacketSwitchedConfig x) \<Rightarrow> Some x | _ \<Rightarrow> None)"

definition get_packet_switched_network_data ::
    "profile_id \<Rightarrow> packet_switched_network_data_param \<Rightarrow> packet_switched_network_data at_cmd" where
  "get_packet_switched_network_data p q =
     typed_cmd (Psn_Context (GetPacketSwitchedNetworkData p q))
     (\<lambda>r. case r of R_Psn (R_PacketSwitchedNetworkData x) \<Rightarrow> Some x | _ \<Rightarrow> None)"

definition read_socket_data :: "socket_handle \<Rightarrow> nat \<Rightarrow> socket_data at_cmd" where
  "read_socket_data h n = typed_cmd (Socket_Data (ReadSocketData h n))
     (\<lambda>r. case r of R_Socket (R_SocketData d) \<Rightarrow> Some d | _ \<Rightarrow> None)"

definition read_udp_socket_data :: "socket_handle \<Rightarrow> nat \<Rightarrow> udp_socket_data at_cmd" where
  "read_udp_socket_data h n = typed_cmd (Socket_Data (ReadUDPSocketData h n))
     (\<lambda>r. case r of R_Socket (R_UDPSocketData d) \<Rightarrow> Some d | _ \<Rightarrow> None)"

lemmas typed_cmd_defs =
  plain_def get_model_id_def get_firmware_version_def get_cimi_def get_ccid_def
  get_extended_error_report_def get_pin_status_def get_signal_quality_def
  get_operator_selection_def get_network_registration_def get_gprs_registration_def
  get_eps_registration_def get_gprs_attached_def get_pdp_context_state_def
  get_packet_switched_config_def get_packet_switched_network_data_def
  read_socket_data_def read_udp_socket_data_def

lemma cmd_req_typed [simp]:
  "cmd_req (typed_cmd q p) = q"
  "cmd_req (plain q) = q"
  "cmd_req get_model_id = General GetModelId"
  "cmd_req get_firmware_version = General GetFirmwareVersion"
  "cmd_req get_cimi = General GetCIMI"
  "cmd_req get_ccid = General GetCCID"
  "cmd_req get_extended_error_report = Mobile_Control GetExtendedErrorReport"
  "cmd_req get_pin_status = Device_Lock GetPinStatus"
  "cmd_req get_signal_quality = Network_Service GetSignalQuality"
  "cmd_req get_operator_selection = Network_Service GetOperatorSelection"
  "cmd_req get_network_registration = Network_Service GetNetworkRegistrationStatus"
  "cmd_req get_gprs_registration = Psn_Registration GetGPRSNetworkRegistrationStatus"
  "cmd_req get_eps_registration = Psn_Registration GetEPSNetworkRegistrationStatus"
  "cmd_req get_gprs_attached = Psn_Context GetGPRSAttached"
  "cmd_req get_pdp_context_state = Psn_Context GetPDPContextState"
  "cmd_req (get_packet_switched_config p' k) = Psn_Context (GetPacketSwitchedConfig p' k)"
  "cmd_req (get_packet_switched_network_data p' k') =
     Psn_Context (GetPacketSwitchedNetworkData p' k')"
  "cmd_req (read_socket_data h n) = Socket_Data (ReadSocketData h n)"
  "cmd_req (read_udp_socket_data h n) = Socket_Data (ReadUDPSocketData h n)"
  by (simp_all add: typed_cmd_defs typed_cmd_def)

text \<open>A response that is read fits the capacities of its fields.\<close>

lemma typed_cmd_fits: "cmd_parse (typed_cmd q p) r = Some x \<Longrightarrow> resp_fits r"
  by (simp add: typed_cmd_def split: if_splits)

lemma read_socket_data_parse:
  "cmd_parse (read_socket_data h n) r = Some d \<longleftrightarrow>
     r = R_Socket (R_SocketData d) \<and> opt_fits (INGRESS_CHUNK_SIZE * 2) (sd_data d)"
  by (auto simp: read_socket_data_def typed_cmd_def split: at_resp.splits socket_resp.splits)

lemma read_udp_socket_data_parse:
  "cmd_parse (read_udp_socket_data h n) r = Some d \<longleftrightarrow>
     r = R_Socket (R_UDPSocketData d) \<and> opt_fits (INGRESS_CHUNK_SIZE * 2) (ud_data d)"
  by (auto simp: read_udp_socket_data_def typed_cmd_def split: at_resp.splits socket_resp.splits)

end
