(* ===== verification/Environment.thy ===== *)
theory Environment
  imports Responses
begin

text \<open>
  The errors of the crate and what it is given: \<open>env\<close> collects the code the crate calls but
  does not contain, over an arbitrary world \<open>'w\<close>, namely the monotonic clock of
  \<open>embassy_time\<close>, the AT client of \<open>atat\<close> with its two URC subscriptions, and the pins of the
  \<open>CellularConfig\<close>. Nothing is assumed of them here; the hypotheses a property needs
  (\<open>ticking\<close>: time passes while the code waits) are named predicates. \<open>logged e\<close> is \<open>e\<close> with
  the requests it was sent recorded, for properties about the order of commands.
\<close>

section \<open>Errors\<close>

text \<open>\<open>atat::Error\<close>: the variants \<open>network.rs\<close> names; all others are \<open>At_Other\<close>.\<close>

datatype at_error =
    At_Read | At_Write | At_Timeout | At_InvalidResponse | At_Aborted | At_Parse | At_Error
  | At_Other

datatype generic_error = Timeout | Clock | Unsupported

datatype network_error =
    Generic generic_error | Err_AT at_error | RegistrationDenied | UnknownProfile
  | ActivationFailed | Net_Unknown

text \<open>\<open>ublox_sockets::Error\<close>: the variants the crate names; all others are \<open>Sock_Other\<close>.\<close>

datatype socket_error =
    Exhausted | SocketSetFull | Unaddressable | Illegal | Err_SocketClosed | Sock_BadLength
  | InvalidSocket | Sock_Other

datatype data_error =
    InvalidApn | SocketMemory | WrongSocketType | BadLength | Err_Dns | BufferFull | InvalidHex
  | Err_Socket socket_error | Data_Network network_error | Data_Generic generic_error
  | Data_Unknown

datatype device_error =
    BaudDetection | Busy | Uninitialized | StateTimeout | Dev_Network network_error
  | Dev_DataService data_error | Dev_Generic generic_error | Dev_Unknown

text \<open>\<open>nb::Error\<close>.\<close>

datatype 'e nb = Other 'e | WouldBlock

text \<open>The \<open>From\<close> conversions of \<open>error.rs\<close> and \<open>services/data/error.rs\<close>.\<close>

definition data_of_network :: "network_error \<Rightarrow> data_error" where
  "data_of_network e = (case e of Generic g \<Rightarrow> Data_Generic g | _ \<Rightarrow> Data_Network e)"

definition data_of_socket :: "socket_error \<Rightarrow> data_error" where
  "data_of_socket e = Err_Socket e"

definition device_of_network :: "network_error \<Rightarrow> device_error" where
  "device_of_network e = (case e of Generic g \<Rightarrow> Dev_Generic g | _ \<Rightarrow> Dev_Network e)"

definition device_of_data :: "data_error \<Rightarrow> device_error" where
  "device_of_data e =
     (case e of Data_Generic g \<Rightarrow> Dev_Generic g | Data_Network g \<Rightarrow> Dev_Network g
      | _ \<Rightarrow> Dev_DataService e)"

text \<open>A network error reaches the caller in the same form through either route.\<close>

lemma device_of_data_of_network: "device_of_data (data_of_network e) = device_of_network e"
  by (cases e) (simp_all add: device_of_data_def data_of_network_def device_of_network_def)

section \<open>What the crate is given\<close>

datatype subscriber = Network_Sub | Device_Sub

datatype pin = Reset_Pin | Power_Pin

text \<open>An implementation of \<open>CellularConfig\<close>: which pins it has, and its two constants.\<close>

record cellular_config =
  cfg_reset_pin :: bool
  cfg_power_pin :: bool
  cfg_vint_pin :: bool
  cfg_flow_control :: bool
  cfg_hex_mode :: bool

text \<open>The defaults of the trait's constants.\<close>

definition default_config :: cellular_config where
  "default_config =
     \<lparr>cfg_reset_pin = False, cfg_power_pin = False, cfg_vint_pin = False,
      cfg_flow_control = False, cfg_hex_mode = True\<rparr>"

text \<open>
  \<open>now\<close> is \<open>Instant::now()\<close>; \<open>send_raw\<close> is \<open>AtatClient::send_retry\<close> up to the reading of the
  response; \<open>next_urc\<close> is \<open>UrcSubscription::try_next_message_pure\<close>; \<open>set_pin\<close> drives an output
  pin (its \<open>Result\<close> is dropped with \<open>.ok()\<close> everywhere); \<open>vint_is_high\<close> reads the input pin, \<open>None\<close>
  being its error; \<open>default_attempts\<close> is \<open>AtatCmd::ATTEMPTS\<close> where the attribute is absent.
\<close>

record 'w env =
  now :: "'w \<Rightarrow> instant \<times> 'w"
  send_raw :: "at_req \<Rightarrow> 'w \<Rightarrow> (at_error + at_resp) \<times> 'w"
  next_urc :: "subscriber \<Rightarrow> 'w \<Rightarrow> urc option \<times> 'w"
  set_pin :: "pin \<Rightarrow> bool \<Rightarrow> 'w \<Rightarrow> 'w"
  vint_is_high :: "'w \<Rightarrow> bool option \<times> 'w"
  default_attempts :: u8
  config :: cellular_config
  variant :: module_variant

text \<open>\<open>A::ATTEMPTS\<close>.\<close>

definition attempts :: "'w env \<Rightarrow> at_req \<Rightarrow> u8" where
  "attempts e q =
     (case at_attempts (req_attrs q) of None \<Rightarrow> default_attempts e | Some n \<Rightarrow> n)"

definition clock :: "'w env \<Rightarrow> ('w, 'e, instant) prog" where
  "clock e w = (case now e w of (t, w') \<Rightarrow> Some (Inr t, w'))"

text \<open>\<open>send_retry\<close>: the response text, read by the command.\<close>

definition send_retry :: "'w env \<Rightarrow> 'r at_cmd \<Rightarrow> ('w, at_error, 'r) prog" where
  "send_retry e c w =
     (case send_raw e (cmd_req c) w of
        (Inl err, w') \<Rightarrow> Some (Inl err, w')
      | (Inr resp, w') \<Rightarrow>
          (case cmd_parse c resp of
             None \<Rightarrow> Some (Inl At_Parse, w')
           | Some r \<Rightarrow> Some (Inr r, w')))"

definition try_next_message :: "'w env \<Rightarrow> subscriber \<Rightarrow> ('w, 'e, urc option) prog" where
  "try_next_message e s w = (case next_urc e s w of (u, w') \<Rightarrow> Some (Inr u, w'))"

lemma halts_clock [halting, simp]: "halts (clock e)"
  by (simp add: halts_def clock_def split: prod.split)

lemma halts_send_retry [halting, simp]: "halts (send_retry e c)"
  by (rule haltsI) (simp add: send_retry_def split: prod.split sum.split option.split)

lemma halts_try_next_message [halting, simp]: "halts (try_next_message e s)"
  by (simp add: halts_def try_next_message_def split: prod.split)

text \<open>The rules for \<open>wp\<close> forget what the clock, the modem and the subscriptions answer.\<close>

lemma wp_clock:
  assumes "\<And>t w'. now e w = (t, w') \<Longrightarrow> Q t w'"
  shows "wp (clock e) Q E w"
  using assms by (simp add: wp_def clock_def split: prod.split)

lemma wp_send_retry:
  assumes "\<And>r w'. Q r w'" "\<And>x w'. E x w'"
  shows "wp (send_retry e c) Q E w"
  using assms by (simp add: wp_def send_retry_def split: prod.split sum.split option.split)

lemma wp_try_next_message:
  assumes "\<And>u w'. next_urc e s w = (u, w') \<Longrightarrow> Q u w'"
  shows "wp (try_next_message e s) Q E w"
  using assms by (simp add: wp_def try_next_message_def split: prod.split)

section \<open>The record of what was sent\<close>

definition logged :: "'w env \<Rightarrow> ('w \<times> at_req list) env" where
  "logged e =
     \<lparr>now = (\<lambda>(w, l). case now e w of (t, w') \<Rightarrow> (t, w', l)),
      send_raw = (\<lambda>q (w, l). case send_raw e q w of (r, w') \<Rightarrow> (r, w', l @ [q])),
      next_urc = (\<lambda>s (w, l). case next_urc e s w of (u, w') \<Rightarrow> (u, w', l)),
      set_pin = (\<lambda>p b (w, l). (set_pin e p b w, l)),
      vint_is_high = (\<lambda>(w, l). case vint_is_high e w of (b, w') \<Rightarrow> (b, w', l)),
      default_attempts = default_attempts e,
      config = config e,
      variant = variant e\<rparr>"

abbreviation sent :: "'w \<times> at_req list \<Rightarrow> at_req list" where
  "sent \<equiv> snd"

lemma logged_simps [simp]:
  "default_attempts (logged e) = default_attempts e"
  "config (logged e) = config e"
  "variant (logged e) = variant e"
  "attempts (logged e) = attempts e"
  by (simp_all add: logged_def attempts_def fun_eq_iff split: option.split)

lemma wp_clock_logged:
  assumes "\<And>t w'. sent w' = sent w \<Longrightarrow> Q t w'"
  shows "wp (clock (logged e)) Q E w"
  using assms by (cases w) (auto intro!: wp_clock simp: logged_def split: prod.splits)

lemma wp_send_retry_logged:
  assumes "\<And>r w'. sent w' = sent w @ [cmd_req c] \<Longrightarrow> Q r w'"
    and "\<And>x w'. sent w' = sent w @ [cmd_req c] \<Longrightarrow> E x w'"
  shows "wp (send_retry (logged e) c) Q E w"
  using assms
  by (cases w) (simp add: wp_def send_retry_def logged_def split: prod.split sum.split option.split)

lemma wp_try_next_message_logged:
  assumes "\<And>u w'. sent w' = sent w \<Longrightarrow> Q u w'"
  shows "wp (try_next_message (logged e) s) Q E w"
  using assms by (cases w) (auto intro!: wp_try_next_message simp: logged_def split: prod.splits)

section \<open>Clocks\<close>

text \<open>\<open>clk\<close> gives the time in a world. \<open>reads_clock\<close>: \<open>Instant::now()\<close> reads it, and a read
  takes time: it does not go back, and it moves on by at least a microsecond.\<close>

definition ticking :: "'w env \<Rightarrow> ('w \<Rightarrow> instant) \<Rightarrow> bool" where
  "ticking e clk \<longleftrightarrow> (\<forall>w. fst (now e w) = clk w \<and> clk w < clk (snd (now e w)))"

text \<open>Nothing turns the clock back.\<close>

definition monotone_world :: "'w env \<Rightarrow> ('w \<Rightarrow> instant) \<Rightarrow> bool" where
  "monotone_world e clk \<longleftrightarrow>
     (\<forall>w. clk w \<le> clk (snd (now e w)))
     \<and> (\<forall>q w. clk w \<le> clk (snd (send_raw e q w)))
     \<and> (\<forall>s w. clk w \<le> clk (snd (next_urc e s w)))
     \<and> (\<forall>p b w. clk w \<le> clk (set_pin e p b w))
     \<and> (\<forall>w. clk w \<le> clk (snd (vint_is_high e w)))"

text \<open>A world to evaluate on: the time, the answers the modem still has (a timeout when they
  run out), the URCs of either subscription, and the level of the \<open>VInt\<close> pin.\<close>

record script_world =
  sw_time :: instant
  sw_answers :: "(at_error + at_resp) list"
  sw_net_urcs :: "urc list"
  sw_dev_urcs :: "urc list"
  sw_vint :: bool

definition script_env :: "module_variant \<Rightarrow> cellular_config \<Rightarrow> script_world env" where
  "script_env m cfg =
     \<lparr>now = (\<lambda>w. (sw_time w, w\<lparr>sw_time := sw_time w + 1\<rparr>)),
      send_raw = (\<lambda>q w. case sw_answers w of
          [] \<Rightarrow> (Inl At_Timeout, w) | a # as \<Rightarrow> (a, w\<lparr>sw_answers := as\<rparr>)),
      next_urc = (\<lambda>s w. case s of
          Network_Sub \<Rightarrow> (case sw_net_urcs w of
              [] \<Rightarrow> (None, w) | u # us \<Rightarrow> (Some u, w\<lparr>sw_net_urcs := us\<rparr>))
        | Device_Sub \<Rightarrow> (case sw_dev_urcs w of
              [] \<Rightarrow> (None, w) | u # us \<Rightarrow> (Some u, w\<lparr>sw_dev_urcs := us\<rparr>))),
      set_pin = (\<lambda>p b w. if p = Power_Pin then w\<lparr>sw_vint := True\<rparr> else w),
      vint_is_high = (\<lambda>w. (Some (sw_vint w), w)),
      default_attempts = 3,
      config = cfg,
      variant = m\<rparr>"

definition script_start :: script_world where
  "script_start =
     \<lparr>sw_time = 0, sw_answers = [], sw_net_urcs = [], sw_dev_urcs = [], sw_vint = False\<rparr>"

lemma script_ticking: "ticking (script_env m cfg) sw_time"
  by (simp add: ticking_def script_env_def)

lemma script_monotone: "monotone_world (script_env m cfg) sw_time"
  by (simp add: monotone_world_def script_env_def split: list.split subscriber.split)

end
