(* ===== verification/Registration.thy ===== *)
theory Registration
  imports Environment
begin

text \<open>
  \<open>registration.rs\<close>: the registration status of one domain (\<open>slot\<close>, the struct
  \<open>CellularRegistrationStatus\<close>), the three domains with the connection state
  (\<open>registration_state\<close>), and \<open>compare_and_set\<close>, which enters a report of the modem. The
  methods that call \<open>Instant::now()\<close> run on the state paired with the world. The locale
  \<open>reg_domain\<close> states what the three branches of \<open>compare_and_set\<close> share and is interpreted
  for CSD, PSD and EPS; a slot is what the history of the reports of its domain makes of it, whatever
  reports of the other domains come between them.
\<close>

section \<open>One domain\<close>

datatype status =
    Status_None | NotRegistering | Home | Searching | Denied | Status_Unknown | Roaming

definition status_from_u8 :: "u8 \<Rightarrow> status" where
  "status_from_u8 v =
     (if v = 0 then NotRegistering else if v = 1 then Home else if v = 2 then Searching
      else if v = 3 then Denied else if v = 4 then Status_Unknown else if v = 5 then Roaming
      else Status_None)"

definition status_of_network_stat :: "network_registration_stat \<Rightarrow> status" where
  "status_of_network_stat v = status_from_u8 (of_nat (network_registration_stat_code v))"

definition status_of_gprs_stat :: "gprs_network_registration_stat \<Rightarrow> status" where
  "status_of_gprs_stat v = status_from_u8 (of_nat (gprs_network_registration_stat_code v))"

definition status_of_eps_stat :: "eps_network_registration_stat \<Rightarrow> status" where
  "status_of_eps_stat v = status_from_u8 (of_nat (eps_network_registration_stat_code v))"

record slot =
  slot_status :: status
  slot_updated :: "instant option"
  slot_started :: "instant option"

definition slot_new :: slot where
  "slot_new = \<lparr>slot_status = Status_None, slot_updated = None, slot_started = None\<rparr>"

definition slot_duration :: "slot \<Rightarrow> instant \<Rightarrow> duration" where
  "slot_duration s ts =
     (case Option.bind (slot_started s) (checked_duration_since ts) of
        None \<Rightarrow> from_millis 0
      | Some d \<Rightarrow> d)"

definition slot_reset :: "slot \<Rightarrow> slot" where
  "slot_reset s =
     s\<lparr>slot_status := Status_None, slot_updated := None, slot_started := None\<rparr>"

text \<open>\<open>set_status\<close> after its first line, \<open>let ts = Instant::now()\<close>.\<close>

definition slot_set_at :: "instant \<Rightarrow> status \<Rightarrow> slot \<Rightarrow> slot" where
  "slot_set_at ts stat s =
     (let s = (if slot_status s \<noteq> stat
               then s\<lparr>slot_status := stat, slot_started := Some ts\<rparr> else s)
      in s\<lparr>slot_updated := Some ts\<rparr>)"

definition slot_set_status :: "'w env \<Rightarrow> status \<Rightarrow> (slot \<times> 'w, 'e, unit) prog" where
  "slot_set_status e stat =
     bindP (zoom snd (\<lambda>w (s, _). (s, w)) (clock e)) (\<lambda>ts.
     modifyP (\<lambda>(s, w). (slot_set_at ts stat s, w)))"

definition slot_registered :: "slot \<Rightarrow> bool" where
  "slot_registered s \<longleftrightarrow> (case slot_status s of Home \<Rightarrow> True | Roaming \<Rightarrow> True | _ \<Rightarrow> False)"

definition slot_sticky :: "slot \<Rightarrow> bool" where
  "slot_sticky s \<longleftrightarrow> slot_updated s \<noteq> None \<and> slot_updated s \<noteq> slot_started s"

section \<open>Reports of the modem\<close>

datatype reg_type = Creg | Cgreg | Cereg | Reg_Unknown

datatype radio_access_network = UnknownUnused | Geran | Ran_Utran | Ran_Eutran

primrec reg_type_of_ran :: "radio_access_network \<Rightarrow> reg_type" where
  "reg_type_of_ran UnknownUnused = Reg_Unknown"
| "reg_type_of_ran Geran = Creg"
| "reg_type_of_ran Ran_Utran = Cgreg"
| "reg_type_of_ran Ran_Eutran = Cereg"

primrec ran_of_reg_type :: "reg_type \<Rightarrow> radio_access_network" where
  "ran_of_reg_type Reg_Unknown = UnknownUnused"
| "ran_of_reg_type Creg = Geran"
| "ran_of_reg_type Cgreg = Ran_Utran"
| "ran_of_reg_type Cereg = Ran_Eutran"

definition ran_of_usize :: "nat \<Rightarrow> radio_access_network" where
  "ran_of_usize v =
     (if v = 1 then Geran else if v = 2 then Ran_Utran else if v = 3 then Ran_Eutran
      else UnknownUnused)"

primrec ran_code :: "radio_access_network \<Rightarrow> nat" where
  "ran_code UnknownUnused = 0"
| "ran_code Geran = 1"
| "ran_code Ran_Utran = 2"
| "ran_code Ran_Eutran = 3"

record registration_params =
  rp_reg_type :: reg_type
  rp_status :: status
  rp_act :: rat_act
  rp_cell_id :: "string option"
  rp_lac :: "string option"

definition params_of_network :: "network_registration_status \<Rightarrow> registration_params" where
  "params_of_network v =
     \<lparr>rp_reg_type = Creg, rp_status = status_of_network_stat (nrs_stat v), rp_act = rat_act.Gsm,
      rp_cell_id = None, rp_lac = None\<rparr>"

definition params_of_gprs :: "gprs_network_registration_status \<Rightarrow> registration_params" where
  "params_of_gprs v =
     \<lparr>rp_reg_type = Cgreg, rp_status = status_of_gprs_stat (grs_stat v),
      rp_act = (case grs_act v of None \<Rightarrow> rat_act.Unknown | Some a \<Rightarrow> a),
      rp_cell_id = grs_ci v, rp_lac = grs_lac v\<rparr>"

definition params_of_eps :: "eps_network_registration_status \<Rightarrow> registration_params" where
  "params_of_eps v =
     \<lparr>rp_reg_type = Cereg, rp_status = status_of_eps_stat (ers_stat v),
      rp_act = (case ers_act v of None \<Rightarrow> rat_act.Unknown | Some a \<Rightarrow> a),
      rp_cell_id = ers_ci v, rp_lac = ers_tac v\<rparr>"

text \<open>\<open>command/network_service/impl_.rs\<close>.\<close>

definition is_access_alive :: "network_registration_stat \<Rightarrow> bool" where
  "is_access_alive s \<longleftrightarrow>
     s = network_registration_stat.Registered \<or> s = network_registration_stat.RegisteredRoaming"

definition registration_ok ::
    "network_registration_stat \<Rightarrow> network_error + network_registration_stat" where
  "registration_ok s =
     (if s = network_registration_stat.RegistrationDenied
      then Inl network_error.RegistrationDenied else Inr s)"

section \<open>The registration state\<close>

datatype connection_state = Disconnected | Connecting | Connected

record cell_global_identity =
  cgi_cell_id :: "string option"
  cgi_lac :: "string option"

record registration_state =
  reg_check_time :: "instant option"
  reg_start_time :: "instant option"
  imsi_check_time :: "instant option"
  conn_state :: connection_state
  csd :: slot
  psd :: slot
  eps :: slot
  registration_interventions :: u8
  check_imsi :: bool
  cgi :: cell_global_identity

definition registration_new :: registration_state where
  "registration_new =
     \<lparr>reg_check_time = None, reg_start_time = None, imsi_check_time = None,
      conn_state = Disconnected, csd = slot_new, psd = slot_new, eps = slot_new,
      registration_interventions = 1, check_imsi = False,
      cgi = \<lparr>cgi_cell_id = None, cgi_lac = None\<rparr>\<rparr>"

definition reset_slots :: "registration_state \<Rightarrow> registration_state" where
  "reset_slots r =
     r\<lparr>csd := slot_reset (csd r), psd := slot_reset (psd r), eps := slot_reset (eps r)\<rparr>"

text \<open>The clock, read while the registration state is at hand.\<close>

abbreviation reg_clock :: "'w env \<Rightarrow> (registration_state \<times> 'w, 'e, instant) prog" where
  "reg_clock e \<equiv> zoom snd (\<lambda>w (r, _). (r, w)) (clock e)"

definition registration_reset :: "'w env \<Rightarrow> (registration_state \<times> 'w, 'e, unit) prog" where
  "registration_reset e =
     bindP (modifyP (\<lambda>(r, w). (reset_slots r, w))) (\<lambda>_.
     bindP (reg_clock e) (\<lambda>t1.
     bindP (modifyP (\<lambda>(r, w). (r\<lparr>reg_start_time := Some t1\<rparr>, w))) (\<lambda>_.
     bindP (reg_clock e) (\<lambda>t2.
     modifyP (\<lambda>(r, w). (r\<lparr>reg_check_time := Some t2, imsi_check_time := None,
                           registration_interventions := 1\<rparr>, w))))))"

definition set_connection_state :: "connection_state \<Rightarrow> registration_state \<Rightarrow> registration_state" where
  "set_connection_state c r = (if conn_state r = c then r else r\<lparr>conn_state := c\<rparr>)"

text \<open>One branch of \<open>compare_and_set\<close>, for the domain \<open>get\<close>/\<open>upd\<close>.\<close>

definition set_domain ::
    "'w env \<Rightarrow> (registration_state \<Rightarrow> slot) \<Rightarrow> ((slot \<Rightarrow> slot) \<Rightarrow> registration_state \<Rightarrow> registration_state)
     \<Rightarrow> status \<Rightarrow> (registration_state \<times> 'w, 'e, unit) prog" where
  "set_domain e get upd stat =
     bindP (getsP (\<lambda>(r, _). slot_registered (get r))) (\<lambda>prev_reg_status.
     bindP (zoom (\<lambda>(r, w). (get r, w)) (\<lambda>(s, w) (r, _). (upd (\<lambda>_. s) r, w))
              (slot_set_status e stat)) (\<lambda>_.
     modifyP (\<lambda>(r, w).
       (if \<not> prev_reg_status \<and> slot_registered (get r) then r\<lparr>check_imsi := True\<rparr> else r, w))))"

definition update_cgi :: "registration_params \<Rightarrow> registration_state \<Rightarrow> registration_state" where
  "update_cgi p r =
     (if rp_cell_id p \<noteq> None \<and> cgi_cell_id (cgi r) \<noteq> rp_cell_id p
      then r\<lparr>cgi := (cgi r)\<lparr>cgi_cell_id := rp_cell_id p, cgi_lac := rp_lac p\<rparr>\<rparr> else r)"

definition compare_and_set ::
    "'w env \<Rightarrow> registration_params \<Rightarrow> (registration_state \<times> 'w, 'e, unit) prog" where
  "compare_and_set e p =
     (case rp_reg_type p of
        Creg \<Rightarrow>
          bindP (set_domain e csd csd_update (rp_status p)) (\<lambda>_.
          modifyP (\<lambda>(r, w). (update_cgi p r, w)))
      | Cgreg \<Rightarrow>
          bindP (set_domain e psd psd_update (rp_status p)) (\<lambda>_.
          modifyP (\<lambda>(r, w). (update_cgi p r, w)))
      | Cereg \<Rightarrow>
          bindP (set_domain e eps eps_update (rp_status p)) (\<lambda>_.
          modifyP (\<lambda>(r, w). (update_cgi p r, w)))
      | Reg_Unknown \<Rightarrow> okP ())"

lemmas slot_defs =
  slot_new_def slot_reset_def slot_set_at_def slot_registered_def slot_sticky_def

lemma slot_set_at_simps [simp]:
  "slot_status (slot_set_at ts st s) = st"
  "slot_updated (slot_set_at ts st s) = Some ts"
  "slot_started (slot_set_at ts st s) = (if slot_status s = st then slot_started s else Some ts)"
  by (simp_all add: slot_set_at_def Let_def)

lemma slot_reset_eq: "slot_reset s = slot_new"
  by (cases s) (simp add: slot_defs)

lemma slot_registered_set: "slot_registered (slot_set_at ts st s) \<longleftrightarrow> st = Home \<or> st = Roaming"
  by (cases st) (simp_all add: slot_registered_def)

lemma slot_duration_simps:
  "slot_started s = None \<Longrightarrow> slot_duration s ts = 0"
  "slot_started s = Some t \<Longrightarrow> slot_duration s ts = ts - t"
  by (simp_all add: slot_duration_def checked_duration_since_def from_millis_def)

section \<open>What the domains share\<close>

text \<open>A domain is one of the three slots, seen through its selector and its update;
  \<open>others\<close> lists the two slots it must not touch.\<close>

locale reg_domain =
  fixes get :: "registration_state \<Rightarrow> slot"
    and upd :: "(slot \<Rightarrow> slot) \<Rightarrow> registration_state \<Rightarrow> registration_state"
    and others :: "registration_state \<Rightarrow> slot \<times> slot"
  assumes get_upd: "get (upd f r) = f (get r)"
    and upd_const: "upd (\<lambda>_. f (get r)) r = upd f r"
    and others_upd: "others (upd f r) = others r"
    and conn_upd: "conn_state (upd f r) = conn_state r"
    and check_upd: "check_imsi (upd f r) = check_imsi r"
    and cgi_upd: "cgi (upd f r) = cgi r"
    and interventions_upd: "registration_interventions (upd f r) = registration_interventions r"
    and times_upd: "reg_check_time (upd f r) = reg_check_time r"
      "reg_start_time (upd f r) = reg_start_time r" "imsi_check_time (upd f r) = imsi_check_time r"
    and get_flag: "get (r\<lparr>check_imsi := b\<rparr>) = get r" "others (r\<lparr>check_imsi := b\<rparr>) = others r"
    and get_cgi: "get (r\<lparr>cgi := c\<rparr>) = get r" "others (r\<lparr>cgi := c\<rparr>) = others r"
begin

definition entered :: "instant \<Rightarrow> status \<Rightarrow> registration_state \<Rightarrow> registration_state" where
  "entered ts st r =
     (let r' = upd (slot_set_at ts st) r
      in if \<not> slot_registered (get r) \<and> slot_registered (get r')
         then r'\<lparr>check_imsi := True\<rparr> else r')"

lemma set_domain_run:
  "set_domain e get upd st (r, w) =
     (case now e w of (ts, w') \<Rightarrow> Some (Inr (), entered ts st r, w'))"
  by (simp add: set_domain_def slot_set_status_def prog_defs clock_def entered_def Let_def
        upd_const split: prod.split)

lemma entered_slot: "get (entered ts st r) = slot_set_at ts st (get r)"
  by (simp add: entered_def Let_def get_upd get_flag)

lemma entered_others: "others (entered ts st r) = others r"
  by (simp add: entered_def Let_def others_upd get_flag)

lemma entered_frame:
  "conn_state (entered ts st r) = conn_state r"
  "cgi (entered ts st r) = cgi r"
  "registration_interventions (entered ts st r) = registration_interventions r"
  "reg_check_time (entered ts st r) = reg_check_time r"
  "reg_start_time (entered ts st r) = reg_start_time r"
  "imsi_check_time (entered ts st r) = imsi_check_time r"
  by (simp_all add: entered_def Let_def conn_upd cgi_upd interventions_upd times_upd)

lemma entered_flag:
  "check_imsi (entered ts st r) \<longleftrightarrow>
     check_imsi r \<or> (\<not> slot_registered (get r) \<and> (st = Home \<or> st = Roaming))"
  by (auto simp: entered_def Let_def check_upd get_upd slot_registered_set)

end

interpretation csd_domain: reg_domain csd csd_update "\<lambda>r. (psd r, eps r)"
  by unfold_locales simp_all

interpretation psd_domain: reg_domain psd psd_update "\<lambda>r. (csd r, eps r)"
  by unfold_locales simp_all

interpretation eps_domain: reg_domain eps eps_update "\<lambda>r. (csd r, psd r)"
  by unfold_locales simp_all

text \<open>What a report makes of the state, given the time at which it is entered.\<close>

definition report_at :: "instant \<Rightarrow> registration_params \<Rightarrow> registration_state \<Rightarrow> registration_state" where
  "report_at ts p r =
     (case rp_reg_type p of
        Creg \<Rightarrow> update_cgi p (csd_domain.entered ts (rp_status p) r)
      | Cgreg \<Rightarrow> update_cgi p (psd_domain.entered ts (rp_status p) r)
      | Cereg \<Rightarrow> update_cgi p (eps_domain.entered ts (rp_status p) r)
      | Reg_Unknown \<Rightarrow> r)"

lemma compare_and_set_run:
  "compare_and_set e p (r, w) =
     (if rp_reg_type p = Reg_Unknown then Some (Inr (), r, w)
      else case now e w of (ts, w') \<Rightarrow> Some (Inr (), report_at ts p r, w'))"
  by (cases "rp_reg_type p")
    (simp_all add: compare_and_set_def report_at_def bindP_def modifyP_def okP_def
      csd_domain.set_domain_run psd_domain.set_domain_run eps_domain.set_domain_run
      split: prod.split)

lemma update_cgi_frame [simp]:
  "csd (update_cgi p r) = csd r" "psd (update_cgi p r) = psd r" "eps (update_cgi p r) = eps r"
  "conn_state (update_cgi p r) = conn_state r"
  "check_imsi (update_cgi p r) = check_imsi r"
  "registration_interventions (update_cgi p r) = registration_interventions r"
  "reg_check_time (update_cgi p r) = reg_check_time r"
  "reg_start_time (update_cgi p r) = reg_start_time r"
  "imsi_check_time (update_cgi p r) = imsi_check_time r"
  by (simp_all add: update_cgi_def)

lemma report_at_frame [simp]:
  "conn_state (report_at ts p r) = conn_state r"
  "registration_interventions (report_at ts p r) = registration_interventions r"
  "reg_check_time (report_at ts p r) = reg_check_time r"
  "reg_start_time (report_at ts p r) = reg_start_time r"
  "imsi_check_time (report_at ts p r) = imsi_check_time r"
  by (simp_all add: report_at_def csd_domain.entered_frame psd_domain.entered_frame
        eps_domain.entered_frame split: reg_type.split)

lemma halts_compare_and_set [halting, simp]: "halts (compare_and_set e p)"
  by (rule haltsI) (auto simp: compare_and_set_run split: prod.split)

lemma halts_registration_reset [halting, simp]: "halts (registration_reset e)"
  by (simp add: registration_reset_def halts_bindP halts_zoom)

lemma set_connection_state_eq: "set_connection_state c r = r\<lparr>conn_state := c\<rparr>"
  by (cases r) (simp add: set_connection_state_def)

lemma reset_slots_simps [simp]:
  "csd (reset_slots r) = slot_new" "psd (reset_slots r) = slot_new" "eps (reset_slots r) = slot_new"
  "conn_state (reset_slots r) = conn_state r"
  "registration_interventions (reset_slots r) = registration_interventions r"
  "check_imsi (reset_slots r) = check_imsi r" "cgi (reset_slots r) = cgi r"
  "reg_check_time (reset_slots r) = reg_check_time r"
  "reg_start_time (reset_slots r) = reg_start_time r"
  "imsi_check_time (reset_slots r) = imsi_check_time r"
  by (simp_all add: reset_slots_def slot_reset_eq)

lemma registration_reset_run:
  "registration_reset e (r, w) =
     (case now e w of (t1, w1) \<Rightarrow> case now e w1 of (t2, w2) \<Rightarrow>
        Some (Inr (), (reset_slots r)\<lparr>reg_check_time := Some t2, reg_start_time := Some t1,
                        imsi_check_time := None, registration_interventions := 1\<rparr>, w2))"
  by (simp add: registration_reset_def prog_defs clock_def split: prod.split)

lemma slot_new_simps [simp]:
  "slot_status slot_new = Status_None" "slot_updated slot_new = None" "slot_started slot_new = None"
  "\<not> slot_registered slot_new" "\<not> slot_sticky slot_new"
  by (simp_all add: slot_defs)

lemma network_stat_status:
  "(status_of_network_stat s = Home \<or> status_of_network_stat s = Roaming) = is_access_alive s"
  "status_of_network_stat s = Status_None \<longleftrightarrow> 6 \<le> network_registration_stat_code s"
  by (cases s; simp add: status_of_network_stat_def status_from_u8_def is_access_alive_def)+

lemma gprs_stat_status:
  "status_of_gprs_stat g = Home \<or> status_of_gprs_stat g = Roaming \<longleftrightarrow>
     g = gprs_network_registration_stat.Registered
     \<or> g = gprs_network_registration_stat.RegisteredRoaming"
  "status_of_gprs_stat g = Status_None \<longleftrightarrow> 6 \<le> gprs_network_registration_stat_code g"
  by (cases g; simp add: status_of_gprs_stat_def status_from_u8_def)+

lemma eps_stat_status:
  "status_of_eps_stat p = Home \<or> status_of_eps_stat p = Roaming \<longleftrightarrow>
     p = eps_network_registration_stat.Registered
     \<or> p = eps_network_registration_stat.RegisteredRoaming"
  "status_of_eps_stat p = Status_None \<longleftrightarrow> 6 \<le> eps_network_registration_stat_code p"
  by (cases p; simp add: status_of_eps_stat_def status_from_u8_def)+

section \<open>A slot and the history of its reports\<close>

text \<open>A list of reports is entered one by one; \<open>stamped\<close> has the reports that are entered, each with the time
  the clock showed, and \<open>reports_of\<close> those of a domain.\<close>

primrec enter_reports :: "'w env \<Rightarrow> registration_params list \<Rightarrow> (registration_state \<times> 'w, 'e, unit) prog" where
  "enter_reports e [] = okP ()"
| "enter_reports e (p # ps) = bindP (compare_and_set e p) (\<lambda>_. enter_reports e ps)"

primrec stamped :: "'w env \<Rightarrow> registration_params list \<Rightarrow> 'w \<Rightarrow> (instant \<times> registration_params) list" where
  "stamped e [] w = []"
| "stamped e (p # ps) w =
     (if rp_reg_type p = Reg_Unknown then stamped e ps w
      else (fst (now e w), p) # stamped e ps (snd (now e w)))"

definition reports_of :: "reg_type \<Rightarrow> (instant \<times> registration_params) list \<Rightarrow> (instant \<times> status) list" where
  "reports_of ty h = map (\<lambda>(t, p). (t, rp_status p)) (filter (\<lambda>(t, p). rp_reg_type p = ty) h)"

primrec slot_of :: "reg_type \<Rightarrow> registration_state \<Rightarrow> slot" where
  "slot_of Creg = csd"
| "slot_of Cgreg = psd"
| "slot_of Cereg = eps"
| "slot_of Reg_Unknown = (\<lambda>_. slot_new)"

abbreviation enter :: "(instant \<times> status) list \<Rightarrow> slot \<Rightarrow> slot" where
  "enter \<equiv> fold (\<lambda>(t, st). slot_set_at t st)"

lemma enter_reports_run:
  "\<exists>w'. enter_reports e ps (r, w) = Some (Inr (), fold (\<lambda>(t, p). report_at t p) (stamped e ps w) r, w')"
  by (induction ps arbitrary: r w) (auto simp: okP_def bindP_def compare_and_set_run split: prod.split)

lemma slot_of_report:
  assumes "ty \<noteq> Reg_Unknown"
  shows "slot_of ty (report_at t p r) =
    (if rp_reg_type p = ty then slot_set_at t (rp_status p) (slot_of ty r) else slot_of ty r)"
  using assms csd_domain.entered_others [of t "rp_status p" r] psd_domain.entered_others [of t "rp_status p" r]
    eps_domain.entered_others [of t "rp_status p" r]
  by (cases ty; cases "rp_reg_type p")
    (simp_all add: report_at_def csd_domain.entered_slot psd_domain.entered_slot eps_domain.entered_slot)

lemma slot_of_reports:
  assumes "ty \<noteq> Reg_Unknown"
  shows "slot_of ty (fold (\<lambda>(t, p). report_at t p) h r) = enter (reports_of ty h) (slot_of ty r)"
  by (induction h arbitrary: r) (simp_all add: reports_of_def slot_of_report [OF assms] split_beta)

lemma enter_status: "h \<noteq> [] \<Longrightarrow> slot_status (enter h s) = snd (last h)"
  by (induction h arbitrary: s) (auto simp: split_beta)

text \<open>The reports of a run after the first, and a run.\<close>

lemma enter_again:
  "\<forall>x \<in> set run. snd x = slot_status s \<Longrightarrow>
    enter run s = (if run = [] then s else s\<lparr>slot_updated := Some (fst (last run))\<rparr>)"
  by (induction run arbitrary: s) (auto simp: slot_set_at_def split_beta)

lemma enter_run:
  assumes "run \<noteq> []" "\<forall>x \<in> set run. snd x = st"
  shows "enter run s = \<lparr>slot_status = st, slot_updated = Some (fst (last run)),
    slot_started = (if slot_status s = st then slot_started s else Some (fst (hd run)))\<rparr>"
proof -
  obtain t run' where run: "run = (t, st) # run'" using assms by (cases run) auto
  have "enter run' (slot_set_at t st s) =
      (if run' = [] then slot_set_at t st s else (slot_set_at t st s)\<lparr>slot_updated := Some (fst (last run'))\<rparr>)"
    by (rule enter_again) (use assms(2) run in simp)
  then show ?thesis by (simp add: run slot_set_at_def)
qed

lemma hd_less_last: "sorted_wrt (<) (map fst run) \<Longrightarrow> run \<noteq> [] \<Longrightarrow>
  fst (last run) = fst (hd run) \<longleftrightarrow> length run < (2 :: nat)" for run :: "(instant \<times> 'a) list"
  by (cases run rule: remdups_adj.cases) (auto dest: last_in_set)

section \<open>Properties\<close>

text \<open>C12: a slot measures the run of equal reports that its history ends with. Enter any reports, of any
  domains, after a reset: the slot of a domain has the status of the newest report of its domain, when that report
  came, and when the run of equal ones began that it ends, so that its duration is the time since then; if reports come at
  increasing times it is sticky exactly when the run has more than one. The exception is a history that is one run of
  \<open>Status::None\<close>, the status of a slot without reports: it has no start, and is sticky from its first report on.\<close>

theorem slot_refines_history:
  assumes "ty \<noteq> Reg_Unknown" "slot_of ty r = slot_new"
    and "reports_of ty (stamped e ps w) = older @ run"
    and "run \<noteq> []" "\<forall>x \<in> set run. snd x = st" "older \<noteq> [] \<longrightarrow> snd (last older) \<noteq> st"
  shows "\<exists>r' w'. enter_reports e ps (r, w) = Some (Inr (), r', w')
    \<and> slot_status (slot_of ty r') = st
    \<and> slot_updated (slot_of ty r') = Some (fst (last run))
    \<and> slot_started (slot_of ty r') = (if older = [] \<and> st = Status_None then None else Some (fst (hd run)))
    \<and> slot_duration (slot_of ty r') t = (if older = [] \<and> st = Status_None then 0 else t - fst (hd run))
    \<and> (sorted_wrt (<) (map fst run) \<longrightarrow>
         slot_sticky (slot_of ty r') = (older = [] \<and> st = Status_None \<or> 2 \<le> length run))"
proof -
  have status: "slot_status (enter older slot_new) = (if older = [] then Status_None else snd (last older))"
    by (simp add: enter_status)
  have started: "slot_started (enter older slot_new) = None" if "older = []" using that by simp
  let ?r' = "fold (\<lambda>(t, p). report_at t p) (stamped e ps w) r"
  have slot: "slot_of ty ?r' = enter run (enter older slot_new)"
    by (simp add: slot_of_reports [OF assms(1)] assms(2,3))
  show ?thesis
    using enter_reports_run [of e ps r w] status started assms(6) hd_less_last [of run]
    by (elim exE, intro exI [of _ ?r'], unfold slot enter_run [OF assms(4,5)])
      (auto simp: slot_duration_simps slot_sticky_def assms(4))
qed

theorem slot_refines_history_witness:
  "\<exists>r' w'. enter_reports (script_env Toby_R2 default_config)
      (map (\<lambda>(d, s). \<lparr>rp_reg_type = d, rp_status = s, rp_act = rat_act.Gsm, rp_cell_id = None, rp_lac = None\<rparr>)
        [(Creg, Home), (Cereg, Searching), (Creg, Denied), (Reg_Unknown, Home), (Cereg, Home), (Creg, Denied)])
      (registration_new, script_start) = Some (Inr (), r', w')
    \<and> slot_status (csd r') = Denied \<and> slot_duration (csd r') 100 = 98 \<and> slot_sticky (csd r')"
proof -
  let ?e = "script_env Toby_R2 default_config"
  let ?ps = "map (\<lambda>(d, s). \<lparr>rp_reg_type = d, rp_status = s, rp_act = rat_act.Gsm, rp_cell_id = None, rp_lac = None\<rparr>)
        [(Creg, Home), (Cereg, Searching), (Creg, Denied), (Reg_Unknown, Home), (Cereg, Home), (Creg, Denied)]"
  have reports: "reports_of Creg (stamped ?e ?ps script_start) = [(0, Home)] @ [(2, Denied), (4, Denied)]"
    by (simp add: reports_of_def script_env_def script_start_def)
  from slot_refines_history [OF _ _ reports, of registration_new Denied 100] show ?thesis
    by (simp add: registration_new_def del: enter_reports.simps) blast
qed

text \<open>C18: a report enters the slot of its own domain, at the time the clock is read, and nothing else but this: it
  asks for the check of the IMSI if the domain becomes registered by it, and has the cell in which the module is
  if it names another one. The other two slots, the connection state, the three times of the registration and the
  intervention count stay, and a report of an unknown domain changes nothing.\<close>

theorem compare_and_set_enters_one_domain:
  assumes "compare_and_set e p (r, w) = Some (Inr (), r', w')"
  shows "csd r' = (if rp_reg_type p = Creg
                   then slot_set_at (fst (now e w)) (rp_status p) (csd r) else csd r)
       \<and> psd r' = (if rp_reg_type p = Cgreg
                   then slot_set_at (fst (now e w)) (rp_status p) (psd r) else psd r)
       \<and> eps r' = (if rp_reg_type p = Cereg
                   then slot_set_at (fst (now e w)) (rp_status p) (eps r) else eps r)
       \<and> conn_state r' = conn_state r
       \<and> registration_interventions r' = registration_interventions r
       \<and> reg_check_time r' = reg_check_time r
       \<and> reg_start_time r' = reg_start_time r
       \<and> imsi_check_time r' = imsi_check_time r
       \<and> check_imsi r' = (check_imsi r
            \<or> rp_reg_type p \<noteq> Reg_Unknown \<and> (rp_status p = Home \<or> rp_status p = Roaming)
              \<and> \<not> slot_registered (slot_of (rp_reg_type p) r))
       \<and> cgi r' = (if rp_reg_type p \<noteq> Reg_Unknown \<and> rp_cell_id p \<noteq> None \<and> cgi_cell_id (cgi r) \<noteq> rp_cell_id p
                   then \<lparr>cgi_cell_id = rp_cell_id p, cgi_lac = rp_lac p\<rparr> else cgi r)
       \<and> (rp_reg_type p = Reg_Unknown \<longrightarrow> r' = r)"
proof -
  have r': "r' = (if rp_reg_type p = Reg_Unknown then r else report_at (fst (now e w)) p r)"
    using assms by (simp add: compare_and_set_run split: if_splits prod.splits)
  have cell: "cgi (report_at (fst (now e w)) p r) = cgi (update_cgi p r)" if "rp_reg_type p \<noteq> Reg_Unknown"
    using that by (cases "rp_reg_type p")
      (simp_all add: report_at_def update_cgi_def csd_domain.entered_frame psd_domain.entered_frame eps_domain.entered_frame)
  have others: "csd r' = (if rp_reg_type p = Creg then slot_set_at (fst (now e w)) (rp_status p) (csd r) else csd r)"
    "psd r' = (if rp_reg_type p = Cgreg then slot_set_at (fst (now e w)) (rp_status p) (psd r) else psd r)"
    "eps r' = (if rp_reg_type p = Cereg then slot_set_at (fst (now e w)) (rp_status p) (eps r) else eps r)"
    using slot_of_report [of Creg "fst (now e w)" p r] slot_of_report [of Cgreg "fst (now e w)" p r]
      slot_of_report [of Cereg "fst (now e w)" p r] by (simp_all add: r')
  have flag: "check_imsi r' = (check_imsi r \<or> rp_reg_type p \<noteq> Reg_Unknown
      \<and> (rp_status p = Home \<or> rp_status p = Roaming) \<and> \<not> slot_registered (slot_of (rp_reg_type p) r))"
    by (cases "rp_reg_type p")
      (auto simp: r' report_at_def csd_domain.entered_flag psd_domain.entered_flag eps_domain.entered_flag)
  show ?thesis
    unfolding others flag by (auto simp: r' cell) (simp_all add: update_cgi_def)
qed

theorem compare_and_set_enters_one_domain_witness:
  "csd (report_at 0 \<lparr>rp_reg_type = Creg, rp_status = Home, rp_act = rat_act.Gsm,
          rp_cell_id = None, rp_lac = None\<rparr> registration_new)
   = slot_set_at 0 Home slot_new"
  using compare_and_set_enters_one_domain
    [of "script_env Toby_R2 default_config"
        "\<lparr>rp_reg_type = Creg, rp_status = Home, rp_act = rat_act.Gsm,
          rp_cell_id = None, rp_lac = None\<rparr>" registration_new script_start]
  by (simp add: compare_and_set_run script_env_def script_start_def registration_new_def)

text \<open>A registration domain survives the conversion to a radio access network and back, in
  both directions, and the numbers of the networks are read back as the networks.\<close>

theorem reg_type_ran_roundtrip:
  "reg_type_of_ran (ran_of_reg_type t) = t
   \<and> ran_of_reg_type (reg_type_of_ran n) = n
   \<and> ran_of_usize (ran_code n) = n"
  by (cases t; cases n) (simp_all add: ran_of_usize_def)

text \<open>The status read from a report of any of the three domains is one of the registered ones
  exactly for the two plain registered answers of the modem; in particular the answers
  \<open>RegisteredSmsOnly\<close>, \<open>RegisteredCsfbNotPerferred\<close>, their roaming forms and
  \<open>AttachedEmergencyOnly\<close> all become \<open>Status::None\<close>.\<close>

theorem registered_iff_access_alive:
  "slot_registered (slot_set_at ts (status_of_network_stat s) x) = is_access_alive s
   \<and> (slot_registered (slot_set_at ts (status_of_gprs_stat g) x) \<longleftrightarrow>
        g = gprs_network_registration_stat.Registered
        \<or> g = gprs_network_registration_stat.RegisteredRoaming)
   \<and> (slot_registered (slot_set_at ts (status_of_eps_stat p) x) \<longleftrightarrow>
        p = eps_network_registration_stat.Registered
        \<or> p = eps_network_registration_stat.RegisteredRoaming)
   \<and> (status_of_network_stat s = Status_None \<longleftrightarrow> 6 \<le> network_registration_stat_code s)
   \<and> (status_of_gprs_stat g = Status_None \<longleftrightarrow> 6 \<le> gprs_network_registration_stat_code g)
   \<and> (status_of_eps_stat p = Status_None \<longleftrightarrow> 6 \<le> eps_network_registration_stat_code p)"
  unfolding slot_registered_set
  by (intro conjI network_stat_status gprs_stat_status eps_stat_status)

end
