(* ===== verification/Network.thy ===== *)
theory Network
  imports Registration
begin

text \<open>
  \<open>network.rs\<close>: the AT port with its count of consecutive timeouts (\<open>at_tx\<close>), and the network
  state machine on top of it (\<open>network\<close>): following the URCs of the data connection, polling
  the registration, intervening when it is stuck, and asking for a modem reset.
\<close>

section \<open>The AT port\<close>

record 'w at_tx =
  tx_timeouts :: u8
  tx_world :: 'w

definition at_tx_new :: "'w \<Rightarrow> 'w at_tx" where
  "at_tx_new w = \<lparr>tx_timeouts = 0, tx_world = w\<rparr>"

abbreviation on_world :: "('w, 'e, 'a) prog \<Rightarrow> ('w at_tx, 'e, 'a) prog" where
  "on_world \<equiv> zoom tx_world (\<lambda>w t. t\<lparr>tx_world := w\<rparr>)"

text \<open>The closure given to \<open>map_err\<close>: it counts a timeout and passes the error on, with the
  variants \<open>network.rs\<close> does not name folded into \<open>atat::Error::Error\<close>.\<close>

definition tx_error :: "'w env \<Rightarrow> at_req \<Rightarrow> at_error \<Rightarrow> ('w at_tx, network_error, 'a) prog" where
  "tx_error e q err =
     (case err of
        At_Timeout \<Rightarrow>
          thenP (modifyP (\<lambda>t. t\<lparr>tx_timeouts := saturating_add_u8 (tx_timeouts t) (attempts e q)\<rparr>))
                (errP (Err_AT At_Timeout))
      | At_Read \<Rightarrow> errP (Err_AT At_Read)
      | At_Write \<Rightarrow> errP (Err_AT At_Write)
      | At_InvalidResponse \<Rightarrow> errP (Err_AT At_InvalidResponse)
      | At_Aborted \<Rightarrow> errP (Err_AT At_Aborted)
      | At_Parse \<Rightarrow> errP (Err_AT At_Parse)
      | _ \<Rightarrow> errP (Err_AT At_Error))"

definition at_send_ignore_timeout ::
    "'w env \<Rightarrow> 'r at_cmd \<Rightarrow> ('w at_tx, network_error, 'r) prog" where
  "at_send_ignore_timeout e c =
     bindP (attempt (on_world (send_retry e c))) (\<lambda>res.
       case res of
         Inl err \<Rightarrow> tx_error e (cmd_req c) err
       | Inr r \<Rightarrow> thenP (modifyP (\<lambda>t. t\<lparr>tx_timeouts := 0\<rparr>)) (okP r))"

definition at_send :: "'w env \<Rightarrow> 'r at_cmd \<Rightarrow> ('w at_tx, network_error, 'r) prog" where
  "at_send e c =
     bindP (attempt (on_world (send_retry e c))) (\<lambda>res.
       case res of
         Inl err \<Rightarrow> tx_error e (cmd_req c) err
       | Inr r \<Rightarrow> thenP (modifyP (\<lambda>t. t\<lparr>tx_timeouts := 0\<rparr>)) (okP r))"

text \<open>\<open>AtTx::handle_urc\<close>: the closure is a function on the variables it captures; what it
  returns besides is dropped.\<close>

definition at_handle_urc ::
    "'w env \<Rightarrow> (urc \<Rightarrow> 'c \<Rightarrow> 'c \<times> bool) \<Rightarrow> 'c \<Rightarrow> ('w at_tx, network_error, 'c) prog" where
  "at_handle_urc e f captured =
     bindP (on_world (try_next_message e Network_Sub)) (\<lambda>m.
       case m of
         None \<Rightarrow> okP captured
       | Some u \<Rightarrow> okP (fst (f u captured)))"

section \<open>The network\<close>

datatype context_state = Setup | Activating | Active

definition PROFILE_ID :: profile_id where
  "PROFILE_ID = 1"

definition REGISTRATION_CHECK_INTERVAL :: duration where
  "REGISTRATION_CHECK_INTERVAL = from_secs 15"

definition REGISTRATION_TIMEOUT :: duration where
  "REGISTRATION_TIMEOUT = from_secs (3 * 60)"

definition CHECK_IMSI_TIMEOUT :: duration where
  "CHECK_IMSI_TIMEOUT = from_secs 60"

record 'w network =
  net_status :: registration_state
  net_context :: context_state
  net_tx :: "'w at_tx"

definition network_new :: "'w at_tx \<Rightarrow> 'w network" where
  "network_new t = \<lparr>net_status = registration_new, net_context = Setup, net_tx = t\<rparr>"

abbreviation on_tx :: "('w at_tx, 'e, 'a) prog \<Rightarrow> ('w network, 'e, 'a) prog" where
  "on_tx \<equiv> zoom net_tx (\<lambda>t n. n\<lparr>net_tx := t\<rparr>)"

abbreviation net_world :: "'w network \<Rightarrow> 'w" where
  "net_world n \<equiv> tx_world (net_tx n)"

definition on_status :: "(registration_state \<times> 'w, 'e, 'a) prog \<Rightarrow> ('w network, 'e, 'a) prog" where
  "on_status =
     zoom (\<lambda>n. (net_status n, net_world n))
       (\<lambda>(r, w) n. n\<lparr>net_status := r, net_tx := (net_tx n)\<lparr>tx_world := w\<rparr>\<rparr>)"

definition net_clock :: "'w env \<Rightarrow> ('w network, 'e, instant) prog" where
  "net_clock e = on_tx (on_world (clock e))"

abbreviation modify_status ::
    "(registration_state \<Rightarrow> registration_state) \<Rightarrow> ('w network, 'e, unit) prog" where
  "modify_status f \<equiv> modifyP (\<lambda>n. n\<lparr>net_status := f (net_status n)\<rparr>)"

definition is_connected :: "'w network \<Rightarrow> bool" where
  "is_connected n \<longleftrightarrow> conn_state (net_status n) = Connected"

definition reset_reg_time :: "'w env \<Rightarrow> ('w network, network_error, unit) prog" where
  "reset_reg_time e =
     bindP (net_clock e) (\<lambda>t.
     thenP (modify_status (\<lambda>r. r\<lparr>reg_start_time := Some t\<rparr>))
           (modify_status (\<lambda>r. r\<lparr>reg_check_time := reg_start_time r\<rparr>)))"

text \<open>The closure of \<open>Network::handle_urc\<close>, on the context state it captures.\<close>

definition context_urc :: "urc \<Rightarrow> context_state \<Rightarrow> context_state \<times> bool" where
  "context_urc u ctx =
     (case u of
        NetworkDetach \<Rightarrow> (ctx, True)
      | MobileStationDetach \<Rightarrow> (ctx, True)
      | NetworkDeactivate \<Rightarrow> (ctx, True)
      | MobileStationDeactivate \<Rightarrow> (ctx, True)
      | NetworkPDNDeactivate \<Rightarrow> (ctx, True)
      | MobileStationPDNDeactivate \<Rightarrow> (ctx, True)
      | ExtendedPSNetworkRegistration _ \<Rightarrow> (ctx, True)
      | DataConnectionActivated result _ \<Rightarrow> (if result = 0 then Active else Setup, True)
      | DataConnectionDeactivated profile_id \<Rightarrow>
          (if profile_id = PROFILE_ID then Activating else ctx, True)
      | MessageWaitingIndication _ _ \<Rightarrow> (ctx, True)
      | _ \<Rightarrow> (ctx, False))"

definition handle_urc :: "'w env \<Rightarrow> ('w network, network_error, unit) prog" where
  "handle_urc e =
     bindP (getsP net_context) (\<lambda>ctx_state.
     bindP (on_tx (at_handle_urc e context_urc ctx_state)) (\<lambda>ctx_state.
     modifyP (\<lambda>n. n\<lparr>net_context := ctx_state\<rparr>)))"

definition send_internal :: "'w env \<Rightarrow> 'r at_cmd \<Rightarrow> bool \<Rightarrow> ('w network, network_error, 'r) prog" where
  "send_internal e c check_urc =
     thenP (whenP check_urc (bindP (attempt (handle_urc e)) (\<lambda>_. okP ())))
           (on_tx (at_send e c))"

section \<open>Watching the registration\<close>

text \<open>\<open>time.and_then(|t| now.checked_duration_since(t).map(|d| d >= limit)).unwrap_or(default)\<close>.\<close>

definition elapsed :: "instant option \<Rightarrow> instant \<Rightarrow> duration \<Rightarrow> bool \<Rightarrow> bool" where
  "elapsed since t limit absent =
     (case Option.bind since (checked_duration_since t) of None \<Rightarrow> absent | Some d \<Rightarrow> limit \<le> d)"

definition check_running_imsi :: "'w env \<Rightarrow> ('w network, network_error, unit) prog" where
  "check_running_imsi e =
     bindP (net_clock e) (\<lambda>t.
     bindP (getsP (\<lambda>n.
       elapsed (imsi_check_time (net_status n)) t CHECK_IMSI_TIMEOUT True)) (\<lambda>check.
     whenP check
       (thenP
         (bindP (attempt (send_internal e get_cimi False)) (\<lambda>res.
            case res of
              Inr _ \<Rightarrow> okP ()
            | Inl _ \<Rightarrow> send_internal e (plain AT) False))
         (modify_status (\<lambda>r. r\<lparr>imsi_check_time := Some t\<rparr>)))))"

definition check_registration_state :: "'w env \<Rightarrow> ('w network, network_error, unit) prog" where
  "check_registration_state e =
     bindP (getsP net_status) (\<lambda>r.
       if conn_state r = Disconnected then okP ()
       else if slot_registered (csd r) \<and> slot_registered (psd r) \<or> slot_registered (eps r) then
         modify_status (set_connection_state Connected)
       else if conn_state r = Connected then
         thenP (on_status (registration_reset e)) (modify_status (set_connection_state Connecting))
       else okP ())"

definition set_functionality ::
    "'w env \<Rightarrow> functionality \<Rightarrow> reset_mode option \<Rightarrow> bool \<Rightarrow> ('w network, network_error, unit) prog" where
  "set_functionality e f rst check =
     send_internal e (plain (Mobile_Control (SetModuleFunctionality f rst))) check"

text \<open>\<open>rst: None\<close> under \<open>sara-r5\<close>, \<open>Some(DontReset)\<close> otherwise.\<close>

definition min_reset_mode :: "'w env \<Rightarrow> reset_mode option" where
  "min_reset_mode e = (if variant e = Sara_R5 then None else Some DontReset)"

text \<open>The two commands of an RF reset.\<close>

definition rf_reset :: "'w env \<Rightarrow> bool \<Rightarrow> ('w network, network_error, unit) prog" where
  "rf_reset e check =
     thenP (set_functionality e functionality.Minimum (min_reset_mode e) check)
           (set_functionality e functionality.Full (Some DontReset) check)"

definition select_operator :: "'w env \<Rightarrow> bool \<Rightarrow> ('w network, network_error, unit) prog" where
  "select_operator e check =
     send_internal e (plain (Network_Service (SetOperatorSelection Automatic (Some 2)))) check"

definition count_intervention :: "registration_state \<Rightarrow> registration_state" where
  "count_intervention r =
     r\<lparr>registration_interventions := saturating_add_u8 (registration_interventions r) 1\<rparr>"

definition intervention_timeout :: "registration_state \<Rightarrow> duration" where
  "intervention_timeout r = from_secs (unat (registration_interventions r) * 15)"

definition stuck :: "slot \<Rightarrow> registration_state \<Rightarrow> instant \<Rightarrow> bool" where
  "stuck s r t \<longleftrightarrow> slot_sticky s \<and> intervention_timeout r \<le> slot_duration s t"

text \<open>The last intervention: CSD is registered, PSD and EPS are not attempting.\<close>

definition intervene_psd ::
    "'w env \<Rightarrow> registration_state \<Rightarrow> instant \<Rightarrow> ('w network, network_error, unit) prog" where
  "intervene_psd e r t =
     (if slot_registered (csd r) \<and> stuck (psd r) r t
         \<and> slot_status (psd r) = NotRegistering \<and> slot_status (eps r) = NotRegistering then
        thenP (modify_status (\<lambda>r. count_intervention (r\<lparr>psd := slot_reset (psd r)\<rparr>)))
       (thenP (send_internal e get_pdp_context_state True)
       (bindP (attempt (send_internal e
                 (plain (Psn_Context (SetPDPContextState Activated None))) True)) (\<lambda>res.
          whenP (is_err res)
            (thenP (modify_status reset_slots) (select_operator e True)))))
      else okP ())"

text \<open>The second: CSD and PSD are denied (the code takes CSD roaming for denied as well).\<close>

definition intervene_csd ::
    "'w env \<Rightarrow> registration_state \<Rightarrow> instant \<Rightarrow> ('w network, network_error, unit) prog" where
  "intervene_csd e r t =
     (if stuck (csd r) r t
         \<and> (slot_status (csd r) = Denied \<or> slot_status (csd r) = Roaming)
         \<and> slot_status (psd r) = Denied then
        thenP (modify_status (\<lambda>r. count_intervention (reset_slots r))) (rf_reset e False)
      else intervene_psd e r t)"

definition intervene_registration :: "'w env \<Rightarrow> ('w network, network_error, unit) prog" where
  "intervene_registration e =
     bindP (getsP net_status) (\<lambda>r.
       if conn_state r \<noteq> Connecting then okP ()
       else
         bindP (net_clock e) (\<lambda>t.
           if stuck (eps r) r t then
             (if slot_status (eps r) = NotRegistering \<and> slot_status (csd r) = NotRegistering then
                thenP (modify_status (\<lambda>r. count_intervention (reset_slots r)))
               (bindP (attempt (select_operator e False)) (\<lambda>_. okP ()))
              else if slot_status (eps r) = Denied \<and> slot_status (csd r) = Denied then
                thenP (modify_status (\<lambda>r. count_intervention (reset_slots r))) (rf_reset e False)
              else intervene_csd e r t)
           else intervene_csd e r t))"

text \<open>\<open>if let Ok(reg) = ... { compare_and_set(reg.into()) }\<close>.\<close>

definition poll :: "'w env \<Rightarrow> 'r at_cmd \<Rightarrow> ('r \<Rightarrow> registration_params) \<Rightarrow> ('w network, network_error, unit) prog" where
  "poll e c into =
     bindP (attempt (send_internal e c False)) (\<lambda>res.
       case res of
         Inr reg \<Rightarrow> on_status (compare_and_set e (into reg))
       | Inl _ \<Rightarrow> okP ())"

definition update_registration :: "'w env \<Rightarrow> ('w network, network_error, unit) prog" where
  "update_registration e =
     thenP (bindP (attempt (send_internal e get_extended_error_report False)) (\<lambda>_. okP ()))
    (thenP (poll e get_network_registration params_of_network)
    (thenP (poll e get_gprs_registration params_of_gprs)
           (poll e get_eps_registration params_of_eps)))"

text \<open>\<open>process_events\<close>, from the check of the polling interval on.\<close>

definition poll_registration :: "'w env \<Rightarrow> ('w network, network_error, unit) prog" where
  "poll_registration e =
     bindP (net_clock e) (\<lambda>t.
     bindP (getsP (\<lambda>n.
       elapsed (reg_check_time (net_status n)) t REGISTRATION_CHECK_INTERVAL True)) (\<lambda>should_check.
     if \<not> should_check then okP ()
     else
       thenP (modify_status (\<lambda>r. r\<lparr>reg_check_time := Some t\<rparr>))
      (thenP (update_registration e)
      (bindP (net_clock e) (\<lambda>t.
       bindP (getsP (\<lambda>n.
         elapsed (reg_start_time (net_status n)) t REGISTRATION_TIMEOUT False)) (\<lambda>is_timeout.
       bindP (getsP net_status) (\<lambda>r.
         if conn_state r = Connecting \<and> is_timeout then errP (Generic Timeout)
         else okP ())))))))"

definition net_process_events :: "'w env \<Rightarrow> ('w network, network_error, unit) prog" where
  "net_process_events e =
     bindP (getsP (\<lambda>n. tx_timeouts (net_tx n))) (\<lambda>consecutive_timeouts.
       if 10 < consecutive_timeouts then
         thenP (modifyP (\<lambda>n. n\<lparr>net_tx := (net_tx n)\<lparr>tx_timeouts := 0\<rparr>\<rparr>))
               (errP (Generic Timeout))
       else
         thenP (bindP (attempt (handle_urc e)) (\<lambda>_. okP ()))
        (thenP (check_registration_state e)
        (thenP (intervene_registration e)
        (thenP (bindP (attempt (check_running_imsi e)) (\<lambda>_. okP ()))
               (poll_registration e)))))"

section \<open>Runs of the port\<close>

lemma tx_error_run:
  "tx_error e q err t =
     Some (Inl (Err_AT (if err = At_Other then At_Error else err)),
       if err = At_Timeout
       then t\<lparr>tx_timeouts := saturating_add_u8 (tx_timeouts t) (attempts e q)\<rparr> else t)"
  by (cases err) (simp_all add: tx_error_def prog_defs)

lemma at_send_run:
  "at_send e c t =
     (case send_retry e c (tx_world t) of
        None \<Rightarrow> None
      | Some (Inr r, w) \<Rightarrow> Some (Inr r, \<lparr>tx_timeouts = 0, tx_world = w\<rparr>)
      | Some (Inl err, w) \<Rightarrow>
          Some (Inl (Err_AT (if err = At_Other then At_Error else err)),
            \<lparr>tx_timeouts = (if err = At_Timeout
                            then saturating_add_u8 (tx_timeouts t) (attempts e (cmd_req c))
                            else tx_timeouts t),
             tx_world = w\<rparr>))"
  by (cases t)
    (auto simp: at_send_def bindP_def attempt_def zoom_def tx_error_run thenP_def modifyP_def
      okP_def split: option.splits sum.splits)

lemma at_send_ignore_timeout_eq: "at_send_ignore_timeout e c = at_send e c"
  by (simp add: at_send_ignore_timeout_def at_send_def)

lemma halts_at_send [halting, simp]: "halts (at_send e c)"
proof (rule haltsI)
  fix t :: "'a at_tx"
  obtain r w where "send_retry e c (tx_world t) = Some (r, w)"
    using haltsD [OF halts_send_retry [of e c], of "tx_world t"] by blast
  then show "at_send e c t \<noteq> None" by (cases r) (simp_all add: at_send_run)
qed

lemma handle_urc_run:
  "handle_urc e n =
     (case next_urc e Network_Sub (net_world n) of (m, w) \<Rightarrow>
        Some (Inr (), n\<lparr>net_context := (case m of None \<Rightarrow> net_context n
                                        | Some u \<Rightarrow> fst (context_urc u (net_context n))),
                        net_tx := (net_tx n)\<lparr>tx_world := w\<rparr>\<rparr>))"
  by (cases n)
    (auto simp: handle_urc_def at_handle_urc_def prog_defs try_next_message_def
      split: prod.split option.split)

lemma halts_handle_urc [halting, simp]: "halts (handle_urc e)"
  by (rule haltsI) (simp add: handle_urc_run split: prod.split)

lemma halts_send_internal [halting, simp]: "halts (send_internal e c b)"
  by (simp add: send_internal_def halts_thenP halts_whenP halts_bindP halts_attempt halts_zoom)

lemma halts_net_clock [halting, simp]: "halts (net_clock e)"
  by (simp add: net_clock_def halts_zoom)

lemma halts_on_status [halting]: "halts m \<Longrightarrow> halts (on_status m)"
  by (simp add: on_status_def halts_zoom)

text \<open>Sending leaves the registration alone and fails with an AT error only.\<close>

lemma wp_send_internal:
  assumes "\<And>r n'. net_status n' = net_status n \<Longrightarrow> Q r n'"
    and "\<And>x n'. net_status n' = net_status n \<Longrightarrow> E (Err_AT x) n'"
  shows "wp (send_internal e c b) Q E n"
  using assms
  by (auto simp: wp_def send_internal_def thenP_def bindP_def whenP_def attempt_def okP_def zoom_def
      handle_urc_run at_send_run split: option.splits sum.splits prod.splits)

lemma wp_net_clock:
  assumes "\<And>t w. now e (net_world n) = (t, w) \<Longrightarrow> Q t (n\<lparr>net_tx := (net_tx n)\<lparr>tx_world := w\<rparr>\<rparr>)"
  shows "wp (net_clock e) Q E n"
  using assms by (simp add: net_clock_def) (rule wp_clock, simp)

lemma wp_handle_urc:
  assumes "\<And>n'. net_status n' = net_status n \<Longrightarrow> Q () n'"
  shows "wp (handle_urc e) Q E n"
  using assms by (simp add: wp_def handle_urc_run split: prod.split)

end
