(* ===== verification/Network_Proofs.thy ===== *)
theory Network_Proofs
  imports Network
begin

text \<open>
  What holds of the network state machine of \<open>Network\<close>. The locales \<open>net_relation\<close> and
  \<open>net_frame\<close> carry a relation through every operation; they are interpreted for the moves of
  the PDP context, the requests sent, the passing of time and the part of the registration that
  polling leaves alone. The properties follow: the count of timeouts and the reset it leads to,
  the decisions on the connection state, the interventions, the polling, and termination.
\<close>

section \<open>Relations the network keeps\<close>

text \<open>The requests of the polling, of the IMSI check and of the interventions.\<close>

definition poll_queries :: "at_req list" where
  "poll_queries =
     [Mobile_Control GetExtendedErrorReport, Network_Service GetNetworkRegistrationStatus,
      Psn_Registration GetGPRSNetworkRegistrationStatus,
      Psn_Registration GetEPSNetworkRegistrationStatus]"

definition imsi_queries :: "at_req list" where
  "imsi_queries = [General GetCIMI, AT]"

definition intervention_requests :: "'w env \<Rightarrow> at_req list" where
  "intervention_requests e =
     [Network_Service (SetOperatorSelection Automatic (Some 2)),
      Mobile_Control (SetModuleFunctionality functionality.Minimum (min_reset_mode e)),
      Mobile_Control (SetModuleFunctionality functionality.Full (Some DontReset)),
      Psn_Context GetPDPContextState, Psn_Context (SetPDPContextState Activated None)]"

text \<open>
  A relation between network states that holds across every contact with the outside: reading
  the clock, taking a URC, sending an allowed request whatever the count becomes.
  \<open>net_frame\<close> adds that it does not look at the registration; then every operation of the
  network keeps it, as long as the requests it sends are allowed.
\<close>

locale net_relation = step_relation R for R :: "'w network \<Rightarrow> 'w network \<Rightarrow> bool" +
  fixes e :: "'w env" and allowed :: "at_req \<Rightarrow> bool"
  assumes R_clock:
      "now e (net_world n) = (t, w) \<Longrightarrow> R n (n\<lparr>net_tx := (net_tx n)\<lparr>tx_world := w\<rparr>\<rparr>)"
    and R_urc:
      "next_urc e Network_Sub (net_world n) = (m, w) \<Longrightarrow>
       R n (n\<lparr>net_context := (case m of None \<Rightarrow> net_context n
                               | Some u \<Rightarrow> fst (context_urc u (net_context n))),
              net_tx := (net_tx n)\<lparr>tx_world := w\<rparr>\<rparr>)"
    and R_send:
      "allowed q \<Longrightarrow> send_raw e q (net_world n) = (x, w) \<Longrightarrow>
       R n (n\<lparr>net_tx := \<lparr>tx_timeouts = k, tx_world = w\<rparr>\<rparr>)"
begin

lemma net_clock: "keeps R (net_clock e)"
  by (rule keepsI)
    (auto simp: net_clock_def zoom_def clock_def intro: R_clock split: prod.splits)

lemma handle_urc: "keeps R (handle_urc e)"
  by (rule keepsI) (auto simp: handle_urc_run intro: R_urc split: prod.splits)

lemma on_tx_send:
  assumes "allowed (cmd_req c)"
  shows "keeps R (on_tx (at_send e c))"
proof (rule keepsI)
  fix n n' :: "'w network" and r
  assume run: "on_tx (at_send e c) n = Some (r, n')"
  obtain x w where "send_raw e (cmd_req c) (net_world n) = (x, w)" by fastforce
  with run R_send [OF assms] show "R n n'"
    by (auto simp: zoom_def at_send_run send_retry_def split: sum.splits option.splits)
qed

lemma send_internal:
  assumes "allowed (cmd_req c)"
  shows "keeps R (send_internal e c b)"
  unfolding send_internal_def
  by (intro thenP whenP bindP attempt okP handle_urc on_tx_send assms)

lemmas net_rules = rules net_clock handle_urc send_internal

end

locale net_frame = net_relation R e allowed
  for R :: "'w network \<Rightarrow> 'w network \<Rightarrow> bool" and e :: "'w env" and allowed :: "at_req \<Rightarrow> bool" +
  assumes R_status: "R n (n\<lparr>net_status := r\<rparr>)"
    and R_count: "R n (n\<lparr>net_tx := (net_tx n)\<lparr>tx_timeouts := k\<rparr>\<rparr>)"
begin

lemma status: "keeps R (modify_status f)"
  by (rule modifyP) (rule R_status)

lemma clock_on_status:
  "now e (net_world n) = (t, w) \<Longrightarrow>
   R n (n\<lparr>net_status := r, net_tx := (net_tx n)\<lparr>tx_world := w\<rparr>\<rparr>)"
  using R_trans [OF R_clock R_status, of n t w r] by (cases n) simp

lemma on_status_compare: "keeps R (on_status (compare_and_set e p))"
proof (rule keepsI)
  fix n r n'
  assume "on_status (compare_and_set e p) n = Some (r, n')"
  then show "R n n'"
    using R_status [of n "net_status n"]
    by (auto simp: on_status_def zoom_def compare_and_set_run intro: clock_on_status
        split: prod.splits if_splits)
qed

lemma on_status_reset: "keeps R (on_status (registration_reset e))"
proof (rule keepsI)
  fix n n' :: "'w network" and r
  assume run: "on_status (registration_reset e) n = Some (r, n')"
  obtain t1 w1 where 1: "now e (net_world n) = (t1, w1)" by fastforce
  obtain t2 w2 where 2: "now e w1 = (t2, w2)" by fastforce
  let ?n1 = "n\<lparr>net_tx := (net_tx n)\<lparr>tx_world := w1\<rparr>\<rparr>"
  have "R n ?n1" by (rule R_clock) (rule 1)
  moreover have "R ?n1 (?n1\<lparr>net_status := s, net_tx := (net_tx ?n1)\<lparr>tx_world := w2\<rparr>\<rparr>)" for s
    by (rule clock_on_status) (simp add: 2)
  ultimately have "R n (?n1\<lparr>net_status := s, net_tx := (net_tx ?n1)\<lparr>tx_world := w2\<rparr>\<rparr>)" for s
    using R_trans by blast
  with run 1 2 show "R n n'"
    by (auto simp: on_status_def zoom_def registration_reset_run)
qed

lemmas frame_rules = net_rules status on_status_compare on_status_reset

lemma check_registration_state: "keeps R (check_registration_state e)"
  unfolding check_registration_state_def by (intro frame_rules)

lemma poll:
  assumes "allowed (cmd_req c)"
  shows "keeps R (poll e c into)"
  unfolding poll_def by (intro frame_rules assms)

lemma update_registration:
  assumes "\<And>q. q \<in> set poll_queries \<Longrightarrow> allowed q"
  shows "keeps R (update_registration e)"
  unfolding update_registration_def
  by (intro frame_rules poll assms) (simp_all add: poll_queries_def)

lemma poll_registration:
  assumes "\<And>q. q \<in> set poll_queries \<Longrightarrow> allowed q"
  shows "keeps R (poll_registration e)"
  unfolding poll_registration_def by (intro frame_rules update_registration assms)

lemma check_running_imsi:
  assumes "\<And>q. q \<in> set imsi_queries \<Longrightarrow> allowed q"
  shows "keeps R (check_running_imsi e)"
  unfolding check_running_imsi_def
  by (intro frame_rules assms) (simp_all add: imsi_queries_def)

lemma intervene_registration:
  assumes "\<And>q. q \<in> set (intervention_requests e) \<Longrightarrow> allowed q"
  shows "keeps R (intervene_registration e)"
  unfolding intervene_registration_def intervene_csd_def intervene_psd_def rf_reset_def
    set_functionality_def select_operator_def
  by (intro frame_rules assms) (simp_all add: intervention_requests_def)

lemma process_events:
  assumes "\<And>q. q \<in> set (poll_queries @ imsi_queries @ intervention_requests e) \<Longrightarrow> allowed q"
  shows "keeps R (net_process_events e)"
  unfolding net_process_events_def using assms
  by (intro frame_rules check_registration_state intervene_registration check_running_imsi
      poll_registration) (simp_all add: R_count)

end

text \<open>Three relations the code keeps. The context moves along URCs only; the requests sent are
  allowed ones; the clock does not go back.\<close>

inductive urc_step :: "urc set \<Rightarrow> context_state \<Rightarrow> context_state \<Rightarrow> bool" for U where
  activated: "DataConnectionActivated 0 a \<in> U \<Longrightarrow> urc_step U c Active"
| refused: "DataConnectionActivated r a \<in> U \<Longrightarrow> r \<noteq> 0 \<Longrightarrow> urc_step U c Setup"
| deactivated: "DataConnectionDeactivated PROFILE_ID \<in> U \<Longrightarrow> urc_step U c Activating"

inductive_cases urc_step_to_Active: "urc_step U c Active"
inductive_cases urc_step_to_Setup: "urc_step U c Setup"

inductive_simps urc_step_iff: "urc_step U c c'"

text \<open>The URCs the network subscription can yield are among \<open>U\<close>.\<close>

definition urcs_within :: "urc set \<Rightarrow> 'w env \<Rightarrow> bool" where
  "urcs_within U e \<longleftrightarrow> (\<forall>w u. fst (next_urc e Network_Sub w) = Some u \<longrightarrow> u \<in> U)"

lemma context_urc_step:
  "u \<in> U \<Longrightarrow> fst (context_urc u c) = c \<or> urc_step U c (fst (context_urc u c))"
  by (cases u) (auto simp: context_urc_def intro: urc_step.intros)

definition context_moves :: "urc set \<Rightarrow> 'w network \<Rightarrow> 'w network \<Rightarrow> bool" where
  "context_moves U n n' \<longleftrightarrow> (urc_step U)\<^sup>*\<^sup>* (net_context n) (net_context n')"

lemma context_moves_frame:
  assumes "urcs_within U e"
  shows "net_frame (context_moves U) e (\<lambda>_. True)"
proof
  fix n :: "'a network" and m w
  assume "next_urc e Network_Sub (net_world n) = (m, w)"
  then have "u \<in> U" if "m = Some u" for u
    using assms that by (metis fst_conv urcs_within_def)
  then show "context_moves U n
     (n\<lparr>net_context := (case m of None \<Rightarrow> net_context n
                         | Some u \<Rightarrow> fst (context_urc u (net_context n))),
        net_tx := (net_tx n)\<lparr>tx_world := w\<rparr>\<rparr>)"
    using context_urc_step [of _ U "net_context n"]
    by (cases m) (simp_all add: context_moves_def, metis r_into_rtranclp rtranclp.rtrancl_refl)
qed (auto simp: context_moves_def)

definition sends_only :: "at_req set \<Rightarrow> ('w \<times> at_req list) network \<Rightarrow> ('w \<times> at_req list) network \<Rightarrow> bool" where
  "sends_only Q n n' \<longleftrightarrow>
     (\<exists>qs. sent (net_world n') = sent (net_world n) @ qs \<and> set qs \<subseteq> Q)"

interpretation log: net_frame "sends_only Q" "logged e" "\<lambda>q. q \<in> Q" for Q e
proof
  show "sends_only Q n n" for n by (auto simp: sends_only_def)
  show "sends_only Q n n'" if "sends_only Q n m" "sends_only Q m n'" for n m n'
    using that by (fastforce simp: sends_only_def)
  show "sends_only Q n (n\<lparr>net_tx := \<lparr>tx_timeouts = k, tx_world = w\<rparr>\<rparr>)"
    if "q \<in> Q" "send_raw (logged e) q (net_world n) = (x, w)" for q n x w k
    using that by (cases "net_world n") (auto simp: sends_only_def logged_def split: prod.splits)
qed (auto simp: sends_only_def logged_def split: prod.splits)

definition time_passes :: "('w \<Rightarrow> instant) \<Rightarrow> 'w network \<Rightarrow> 'w network \<Rightarrow> bool" where
  "time_passes clk n n' \<longleftrightarrow> clk (net_world n) \<le> clk (net_world n')"

lemma time_passes_frame:
  assumes "monotone_world e clk"
  shows "net_frame (time_passes clk) e (\<lambda>_. True)"
proof
  show "time_passes clk n (n\<lparr>net_tx := \<lparr>tx_timeouts = k, tx_world = w\<rparr>\<rparr>)"
    if "send_raw e q (net_world n) = (x, w)" for n q x w k
    using assms that unfolding monotone_world_def time_passes_def
    by simp (metis snd_conv)
  show "time_passes clk n (n\<lparr>net_tx := (net_tx n)\<lparr>tx_world := w\<rparr>\<rparr>)"
    if "now e (net_world n) = (t, w)" for n t w
    using assms that unfolding monotone_world_def time_passes_def
    by simp (metis snd_conv)
  show "time_passes clk n
     (n\<lparr>net_context := (case m of None \<Rightarrow> net_context n
                         | Some u \<Rightarrow> fst (context_urc u (net_context n))),
        net_tx := (net_tx n)\<lparr>tx_world := w\<rparr>\<rparr>)"
    if "next_urc e Network_Sub (net_world n) = (m, w)" for n m w
    using assms that unfolding monotone_world_def time_passes_def
    by simp (metis snd_conv)
qed (auto simp: time_passes_def)

section \<open>What polling and intervening leave alone\<close>

text \<open>Everything but \<open>check_registration_state\<close> keeps the connection state and the start of the
  registration, and never lowers the number of interventions.\<close>

definition steady :: "'w network \<Rightarrow> 'w network \<Rightarrow> bool" where
  "steady n n' \<longleftrightarrow>
     conn_state (net_status n') = conn_state (net_status n)
     \<and> reg_start_time (net_status n') = reg_start_time (net_status n)
     \<and> unat (registration_interventions (net_status n))
        \<le> unat (registration_interventions (net_status n'))"

interpretation steady: net_relation steady e "\<lambda>_. True" for e
  by unfold_locales (auto simp: steady_def)

lemma steady_status:
  assumes "\<And>r. conn_state (f r) = conn_state r" "\<And>r. reg_start_time (f r) = reg_start_time r"
    and "\<And>r. unat (registration_interventions r) \<le> unat (registration_interventions (f r))"
  shows "keeps steady (modify_status f)"
  by (rule steady.modifyP) (simp add: steady_def assms)

lemma count_intervention_simps [simp]:
  "conn_state (count_intervention r) = conn_state r"
  "reg_start_time (count_intervention r) = reg_start_time r"
  "imsi_check_time (count_intervention r) = imsi_check_time r"
  "registration_interventions (count_intervention r) =
     saturating_add_u8 (registration_interventions r) 1"
  by (simp_all add: count_intervention_def)

lemma steady_compare: "keeps steady (on_status (compare_and_set e p))"
  by (rule keepsI)
    (auto simp: on_status_def zoom_def compare_and_set_run steady_def split: prod.splits if_splits)

lemma steady_poll: "keeps steady (poll e c into)"
  unfolding poll_def by (intro steady.net_rules steady_compare) simp_all

lemma steady_update_registration: "keeps steady (update_registration e)"
  unfolding update_registration_def by (intro steady.net_rules steady_poll) simp_all

lemma steady_poll_registration: "keeps steady (poll_registration e)"
  unfolding poll_registration_def
  by (intro steady.net_rules steady_update_registration) (simp add: steady_def)

lemma steady_check_running_imsi: "keeps steady (check_running_imsi e)"
  unfolding check_running_imsi_def
  by (intro steady.net_rules steady_status) simp_all

lemma steady_intervene: "keeps steady (intervene_registration e)"
  unfolding intervene_registration_def intervene_csd_def intervene_psd_def rf_reset_def
    set_functionality_def select_operator_def
  by (intro steady.net_rules steady_status) (simp_all add: saturating_add_u8_ge)

lemmas steady_rules =
  steady_update_registration steady_poll_registration steady_check_running_imsi steady_intervene
  steady.handle_urc

lemma check_registration_state_run:
  "check_registration_state e n =
     (let r = net_status n in
      if conn_state r = Disconnected then Some (Inr (), n)
      else if slot_registered (csd r) \<and> slot_registered (psd r) \<or> slot_registered (eps r) then
        Some (Inr (), n\<lparr>net_status := r\<lparr>conn_state := Connected\<rparr>\<rparr>)
      else if conn_state r = Connected then
        (case now e (net_world n) of (t1, w1) \<Rightarrow> case now e w1 of (t2, w2) \<Rightarrow>
           Some (Inr (), n\<lparr>net_status := (reset_slots r)\<lparr>reg_check_time := Some t2,
               reg_start_time := Some t1, imsi_check_time := None, registration_interventions := 1,
               conn_state := Connecting\<rparr>, net_tx := (net_tx n)\<lparr>tx_world := w2\<rparr>\<rparr>))
      else Some (Inr (), n))"
  by (simp add: check_registration_state_def bindP_def getsP_def modifyP_def thenP_def okP_def
      on_status_def zoom_def registration_reset_run set_connection_state_eq Let_def
      split: prod.split)

section \<open>Total operations\<close>

lemma halts_check_registration_state [halting, simp]: "halts (check_registration_state e)"
  by (rule haltsI) (simp add: check_registration_state_run Let_def split: prod.split)

lemma halts_update_registration [halting, simp]: "halts (update_registration e)"
  by (simp add: update_registration_def poll_def halts_thenP halts_bindP halts_attempt
      halts_on_status split: sum.split)

lemma halts_poll_registration [halting, simp]: "halts (poll_registration e)"
  by (simp add: poll_registration_def halts_thenP halts_bindP)

lemma halts_check_running_imsi [halting, simp]: "halts (check_running_imsi e)"
  by (simp add: check_running_imsi_def halts_thenP halts_bindP halts_whenP halts_attempt
      split: sum.split)

lemma halts_intervene_registration [halting, simp]: "halts (intervene_registration e)"
  by (simp add: intervene_registration_def intervene_csd_def intervene_psd_def rf_reset_def
      set_functionality_def select_operator_def halts_thenP halts_bindP halts_whenP halts_attempt)

lemma halts_net_process_events [halting, simp]: "halts (net_process_events e)"
  by (simp add: net_process_events_def halts_thenP halts_bindP halts_attempt)

section \<open>Errors\<close>

text \<open>Polling the registration never fails; an intervention fails with an AT error only.\<close>

lemma poll_no_error: "poll e c into n \<noteq> Some (Inl x, n')"
  by (auto simp: poll_def bindP_def attempt_def on_status_def zoom_def compare_and_set_run okP_def
      split: option.splits sum.splits prod.splits if_splits)

lemma wp_poll:
  assumes "\<And>n'. steady n n' \<Longrightarrow> Q () n'"
  shows "wp (poll e c into) Q E n"
proof (rule wpI)
  show "Q a n'" if "poll e c into n = Some (Inr a, n')" for a n'
    using assms keepsD [OF steady_poll that] by simp
  show "E x n'" if "poll e c into n = Some (Inl x, n')" for x n'
    using that poll_no_error by blast
qed

lemma wp_update_registration:
  assumes "\<And>n'. steady n n' \<Longrightarrow> Q () n'"
  shows "wp (update_registration e) Q E n"
proof -
  have Q: "Q () n4" if "net_status n1 = net_status n" "steady n1 n2" "steady n2 n3" "steady n3 n4"
    for n1 n2 n3 n4
  proof (rule assms)
    from that(1) have "steady n n1" by (simp add: steady_def)
    with that show "steady n n4" using steady.R_trans by blast
  qed
  show ?thesis
    unfolding update_registration_def wp_thenP wp_bindP wp_attempt wp_okP
    by (intro wp_send_internal wp_poll) (blast intro: Q)+
qed

lemma wp_intervene_error:
  "wp (intervene_registration e) (\<lambda>_ _. True) (\<lambda>x _. \<exists>y. x = Err_AT y) n"
  by (auto simp: intervene_registration_def intervene_csd_def intervene_psd_def rf_reset_def
      set_functionality_def select_operator_def whenP_def intro!: wp_send_internal wp_net_clock)


text \<open>\<open>process_events\<close> asks for a modem reset for one of two reasons.\<close>

lemma elapsed_iff: "elapsed since t limit False \<longleftrightarrow> (\<exists>s. since = Some s \<and> s \<le> t \<and> limit \<le> t - s)"
  by (cases since) (simp_all add: elapsed_def checked_duration_since_def)

lemma wp_poll_registration:
  "wp (poll_registration e) (\<lambda>_ _. True)
     (\<lambda>x n'. x = Generic Timeout \<and> conn_state (net_status n') = Connecting
        \<and> (\<exists>s t w. reg_start_time (net_status n') = Some s \<and> now e w = (t, net_world n')
              \<and> s + REGISTRATION_TIMEOUT \<le> t)) n"
proof -
  have "0 < REGISTRATION_TIMEOUT" by (simp add: REGISTRATION_TIMEOUT_def from_secs_def)
  then show ?thesis
    by (auto simp: poll_registration_def elapsed_iff intro!: wp_net_clock wp_update_registration)
      fastforce
qed

text \<open>A registered network goes through \<open>process_events\<close> without an error.\<close>

lemma wp_registered_network:
  assumes "tx_timeouts (net_tx n) \<le> 10" "conn_state (net_status n) \<noteq> Disconnected"
    and "slot_registered (csd (net_status n)) \<and> slot_registered (psd (net_status n))
      \<or> slot_registered (eps (net_status n))"
  shows "wp (net_process_events e) (\<lambda>_ n'. conn_state (net_status n') = Connected) (\<lambda>_ _. False) n"
proof -
  have check: "wp (check_registration_state e) (\<lambda>_ n'. conn_state (net_status n') = Connected)
      (\<lambda>_ _. False) n1" if "net_status n1 = net_status n" for n1
    using assms(2,3) that by (simp add: wp_def check_registration_state_run Let_def)
  have poll: "wp (poll_registration e) (\<lambda>_ n'. conn_state (net_status n') = Connected) (\<lambda>_ _. False) n1"
    if "conn_state (net_status n1) = Connected" for n1 :: "'a network"
    using that by (auto simp: poll_registration_def steady_def intro!: wp_net_clock wp_update_registration)
  have imsi: "wp (check_running_imsi e) Q E n1"
    if "\<And>r n2. conn_state (net_status n2) = Connected \<Longrightarrow> Q r n2"
      "\<And>x n2. conn_state (net_status n2) = Connected \<Longrightarrow> E x n2"
      "conn_state (net_status n1) = Connected" for n1 :: "'a network" and Q E
    using that by (intro wpI) (auto dest: keepsD [OF steady_check_running_imsi] simp: steady_def)
  from assms(1) show ?thesis
    by (auto simp: net_process_events_def not_less intervene_registration_def
        intro!: wp_handle_urc wp_mono [OF check] imsi poll)
qed

section \<open>What is sent\<close>

lemma wp_send_internal_logged:
  assumes "\<And>r n'. net_status n' = net_status n \<Longrightarrow>
      sent (net_world n') = sent (net_world n) @ [cmd_req c] \<Longrightarrow> Q r n'"
    and "\<And>x n'. net_status n' = net_status n \<Longrightarrow>
      sent (net_world n') = sent (net_world n) @ [cmd_req c] \<Longrightarrow> E (Err_AT x) n'"
  shows "wp (send_internal (logged e) c b) Q E n"
  using assms
  by (auto simp: wp_def send_internal_def thenP_def bindP_def whenP_def attempt_def okP_def zoom_def
      handle_urc_run at_send_run logged_def send_retry_def
      split: option.splits sum.splits prod.splits)

lemma wp_net_clock_logged:
  assumes "\<And>w. w = snd (now e (fst (net_world n))) \<Longrightarrow>
    Q (fst (now e (fst (net_world n))))
      (n\<lparr>net_tx := (net_tx n)\<lparr>tx_world := (w, sent (net_world n))\<rparr>\<rparr>)"
  shows "wp (net_clock (logged e)) Q E n"
  using assms
  by (intro wp_net_clock) (auto simp: logged_def split: prod.splits)

lemma sent_compare:
  "on_status (compare_and_set (logged e) p) n = Some (r, n') \<Longrightarrow>
   sent (net_world n') = sent (net_world n)"
  by (auto simp: on_status_def zoom_def compare_and_set_run logged_def
      split: prod.splits if_splits)

lemma check_time_compare:
  "on_status (compare_and_set e p) n = Some (r, n') \<Longrightarrow>
   reg_check_time (net_status n') = reg_check_time (net_status n)"
  by (auto simp: on_status_def zoom_def compare_and_set_run split: prod.splits if_splits)

lemma wp_poll_logged:
  assumes "\<And>n'. steady n n' \<Longrightarrow> reg_check_time (net_status n') = reg_check_time (net_status n) \<Longrightarrow>
    sent (net_world n') = sent (net_world n) @ [cmd_req c] \<Longrightarrow> Q () n'"
  shows "wp (poll (logged e) c into) Q E n"
proof (rule wpI)
  fix a n'
  assume run: "poll (logged e) c into n = Some (Inr a, n')"
  have "wp (poll (logged e) c into)
     (\<lambda>_ n'. sent (net_world n') = sent (net_world n) @ [cmd_req c]
        \<and> reg_check_time (net_status n') = reg_check_time (net_status n)) (\<lambda>_ _. True) n"
    unfolding poll_def wp_bindP wp_attempt
    by (rule wp_send_internal_logged)
      (auto intro!: wpI simp: sent_compare check_time_compare)
  with run assms keepsD [OF steady_poll run] show "Q a n'"
    by (auto dest: wpD_Inr)
next
  show "E x n'" if "poll (logged e) c into n = Some (Inl x, n')" for x n'
    using that poll_no_error by blast
qed

lemma wp_update_registration_logged:
  assumes "\<And>n'. steady n n' \<Longrightarrow> reg_check_time (net_status n') = reg_check_time (net_status n) \<Longrightarrow>
    sent (net_world n') = sent (net_world n) @ poll_queries \<Longrightarrow> Q () n'"
  shows "wp (update_registration (logged e)) Q E n"
proof -
  have "wp (update_registration (logged e))
     (\<lambda>_ n'. reg_check_time (net_status n') = reg_check_time (net_status n)
        \<and> sent (net_world n') = sent (net_world n) @ poll_queries) E n"
    unfolding update_registration_def wp_thenP wp_bindP wp_attempt wp_okP
    by (intro wp_send_internal_logged wp_poll_logged) (simp_all add: poll_queries_def)
  moreover have "wp (update_registration (logged e)) (\<lambda>_. steady n) E n"
    by (rule wp_update_registration)
  ultimately show ?thesis
    using assms by (auto simp: wp_def split: option.splits sum.splits)
qed

section \<open>A modem that does not answer\<close>

definition silent :: "'w env \<Rightarrow> bool" where
  "silent e \<longleftrightarrow> (\<forall>q w. fst (send_raw e q w) = Inl At_Timeout)"

text \<open>The count does not fall while the modem is silent, and an IMSI check that is due stays
  due.\<close>

definition patient :: "'w network \<Rightarrow> 'w network \<Rightarrow> bool" where
  "patient n n' \<longleftrightarrow>
     unat (tx_timeouts (net_tx n)) \<le> unat (tx_timeouts (net_tx n'))
     \<and> (imsi_check_time (net_status n) = None \<longrightarrow> imsi_check_time (net_status n') = None)"

interpretation patient: step_relation patient
  by unfold_locales (auto simp: patient_def)

lemma wp_send_silent:
  assumes "silent e"
    and "\<And>n'. net_status n' = net_status n \<Longrightarrow>
      tx_timeouts (net_tx n') = saturating_add_u8 (tx_timeouts (net_tx n)) (attempts e (cmd_req c)) \<Longrightarrow>
      E (Err_AT At_Timeout) n'"
  shows "wp (send_internal e c b) Q E n"
proof -
  have "send_raw e q w = (Inl At_Timeout, snd (send_raw e q w))" for q w
    using assms(1) by (simp add: prod_eq_iff silent_def)
  then have "send_retry e c w = Some (Inl At_Timeout, snd (send_raw e (cmd_req c) w))" for w
    unfolding send_retry_def by (metis (mono_tags, lifting) case_prod_conv sum.case(1))
  then show ?thesis
    using assms(2)
    by (auto simp: wp_def send_internal_def thenP_def bindP_def whenP_def attempt_def okP_def zoom_def
        handle_urc_run at_send_run split: prod.splits)
qed

lemma patient_send:
  assumes "silent e"
  shows "keeps patient (send_internal e c b)"
proof (rule keepsI)
  fix n r n'
  assume run: "send_internal e c b n = Some (r, n')"
  have "wp (send_internal e c b) (\<lambda>_. patient n) (\<lambda>_. patient n) n"
    by (rule wp_send_silent [OF assms]) (simp add: patient_def saturating_add_u8_ge)
  with run show "patient n n'" by (auto simp: wp_def split: sum.splits)
qed

lemma patient_clock: "keeps patient (net_clock e)"
  by (rule keepsI) (auto simp: net_clock_def zoom_def clock_def patient_def split: prod.splits)

lemma patient_handle_urc: "keeps patient (handle_urc e)"
  by (rule keepsI) (auto simp: handle_urc_run patient_def split: prod.splits)

lemma patient_status:
  "(\<And>r. imsi_check_time r = None \<Longrightarrow> imsi_check_time (f r) = None) \<Longrightarrow>
   keeps patient (modify_status f)"
  by (rule patient.modifyP) (simp add: patient_def)

lemma patient_on_compare: "keeps patient (on_status (compare_and_set e p))"
  by (rule keepsI)
    (auto simp: on_status_def zoom_def compare_and_set_run patient_def split: prod.splits if_splits)

lemmas patient_rules =
  patient.rules patient_clock patient_handle_urc patient_status patient_on_compare

lemma patient_check_registration_state: "keeps patient (check_registration_state e)"
  by (rule keepsI)
    (auto simp: check_registration_state_run Let_def patient_def split: if_splits prod.splits)

lemma patient_intervene: "silent e \<Longrightarrow> keeps patient (intervene_registration e)"
  unfolding intervene_registration_def intervene_csd_def intervene_psd_def rf_reset_def
    set_functionality_def select_operator_def
  by (intro patient_rules patient_send) simp_all

lemma patient_poll_registration: "silent e \<Longrightarrow> keeps patient (poll_registration e)"
  unfolding poll_registration_def update_registration_def poll_def
  by (intro patient_rules patient_send) simp_all

text \<open>A due IMSI check makes the count grow and fails.\<close>

lemma silent_check_running_imsi:
  assumes "silent e" "0 < unat (default_attempts e)" "imsi_check_time (net_status n) = None"
    and "k \<le> 10" "k \<le> unat (tx_timeouts (net_tx n))"
  shows "wp (check_running_imsi e) (\<lambda>_ _. False)
     (\<lambda>_ n'. k < unat (tx_timeouts (net_tx n'))
        \<and> imsi_check_time (net_status n') = None) n"
proof -
  have a: "attempts e (General GetCIMI) = default_attempts e" "attempts e AT = default_attempts e"
    by (simp_all add: attempts_def default_attrs_def)
  show ?thesis
    using assms
    by (auto simp: check_running_imsi_def elapsed_def whenP_def a unat_saturating_add_u8
        intro!: wp_net_clock wp_send_silent)
qed


text \<open>So does an intervention that fails.\<close>

lemma silent_intervene:
  assumes "silent e" "imsi_check_time (net_status n) = None"
    and "k \<le> 10" "k \<le> unat (tx_timeouts (net_tx n))"
  shows "wp (intervene_registration e) (\<lambda>_ n'. k \<le> unat (tx_timeouts (net_tx n'))
        \<and> imsi_check_time (net_status n') = None)
     (\<lambda>_ n'. k < unat (tx_timeouts (net_tx n')) \<and> imsi_check_time (net_status n') = None) n"
proof -
  have a: "attempts e (Mobile_Control (SetModuleFunctionality f r)) = 1"
    "attempts e (Network_Service (SetOperatorSelection m x)) = 1"
    "attempts e (Psn_Context GetPDPContextState) = 1"
    "attempts e (Psn_Context (SetPDPContextState s c)) = 1" for f r m x s c
    by (simp_all add: attempts_def single_attempt_def)
  note send = wp_send_silent [OF assms(1)]
  show ?thesis
    using assms(2-)
    by (auto simp: intervene_registration_def intervene_csd_def intervene_psd_def rf_reset_def
        set_functionality_def select_operator_def whenP_def a unat_saturating_add_u8
        intro!: wp_net_clock send)
qed

section \<open>A device disconnected by choice\<close>

definition dormant :: "at_req set \<Rightarrow> ('w \<times> at_req list) network \<Rightarrow> ('w \<times> at_req list) network \<Rightarrow> bool" where
  "dormant Q n n' \<longleftrightarrow>
     (conn_state (net_status n) = Disconnected \<longrightarrow>
        conn_state (net_status n') = Disconnected \<and> sends_only Q n n')"

interpretation dormant: net_relation "dormant Q" "logged e" "\<lambda>q. q \<in> Q" for Q e
proof
  show "dormant Q n n" for n by (simp add: dormant_def log.R_refl)
  show "dormant Q n n'" if "dormant Q n m" "dormant Q m n'" for n m n'
    using that log.R_trans by (auto simp: dormant_def)
  show "dormant Q n (n\<lparr>net_tx := \<lparr>tx_timeouts = k, tx_world = w\<rparr>\<rparr>)"
    if "q \<in> Q" "send_raw (logged e) q (net_world n) = (x, w)" for q n x w k
    using log.R_send [OF that] by (simp add: dormant_def)
qed (simp_all add: dormant_def log.R_clock log.R_urc)

lemma dormant_process_events:
  assumes "set (imsi_queries @ poll_queries) \<subseteq> Q"
  shows "keeps (dormant Q) (net_process_events (logged e))"
proof -
  have reg: "keeps (dormant Q) (check_registration_state (logged e))"
    by (rule keepsI)
      (auto simp: check_registration_state_run Let_def dormant_def log.R_refl split: if_splits prod.splits)
  have int: "keeps (dormant Q) (intervene_registration (logged e))"
    by (rule keepsI) (auto simp: intervene_registration_def prog_defs dormant_def log.R_refl)
  have imsi: "keeps (dormant Q) (check_running_imsi (logged e))"
    unfolding check_running_imsi_def using assms
    by (intro dormant.net_rules)
      (auto simp: imsi_queries_def dormant_def sends_only_def)
  have poll: "keeps (dormant Q) (poll_registration (logged e))"
  proof (rule keepsI)
    fix n r n'
    assume run: "poll_registration (logged e) n = Some (r, n')"
    have "sends_only Q n n'"
      using assms by (intro keepsD [OF log.poll_registration run]) auto
    with keepsD [OF steady_poll_registration run] show "dormant Q n n'"
      by (simp add: dormant_def steady_def)
  qed
  have "keeps (dormant Q) (modifyP (\<lambda>n. n\<lparr>net_tx := (net_tx n)\<lparr>tx_timeouts := 0\<rparr>\<rparr>))"
    by (rule dormant.modifyP) (auto simp: dormant_def sends_only_def)
  then show ?thesis
    unfolding net_process_events_def
    by (intro dormant.bindP dormant.thenP dormant.cond dormant.getsP dormant.errP dormant.attempt
        dormant.okP dormant.handle_urc reg int imsi poll)
qed

section \<open>Properties\<close>

text \<open>Every command sent through the port settles the count of consecutive timeouts: an answer
  clears it, a timeout adds the attempts the command was given (up to 255), any other error
  leaves it; and the error handed on is an AT error with the unnamed variants folded into
  \<open>atat::Error::Error\<close>.\<close>

theorem at_send_counts_timeouts:
  assumes "at_send e c t = Some (res, t')"
  shows "(\<forall>r. res = Inr r \<longrightarrow> tx_timeouts t' = 0)
       \<and> (\<forall>x. res = Inl x \<longrightarrow>
            (\<exists>y. x = Err_AT y \<and> y \<noteq> At_Other
               \<and> unat (tx_timeouts t') =
                   (if y = At_Timeout
                    then min 255 (unat (tx_timeouts t) + unat (attempts e (cmd_req c)))
                    else unat (tx_timeouts t))))"
proof -
  obtain x w where run: "send_retry e c (tx_world t) = Some (x, w)"
    using haltsD [OF halts_send_retry [of e c], of "tx_world t"] by blast
  show ?thesis
  proof (cases x)
    case (Inl y)
    with run assms have "res = Inl (Err_AT (if y = At_Other then At_Error else y))"
      and "tx_timeouts t' = (if y = At_Timeout
             then saturating_add_u8 (tx_timeouts t) (attempts e (cmd_req c)) else tx_timeouts t)"
      by (auto simp: at_send_run)
    then show ?thesis by (simp add: unat_saturating_add_u8)
  next
    case (Inr r)
    with run assms show ?thesis by (auto simp: at_send_run)
  qed
qed

theorem at_send_counts_timeouts_witness:
  "unat (tx_timeouts (snd (the (at_send (script_env Toby_R2 default_config) get_cimi
     (at_tx_new script_start))))) = 3"
  using at_send_counts_timeouts
    [of "script_env Toby_R2 default_config" get_cimi "at_tx_new script_start"
        "Inl (Err_AT At_Timeout)" "\<lparr>tx_timeouts = 3, tx_world = script_start\<rparr>"]
  by (simp add: at_send_run at_tx_new_def send_retry_def script_env_def script_start_def
      attempts_def default_attrs_def saturating_add_u8_def)

text \<open>After more than ten consecutive timeouts the next \<open>process_events\<close> asks for a modem
  reset before it does anything else: nothing is sent, no URC is taken, only the count is
  cleared.\<close>

theorem process_events_resets_after_timeouts:
  assumes "10 < unat (tx_timeouts (net_tx n))"
  shows "net_process_events e n =
     Some (Inl (Generic Timeout), n\<lparr>net_tx := (net_tx n)\<lparr>tx_timeouts := 0\<rparr>\<rparr>)"
proof -
  have "(10 :: u8) < tx_timeouts (net_tx n)"
    using assms by (simp add: word_less_nat_alt)
  then show ?thesis by (simp add: net_process_events_def prog_defs)
qed

theorem process_events_resets_after_timeouts_witness:
  "fst (the (net_process_events (script_env Toby_R2 default_config)
     (network_new \<lparr>tx_timeouts = 11, tx_world = script_start\<rparr>))) = Inl (Generic Timeout)"
  using process_events_resets_after_timeouts
    [of "network_new \<lparr>tx_timeouts = 11, tx_world = script_start\<rparr>"
        "script_env Toby_R2 default_config"]
  by (simp add: network_new_def)

text \<open>\<open>process_events\<close> returns from every state, whatever the modem answers.\<close>

theorem net_process_events_returns: "\<exists>r n'. net_process_events e n = Some (r, n')"
  by (rule haltsD) simp

text \<open>The state after calls of \<open>process_events\<close> whose results are ignored.\<close>

primrec after_passes :: "'w env \<Rightarrow> nat \<Rightarrow> 'w network \<Rightarrow> 'w network" where
  "after_passes e 0 n = n"
| "after_passes e (Suc k) n = snd (the (net_process_events e (after_passes e k n)))"

lemma silent_pass:
  assumes "silent e" "0 < unat (default_attempts e)" "imsi_check_time (net_status n) = None"
    and run: "net_process_events e n = Some (r, n')"
  shows "r = Inl (Generic Timeout)
    \<or> unat (tx_timeouts (net_tx n)) < unat (tx_timeouts (net_tx n'))
      \<and> imsi_check_time (net_status n') = None"
proof (cases "10 < unat (tx_timeouts (net_tx n))")
  case True
  with run show ?thesis
    by (simp add: net_process_events_def prog_defs word_less_nat_alt)
next
  case False
  define k where "k = unat (tx_timeouts (net_tx n))"
  define due where "due = (\<lambda>m :: 'a network. k \<le> unat (tx_timeouts (net_tx m))
    \<and> imsi_check_time (net_status m) = None)"
  define grown where "grown = (\<lambda>m :: 'a network. k < unat (tx_timeouts (net_tx m))
    \<and> imsi_check_time (net_status m) = None)"
  have k: "k \<le> 10" using False by (simp add: k_def)
  have urc: "wp (handle_urc e) (\<lambda>_. due) (\<lambda>_. due) m" if "due m" for m
    using that by (intro wp_mono [OF keeps_wp [OF patient_handle_urc]]) (auto simp: due_def patient_def)
  have reg: "wp (check_registration_state e) (\<lambda>_. due) E m" if "due m"
    for m and E :: "network_error \<Rightarrow> 'a network \<Rightarrow> bool"
    using that
    by (simp add: wp_def check_registration_state_run Let_def due_def split: prod.split)
  have int: "wp (intervene_registration e) (\<lambda>_. due) (\<lambda>_. grown) m" if "due m" for m
    using silent_intervene [OF assms(1) _ k] that by (simp add: due_def grown_def)
  have imsi: "wp (check_running_imsi e) (\<lambda>_ _. False) (\<lambda>_. grown) m" if "due m" for m
    using silent_check_running_imsi [OF assms(1,2) _ k] that by (simp add: due_def grown_def)
  have poll: "wp (poll_registration e) (\<lambda>_. grown) (\<lambda>x _. x = Generic Timeout) m" if "grown m" for m
  proof (rule wpI)
    show "grown n'" if "poll_registration e m = Some (Inr a, n')" for a n'
      using keepsD [OF patient_poll_registration [OF assms(1)] that] \<open>grown m\<close>
      by (auto simp: patient_def grown_def)
    show "x = Generic Timeout" if "poll_registration e m = Some (Inl x, n')" for x n'
      using wpD_Inl [OF wp_poll_registration that] by simp
  qed
  have "wp (net_process_events e) (\<lambda>_. grown) (\<lambda>x n'. x = Generic Timeout \<or> grown n') n"
  proof -
    have "wp (thenP (bindP (attempt (handle_urc e)) (\<lambda>_. okP ()))
        (thenP (check_registration_state e)
        (thenP (intervene_registration e)
        (thenP (bindP (attempt (check_running_imsi e)) (\<lambda>_. okP ()))
               (poll_registration e))))) (\<lambda>_. grown) (\<lambda>x n'. x = Generic Timeout \<or> grown n') n"
      unfolding wp_thenP wp_bindP wp_attempt wp_okP
      by (rule wp_mono [OF urc] wp_mono [OF reg] wp_mono [OF int] wp_mono [OF imsi] wp_mono [OF poll]
          | simp add: due_def k_def assms(3); fail | blast)+
    then show ?thesis by (simp add: net_process_events_def)
  qed
  with run show ?thesis
    by (cases r) (auto simp: k_def grown_def dest: wpD_Inr wpD_Inl)
qed

text \<open>C6: a modem that answers nothing is noticed: as long as the IMSI check is due (as it is
  after every registration reset), at most twelve calls of \<open>process_events\<close> end in the request
  for a modem reset, whatever the registration state, the clock and the URCs are.\<close>

theorem silent_modem_is_reset:
  assumes "silent e" "0 < unat (default_attempts e)" "imsi_check_time (net_status n) = None"
  shows "\<exists>k \<le> 11. \<exists>n'.
    net_process_events e (after_passes e k n) = Some (Inl (Generic Timeout), n')"
proof (rule ccontr)
  assume none: "\<not> ?thesis"
  have "k \<le> unat (tx_timeouts (net_tx (after_passes e k n)))
      \<and> imsi_check_time (net_status (after_passes e k n)) = None" if "k \<le> 12" for k
    using that
  proof (induction k)
    case 0
    then show ?case using assms(3) by simp
  next
    case (Suc k)
    obtain r n' where run: "net_process_events e (after_passes e k n) = Some (r, n')"
      using haltsD [OF halts_net_process_events] by blast
    with none Suc.prems have "r \<noteq> Inl (Generic Timeout)" by auto
    with silent_pass [OF assms(1,2) _ run] Suc show ?case by (simp add: run)
  qed
  from this [of 11] have "10 < unat (tx_timeouts (net_tx (after_passes e 11 n)))" by simp
  then have "(10 :: u8) < tx_timeouts (net_tx (after_passes e 11 n))"
    by (simp add: word_less_nat_alt)
  then have "net_process_events e (after_passes e 11 n) = Some (Inl (Generic Timeout),
      (after_passes e 11 n)\<lparr>net_tx := (net_tx (after_passes e 11 n))\<lparr>tx_timeouts := 0\<rparr>\<rparr>)"
    by (simp add: net_process_events_def prog_defs)
  with none show False by blast
qed

text \<open>C17: \<open>check_registration_state\<close> decides the connection state from the three domains: CSD
  and PSD together, or EPS alone, make it connected; a connection that is lost goes back to
  connecting with the slots, the intervention count and the three times of the registration reset: the start of the
  registration and the last poll are now, by two readings of the clock, and the IMSI has not been checked. A
  connection that holds and a device disconnected by choice are left alone.\<close>

theorem check_registration_state_decides:
  assumes "check_registration_state e n = Some (res, n')"
  shows "conn_state (net_status n') =
      (if conn_state (net_status n) = Disconnected then Disconnected
       else if slot_registered (csd (net_status n)) \<and> slot_registered (psd (net_status n))
             \<or> slot_registered (eps (net_status n)) then Connected
       else Connecting)
    \<and> (conn_state (net_status n) = Connected \<and> conn_state (net_status n') = Connecting \<longrightarrow>
        csd (net_status n') = slot_new \<and> psd (net_status n') = slot_new
        \<and> eps (net_status n') = slot_new
        \<and> registration_interventions (net_status n') = 1
        \<and> imsi_check_time (net_status n') = None
        \<and> reg_start_time (net_status n') = Some (fst (now e (net_world n)))
        \<and> reg_check_time (net_status n') = Some (fst (now e (snd (now e (net_world n))))))
    \<and> (conn_state (net_status n) = Connected \<and> conn_state (net_status n') = Connected \<longrightarrow> n' = n)
    \<and> (conn_state (net_status n) \<noteq> Connected \<longrightarrow>
        n' = n\<lparr>net_status := (net_status n)\<lparr>conn_state := conn_state (net_status n')\<rparr>\<rparr>)"
  using assms
  by (cases n; cases "net_status n"; cases "conn_state (net_status n)")
    (auto simp: check_registration_state_run Let_def split: if_splits prod.splits)

theorem check_registration_state_decides_witness:
  "conn_state (net_status (snd (the (check_registration_state (script_env Toby_R2 default_config)
     (network_new (at_tx_new script_start)\<lparr>net_status := registration_new\<lparr>conn_state := Connecting,
        eps := slot_set_at 7 Roaming slot_new\<rparr>\<rparr>))))) = Connected"
proof -
  let ?n = "network_new (at_tx_new script_start)\<lparr>net_status := registration_new\<lparr>conn_state := Connecting,
        eps := slot_set_at 7 Roaming slot_new\<rparr>\<rparr>"
  obtain r n' where run: "check_registration_state (script_env Toby_R2 default_config) ?n = Some (r, n')"
    using haltsD [OF halts_check_registration_state] by blast
  have "conn_state (net_status n') = Connected"
    using check_registration_state_decides [OF run, THEN conjunct1]
    by (simp add: slot_registered_set)
  then show ?thesis unfolding run by simp
qed


text \<open>A device disconnected by choice stays disconnected, and while it is, \<open>process_events\<close>
  only asks: the IMSI, the error report and the three registration queries are all it may send,
  never a command that changes the modem.\<close>

theorem disconnected_only_asks:
  assumes "net_process_events (logged e) n = Some (res, n')"
    and "conn_state (net_status n) = Disconnected"
  shows "conn_state (net_status n') = Disconnected
    \<and> (\<exists>qs. sent (net_world n') = sent (net_world n) @ qs
          \<and> set qs \<subseteq> set (imsi_queries @ poll_queries))"
proof -
  have "dormant (set (imsi_queries @ poll_queries)) n n'"
    by (rule keepsD [OF dormant_process_events assms(1)]) simp
  with assms(2) show ?thesis by (simp add: dormant_def sends_only_def)
qed

theorem disconnected_only_asks_witness:
  "conn_state (net_status (snd (the (net_process_events (logged (script_env Toby_R2 default_config))
     (network_new (at_tx_new (script_start, []))))))) = Disconnected"
proof -
  obtain r n' where run: "net_process_events (logged (script_env Toby_R2 default_config))
      (network_new (at_tx_new (script_start, []))) = Some (r, n')"
    using haltsD [OF halts_net_process_events] by blast
  show ?thesis
    using disconnected_only_asks [OF run] unfolding run
    by (simp add: network_new_def registration_new_def)
qed

text \<open>C13: nothing but the URCs of the data connection moves the PDP context: across a whole
  \<open>process_events\<close> it takes only steps that some URC the modem can issue allows (an activation
  with result 0 makes it active, one with another result sends it back to setup, the
  deactivation of profile 1 makes it activating).\<close>

theorem context_follows_urcs:
  assumes "urcs_within U e" "net_process_events e n = Some (res, n')"
  shows "(urc_step U)\<^sup>*\<^sup>* (net_context n) (net_context n')"
  using keepsD [OF net_frame.process_events [OF context_moves_frame [OF assms(1)]] assms(2)]
  by (simp add: context_moves_def)

text \<open>Without an activation URC no call of \<open>process_events\<close> makes the context active.\<close>

theorem context_not_active_without_urc:
  assumes "\<forall>w a. fst (next_urc e Network_Sub w) \<noteq> Some (DataConnectionActivated 0 a)"
    and "net_process_events e n = Some (res, n')" "net_context n \<noteq> Active"
  shows "net_context n' \<noteq> Active"
proof -
  let ?U = "{u. \<forall>a. u \<noteq> DataConnectionActivated 0 a}"
  have "urcs_within ?U e" using assms(1) by (auto simp: urcs_within_def)
  then have "(urc_step ?U)\<^sup>*\<^sup>* (net_context n) (net_context n')"
    using keepsD [OF net_frame.process_events [OF context_moves_frame] assms(2)]
    by (simp add: context_moves_def)
  then show ?thesis
    using assms(3) by (induction rule: rtranclp_induct) (auto elim: urc_step_to_Active)
qed

theorem context_follows_urcs_witness:
  "(urc_step {DataConnectionActivated 0 None})\<^sup>*\<^sup>* Setup (net_context (snd (the (net_process_events
     ((script_env Toby_R2 default_config)
        \<lparr>next_urc := \<lambda>s w. (Some (DataConnectionActivated 0 None), w)\<rparr>)
     (network_new (at_tx_new script_start))))))"
proof -
  let ?e = "(script_env Toby_R2 default_config)
    \<lparr>next_urc := \<lambda>s w. (Some (DataConnectionActivated 0 None), w)\<rparr>"
  obtain r n' where run: "net_process_events ?e (network_new (at_tx_new script_start)) = Some (r, n')"
    using haltsD [OF halts_net_process_events] by blast
  have "urcs_within {DataConnectionActivated 0 None} ?e" by (simp add: urcs_within_def)
  from context_follows_urcs [OF this run] show ?thesis unfolding run by (simp add: network_new_def)
qed

theorem context_not_active_without_urc_witness:
  "net_context (snd (the (net_process_events
     ((script_env Toby_R2 default_config)
        \<lparr>next_urc := \<lambda>s w. (Some (DataConnectionDeactivated 1), w)\<rparr>)
     (network_new (at_tx_new script_start))))) \<noteq> Active"
proof -
  let ?e = "(script_env Toby_R2 default_config)
    \<lparr>next_urc := \<lambda>s w. (Some (DataConnectionDeactivated 1), w)\<rparr>"
  obtain r n' where run: "net_process_events ?e (network_new (at_tx_new script_start)) = Some (r, n')"
    using haltsD [OF halts_net_process_events] by blast
  show ?thesis
    using context_not_active_without_urc [OF _ run] unfolding run by (simp add: network_new_def)
qed

theorem silent_modem_is_reset_witness:
  "\<exists>k \<le> 11. \<exists>n'. net_process_events
     ((script_env Toby_R2 default_config)\<lparr>send_raw := \<lambda>q w. (Inl At_Timeout, w)\<rparr>)
     (after_passes ((script_env Toby_R2 default_config)\<lparr>send_raw := \<lambda>q w. (Inl At_Timeout, w)\<rparr>) k
        (network_new (at_tx_new script_start))) = Some (Inl (Generic Timeout), n')"
  by (rule silent_modem_is_reset)
    (simp_all add: silent_def script_env_def network_new_def registration_new_def)

section \<open>The registration invariant\<close>

text \<open>The count of interventions is never zero, so that an intervention always waits, and the
  registration timeout runs whenever the device is not disconnected by choice.\<close>

definition net_inv :: "'w network \<Rightarrow> bool" where
  "net_inv n \<longleftrightarrow>
     1 \<le> unat (registration_interventions (net_status n))
     \<and> (conn_state (net_status n) \<noteq> Disconnected \<longrightarrow> reg_start_time (net_status n) \<noteq> None)"

definition keeps_inv :: "'w network \<Rightarrow> 'w network \<Rightarrow> bool" where
  "keeps_inv n n' \<longleftrightarrow> (net_inv n \<longrightarrow> net_inv n')"

interpretation inv: step_relation keeps_inv
  by unfold_locales (auto simp: keeps_inv_def)

lemma steady_inv: "steady n n' \<Longrightarrow> keeps_inv n n'"
  by (auto simp: steady_def keeps_inv_def net_inv_def)

lemma inv_check_registration_state: "keeps keeps_inv (check_registration_state e)"
  by (rule keepsI)
    (auto simp: check_registration_state_run Let_def keeps_inv_def net_inv_def
      split: if_splits prod.splits)

lemmas inv_of_steady = steady_rules [THEN keeps_mono, OF steady_inv]

lemma inv_process_events: "keeps keeps_inv (net_process_events e)"
proof -
  have "keeps keeps_inv (modifyP (\<lambda>n :: 'w network. n\<lparr>net_tx := (net_tx n)\<lparr>tx_timeouts := 0\<rparr>\<rparr>))"
    by (rule inv.modifyP) (simp add: keeps_inv_def net_inv_def)
  then show ?thesis
    unfolding net_process_events_def
    by (intro inv.bindP inv.thenP inv.cond inv.getsP inv.errP inv.attempt inv.okP
        inv_check_registration_state inv_of_steady)
qed

lemma net_inv_new: "net_inv (network_new t)"
  by (simp add: net_inv_def network_new_def registration_new_def)

text \<open>The invariant holds when the device is created and after every \<open>process_events\<close>: the
  count of interventions is at least one and, unless the device is disconnected by choice, the
  registration timeout has a start time.\<close>

theorem process_events_keeps_invariant:
  "net_inv (network_new t)
   \<and> (net_inv n \<longrightarrow> net_inv (snd (the (net_process_events e n))))"
proof -
  obtain r n' where run: "net_process_events e n = Some (r, n')"
    using haltsD [OF halts_net_process_events] by blast
  with keepsD [OF inv_process_events run] show ?thesis
    by (simp add: keeps_inv_def net_inv_new)
qed

theorem process_events_keeps_invariant_witness:
  "net_inv (snd (the (net_process_events (script_env Toby_R2 default_config)
     (network_new (at_tx_new script_start)))))"
  using process_events_keeps_invariant
    [of "at_tx_new script_start" "network_new (at_tx_new script_start)"
        "script_env Toby_R2 default_config"]
  by simp

text \<open>C14: an intervention happens only while the device is connecting and one of the domains has
  been stuck, that is, was reported unchanged, for at least 15 seconds times the count of
  interventions; it then raises the count by one (up to 255), so that the next one waits longer,
  and sends only the requests of an intervention.\<close>

theorem intervention_only_when_stuck:
  assumes "intervene_registration (logged e) n = Some (res, n')"
    and "sent (net_world n') \<noteq> sent (net_world n)"
  shows "conn_state (net_status n) = Connecting
    \<and> (\<exists>s \<in> {eps (net_status n), csd (net_status n), psd (net_status n)}.
          slot_sticky s
          \<and> from_secs (15 * unat (registration_interventions (net_status n)))
            \<le> slot_duration s (fst (now e (fst (net_world n)))))
    \<and> unat (registration_interventions (net_status n'))
        = min 255 (unat (registration_interventions (net_status n)) + 1)
    \<and> (\<exists>qs. sent (net_world n') = sent (net_world n) @ qs
          \<and> set qs \<subseteq> set (intervention_requests e))"
proof -
  let ?r = "net_status n" and ?t = "fst (now e (fst (net_world n)))"
  define G where "G = (\<lambda>n' :: ('a \<times> at_req list) network. sent (net_world n') = sent (net_world n) \<or>
     conn_state ?r = Connecting \<and> (\<exists>s \<in> {eps ?r, csd ?r, psd ?r}. stuck s ?r ?t)
     \<and> registration_interventions (net_status n')
         = saturating_add_u8 (registration_interventions ?r) 1)"
  have "wp (intervene_registration (logged e)) (\<lambda>_. G) (\<lambda>_. G) n"
    by (auto simp: intervene_registration_def intervene_csd_def intervene_psd_def rf_reset_def
        set_functionality_def select_operator_def whenP_def G_def
        intro!: wp_net_clock_logged wp_send_internal_logged)
  then have "G n'" using assms(1) by (auto simp: wp_def split: sum.splits)
  moreover have "sends_only (set (intervention_requests (logged e))) n n'"
    by (rule keepsD [OF log.intervene_registration assms(1)])
  ultimately show ?thesis
    using assms(2)
    by (auto simp: G_def stuck_def intervention_timeout_def mult.commute unat_saturating_add_u8
        sends_only_def intervention_requests_def min_reset_mode_def)
qed

definition stuck_network :: "(script_world \<times> at_req list) network" where
  "stuck_network =
     (network_new (at_tx_new (script_start\<lparr>sw_time := 20000000\<rparr>, [])))
       \<lparr>net_status := registration_new\<lparr>conn_state := Connecting,
          csd := \<lparr>slot_status = NotRegistering, slot_updated = Some 5, slot_started = Some 0\<rparr>,
          eps := \<lparr>slot_status = NotRegistering, slot_updated = Some 5, slot_started = Some 0\<rparr>\<rparr>\<rparr>"

lemma stuck_network_sends:
  "\<exists>n'. intervene_registration (logged (script_env Toby_R2 default_config)) stuck_network
     = Some (Inr (), n') \<and> sent (net_world n') \<noteq> sent (net_world stuck_network)"
  by (simp add: intervene_registration_def stuck_network_def stuck_def slot_sticky_def
      slot_duration_def checked_duration_since_def intervention_timeout_def from_secs_def
      registration_new_def network_new_def at_tx_new_def script_start_def script_env_def logged_def
      net_clock_def prog_defs clock_def select_operator_def send_internal_def at_send_run
      send_retry_def plain_def typed_cmd_def)

theorem intervention_only_when_stuck_witness:
  "unat (registration_interventions (net_status (snd (the (intervene_registration
     (logged (script_env Toby_R2 default_config)) stuck_network))))) = 2"
proof -
  obtain n' where run: "intervene_registration (logged (script_env Toby_R2 default_config))
      stuck_network = Some (Inr (), n')"
    and sent: "sent (net_world n') \<noteq> sent (net_world stuck_network)"
    using stuck_network_sends by blast
  show ?thesis
    using intervention_only_when_stuck [OF run sent] unfolding run
    by (simp add: stuck_network_def registration_new_def)
qed

text \<open>The time an intervention waits stays between 15 seconds and 255 times that.\<close>

theorem intervention_timeout_bounds:
  "net_inv n \<longrightarrow> from_secs 15 \<le> intervention_timeout (net_status n)
     \<and> intervention_timeout (net_status n) \<le> from_secs 3825"
  using unat_u8_bound [of "registration_interventions (net_status n)"]
  by (simp add: net_inv_def intervention_timeout_def from_secs_def)

theorem intervention_timeout_bounds_witness:
  "from_secs 15 \<le> intervention_timeout (net_status (network_new (at_tx_new script_start)))"
  using intervention_timeout_bounds [of "network_new (at_tx_new script_start)"]
  by (simp add: net_inv_def network_new_def registration_new_def)

text \<open>The registration is polled at most every 15 seconds: the four queries are sent, in their
  order, exactly when the last poll is that long ago (or there was none, or the clock was set
  back), and the time of the poll is then remembered.\<close>

theorem poll_registration_rate:
  assumes "poll_registration (logged e) n = Some (res, n')"
  shows "sent (net_world n') = sent (net_world n) @
      (if elapsed (reg_check_time (net_status n)) (fst (now e (fst (net_world n))))
            (from_secs 15) True
       then poll_queries else [])
    \<and> reg_check_time (net_status n') =
      (if elapsed (reg_check_time (net_status n)) (fst (now e (fst (net_world n))))
            (from_secs 15) True
       then Some (fst (now e (fst (net_world n)))) else reg_check_time (net_status n))"
proof -
  define due where "due = elapsed (reg_check_time (net_status n)) (fst (now e (fst (net_world n))))
    (from_secs 15) True"
  define G where "G = (\<lambda>n' :: ('a \<times> at_req list) network.
    sent (net_world n') = sent (net_world n) @ (if due then poll_queries else [])
    \<and> reg_check_time (net_status n') = (if due then Some (fst (now e (fst (net_world n))))
        else reg_check_time (net_status n)))"
  have "wp (poll_registration (logged e)) (\<lambda>_. G) (\<lambda>_. G) n"
    by (auto simp: poll_registration_def G_def due_def REGISTRATION_CHECK_INTERVAL_def
        intro!: wp_net_clock_logged wp_update_registration_logged)
  with assms show ?thesis by (auto simp: wp_def G_def due_def split: sum.splits)
qed

theorem poll_registration_rate_witness:
  "sent (net_world (snd (the (poll_registration (logged (script_env Toby_R2 default_config))
     (network_new (at_tx_new (script_start, []))))))) = poll_queries"
proof -
  obtain r n' where run: "poll_registration (logged (script_env Toby_R2 default_config))
      (network_new (at_tx_new (script_start, []))) = Some (r, n')"
    using haltsD [OF halts_poll_registration] by blast
  show ?thesis
    using poll_registration_rate [OF run] unfolding run
    by (simp add: network_new_def registration_new_def at_tx_new_def elapsed_def)
qed

text \<open>The IMSI is asked for at most once a minute: the query is sent exactly when the last
  successful check is that long ago; it is followed by a plain \<open>AT\<close> exactly when it failed, and
  only a check whose last command was answered is remembered.\<close>

theorem check_running_imsi_rate:
  assumes "check_running_imsi (logged e) n = Some (res, n')"
  shows "if elapsed (imsi_check_time (net_status n)) (fst (now e (fst (net_world n))))
            (from_secs 60) True
     then (sent (net_world n') = sent (net_world n) @ [General GetCIMI]
             \<or> sent (net_world n') = sent (net_world n) @ [General GetCIMI, AT])
        \<and> imsi_check_time (net_status n') =
            (if is_err res then imsi_check_time (net_status n)
             else Some (fst (now e (fst (net_world n)))))
        \<and> (is_err res \<longrightarrow> sent (net_world n') = sent (net_world n) @ [General GetCIMI, AT])
     else res = Inr () \<and> sent (net_world n') = sent (net_world n)
        \<and> net_status n' = net_status n"
proof -
  define due where "due = elapsed (imsi_check_time (net_status n)) (fst (now e (fst (net_world n))))
    (from_secs 60) True"
  have "wp (check_running_imsi (logged e))
    (\<lambda>_ n'. if due
       then (sent (net_world n') = sent (net_world n) @ [General GetCIMI]
               \<or> sent (net_world n') = sent (net_world n) @ [General GetCIMI, AT])
          \<and> imsi_check_time (net_status n') = Some (fst (now e (fst (net_world n))))
       else sent (net_world n') = sent (net_world n) \<and> net_status n' = net_status n)
    (\<lambda>_ n'. due \<and> sent (net_world n') = sent (net_world n) @ [General GetCIMI, AT]
       \<and> imsi_check_time (net_status n') = imsi_check_time (net_status n)) n"
    by (auto simp: check_running_imsi_def due_def CHECK_IMSI_TIMEOUT_def whenP_def
        intro!: wp_net_clock_logged wp_send_internal_logged)
  with assms show ?thesis
    by (cases res) (simp_all add: wp_def flip: due_def)
qed

theorem check_running_imsi_rate_witness:
  "sent (net_world (snd (the (check_running_imsi (logged (script_env Toby_R2 default_config))
     ((network_new (at_tx_new (script_start, [])))
        \<lparr>net_status := registration_new\<lparr>imsi_check_time := Some 0\<rparr>\<rparr>))))) = []"
proof -
  let ?n = "(network_new (at_tx_new (script_start, [])))
        \<lparr>net_status := registration_new\<lparr>imsi_check_time := Some 0\<rparr>\<rparr>"
  obtain r n' where run: "check_running_imsi (logged (script_env Toby_R2 default_config)) ?n
      = Some (r, n')"
    using haltsD [OF halts_check_running_imsi] by blast
  show ?thesis
    using check_running_imsi_rate [OF run] unfolding run
    by (simp add: network_new_def registration_new_def at_tx_new_def elapsed_def
        script_env_def script_start_def checked_duration_since_def from_secs_def)
qed

text \<open>C40: a network that is registered, in both the CSD and the PSD domain or in the EPS domain, is
  connected by the next \<open>process_events\<close>, which returns without an error whatever the modem,
  the clock and the URCs do, and whatever the poll of the registration at its end reports: as long as connecting is wanted and
  no reset is due.\<close>

theorem registered_network_connects:
  assumes "tx_timeouts (net_tx n) \<le> 10" "conn_state (net_status n) \<noteq> Disconnected"
    and "slot_registered (csd (net_status n)) \<and> slot_registered (psd (net_status n))
      \<or> slot_registered (eps (net_status n))"
  shows "\<exists>n'. net_process_events e n = Some (Inr (), n') \<and> is_connected n'"
  using wp_total [OF halts_net_process_events wp_registered_network [OF assms]]
  by (simp add: is_connected_def)

theorem registered_network_connects_witness:
  "\<exists>n'. net_process_events (script_env Toby_R2 default_config)
       ((network_new (at_tx_new script_start))\<lparr>net_status :=
          registration_new\<lparr>eps := slot_set_at 0 Home slot_new, conn_state := Connecting\<rparr>\<rparr>)
     = Some (Inr (), n') \<and> is_connected n'"
  by (rule registered_network_connects)
    (simp_all add: network_new_def at_tx_new_def slot_registered_set)

text \<open>C16: \<open>process_events\<close> asks for a modem reset only for one of its two reasons: more than ten
  consecutive timeouts, or three minutes of connecting since the registration was started. All
  its other errors are AT errors.\<close>

theorem reset_request_has_reason:
  assumes "net_process_events e n = Some (Inl x, n')"
  shows "(\<exists>y. x = Err_AT y)
    \<or> x = Generic Timeout \<and> 10 < unat (tx_timeouts (net_tx n))
    \<or> x = Generic Timeout \<and> conn_state (net_status n') = Connecting
        \<and> (\<exists>s t w. reg_start_time (net_status n') = Some s \<and> now e w = (t, net_world n')
              \<and> s + from_secs 180 \<le> t)"
proof (cases "10 < unat (tx_timeouts (net_tx n))")
  case True
  with assms show ?thesis
    by (simp add: net_process_events_def prog_defs word_less_nat_alt)
next
  case False
  define E where "E = (\<lambda>x n'. (\<exists>y. x = Err_AT y) \<or>
      x = Generic Timeout \<and> conn_state (net_status n') = Connecting
        \<and> (\<exists>s t w. reg_start_time (net_status n') = Some s \<and> now e w = (t, net_world n')
              \<and> s + from_secs 180 \<le> t))"
  have urc: "wp (handle_urc e) (\<lambda>_ _. True) (\<lambda>_ _. True) m" for m
    by (rule wpI) simp_all
  have reg: "wp (check_registration_state e) (\<lambda>_ _. True) E m" for m
    by (simp add: wp_def check_registration_state_run Let_def split: prod.split)
  have imsi: "wp (check_running_imsi e) (\<lambda>_ _. True) (\<lambda>_ _. True) m" for m
    by (rule wpI) simp_all
  have poll: "wp (poll_registration e) (\<lambda>_ _. True) E m" for m
    by (rule wp_mono [OF wp_poll_registration])
      (simp_all add: E_def REGISTRATION_TIMEOUT_def)
  have int: "wp (intervene_registration e) (\<lambda>_ _. True) E m" for m
    by (rule wp_mono [OF wp_intervene_error]) (simp_all add: E_def)
  have "wp (net_process_events e) (\<lambda>_ _. True) E n"
    using False unfolding net_process_events_def
    by (simp add: word_less_nat_alt)
      (rule wp_mono [OF urc] wp_mono [OF reg] wp_mono [OF int] wp_mono [OF imsi]
          wp_mono [OF poll] | assumption | simp)+
  then show ?thesis using assms by (auto simp: E_def dest: wpD_Inl)
qed

theorem reset_request_has_reason_witness:
  "10 < unat (tx_timeouts (net_tx (network_new \<lparr>tx_timeouts = 12, tx_world = script_start\<rparr>)))"
proof -
  let ?n = "network_new \<lparr>tx_timeouts = 12, tx_world = script_start\<rparr>"
  have run: "net_process_events (script_env Toby_R2 default_config) ?n
      = Some (Inl (Generic Timeout), ?n\<lparr>net_tx := (net_tx ?n)\<lparr>tx_timeouts := 0\<rparr>\<rparr>)"
    by (simp add: net_process_events_def prog_defs network_new_def)
  show ?thesis
    using reset_request_has_reason [OF run] by (simp add: network_new_def registration_new_def)
qed

end
