(* ===== verification/Power_Control.thy ===== *)
theory Power_Control
  imports Network_Proofs
begin

text \<open>
  \<open>power.rs\<close> with \<open>module_timing.rs\<close> and \<open>blocking_timer.rs\<close>, on the \<open>Device\<close> of \<open>client.rs\<close>:
  probing, resetting and switching the module. The waits are busy loops on the clock and
  \<open>power_on\<close> and \<open>hard_reset\<close> call each other, so these are \<open>partial_function\<close>s: \<open>None\<close> is a call
  that does not return.
\<close>

section \<open>The device\<close>

datatype power_state = Off | On

datatype state = State_Off | AtInitialized | FullyInitialized

text \<open>The socket set is the list of entries its \<open>iter_mut\<close> yields, over a type \<open>'s\<close> of sockets.\<close>

record ('w, 's) device =
  dev_network :: "'w network"
  dev_state :: state
  dev_power :: power_state
  dev_sockets :: "(socket_handle \<times> 's) list option"

definition device_new :: "'w \<Rightarrow> ('w, 's) device" where
  "device_new w =
     \<lparr>dev_network = network_new (at_tx_new w), dev_state = State_Off, dev_power = Off,
      dev_sockets = None\<rparr>"

abbreviation dev_world :: "('w, 's) device \<Rightarrow> 'w" where
  "dev_world d \<equiv> net_world (dev_network d)"

definition on_net :: "('w network, 'e, 'a) prog \<Rightarrow> (('w, 's) device, 'e, 'a) prog" where
  "on_net = zoom dev_network (\<lambda>n d. d\<lparr>dev_network := n\<rparr>)"

definition on_dev_world :: "('w, 'e, 'a) prog \<Rightarrow> (('w, 's) device, 'e, 'a) prog" where
  "on_dev_world m = on_net (on_tx (on_world m))"

text \<open>\<open>self.network.send_internal(...)?\<close>.\<close>

definition dev_send ::
    "'w env \<Rightarrow> 'r at_cmd \<Rightarrow> bool \<Rightarrow> (('w, 's) device, device_error, 'r) prog" where
  "dev_send e c check = map_errP device_of_network (on_net (send_internal e c check))"

definition dev_clock :: "'w env \<Rightarrow> (('w, 's) device, 'e, instant) prog" where
  "dev_clock e = on_dev_world (clock e)"

definition set_power :: "power_state \<Rightarrow> (('w, 's) device, 'e, unit) prog" where
  "set_power p = modifyP (\<lambda>d. d\<lparr>dev_power := p\<rparr>)"

text \<open>\<open>pin.set_low().ok()\<close> and \<open>pin.set_high().ok()\<close>.\<close>

definition drive :: "'w env \<Rightarrow> pin \<Rightarrow> bool \<Rightarrow> (('w, 's) device, 'e, unit) prog" where
  "drive e p level = on_dev_world (modifyP (set_pin e p level))"

section \<open>Times\<close>

definition pwr_on_time :: "module_variant \<Rightarrow> duration" where
  "pwr_on_time m =
     (if m = Lara_R6 then from_millis 150 else if m = Toby_R2 then from_micros 50
      else from_micros 50)"

definition pwr_off_time :: "module_variant \<Rightarrow> duration" where
  "pwr_off_time m =
     (if m = Lara_R6 then from_millis 1500 else if m = Toby_R2 then from_secs 1
      else from_secs 1)"

definition reset_time :: "module_variant \<Rightarrow> duration" where
  "reset_time m =
     (if m = Lara_R6 then from_millis 10 else if m = Toby_R2 then from_millis 50
      else from_millis 50)"

definition kill_time :: "module_variant \<Rightarrow> duration option" where
  "kill_time m = (if m = Lara_R6 then Some (from_secs 10) else None)"

text \<open>\<open>BlockingTimer::wait\<close>: read the clock until it has reached \<open>expires_at\<close>.\<close>

partial_function (option) timer_wait ::
    "'w env \<Rightarrow> instant \<Rightarrow> 'w \<Rightarrow> ((device_error + unit) \<times> 'w) option" where
  [code]: "timer_wait e expires_at w =
     (case now e w of (t, w') \<Rightarrow>
        if expires_at \<le> t then Some (Inr (), w') else timer_wait e expires_at w')"

definition timer_after :: "'w env \<Rightarrow> duration \<Rightarrow> ('w, device_error, unit) prog" where
  "timer_after e d = bindP (clock e) (\<lambda>t. timer_wait e (t + d))"

abbreviation wait_for :: "'w env \<Rightarrow> duration \<Rightarrow> (('w, 's) device, device_error, unit) prog" where
  "wait_for e d \<equiv> on_dev_world (timer_after e d)"

section \<open>Probing\<close>

primrec is_alive_loop ::
    "'w env \<Rightarrow> nat \<Rightarrow> device_error \<Rightarrow> (('w, 's) device, device_error, unit) prog" where
  "is_alive_loop e 0 error = errP error"
| "is_alive_loop e (Suc k) error =
     bindP (attempt (on_net (on_tx (at_send_ignore_timeout e (plain AT))))) (\<lambda>res.
       case res of
         Inr _ \<Rightarrow> okP ()
       | Inl x \<Rightarrow> is_alive_loop e k (device_of_network x))"

definition is_alive :: "'w env \<Rightarrow> u8 \<Rightarrow> (('w, 's) device, device_error, unit) prog" where
  "is_alive e n = is_alive_loop e (unat n) BaudDetection"

definition read_vint :: "'w env \<Rightarrow> ('w, device_error, power_state) prog" where
  "read_vint e w =
     (case vint_is_high e w of
        (None, w') \<Rightarrow> Some (Inl (Dev_Generic Unsupported), w')
      | (Some high, w') \<Rightarrow> Some (Inr (if high then On else Off), w'))"

definition power_state :: "'w env \<Rightarrow> (('w, 's) device, device_error, power_state) prog" where
  "power_state e =
     (if cfg_vint_pin (config e) then on_dev_world (read_vint e)
      else bindP (attempt (is_alive e 2)) (\<lambda>res. okP (if is_err res then Off else On)))"

partial_function (option) wait_power_loop ::
    "'w env \<Rightarrow> power_state \<Rightarrow> duration \<Rightarrow> instant \<Rightarrow> ('w, 's) device
     \<Rightarrow> ((device_error + bool) \<times> ('w, 's) device) option" where
  [code]: "wait_power_loop e expected timeout start d =
     bindP (dev_clock e) (\<lambda>t.
       if (case checked_duration_since t start of None \<Rightarrow> False | Some dur \<Rightarrow> dur < timeout) then
         bindP (power_state e) (\<lambda>p.
           if p = expected then okP True
           else thenP (wait_for e (from_millis 5)) (wait_power_loop e expected timeout start))
       else okP False) d"

definition wait_power_state ::
    "'w env \<Rightarrow> power_state \<Rightarrow> duration \<Rightarrow> (('w, 's) device, device_error, unit) prog" where
  "wait_power_state e expected timeout =
     bindP (dev_clock e) (\<lambda>start.
     bindP (wait_power_loop e expected timeout start) (\<lambda>res.
       if res then okP () else errP (Dev_Generic Timeout)))"

section \<open>Resetting and switching\<close>

definition soft_reset :: "'w env \<Rightarrow> bool \<Rightarrow> (('w, 's) device, device_error, unit) prog" where
  "soft_reset e sim_reset =
     (let fun = if sim_reset then functionality.SilentResetWithSimReset else functionality.SilentReset in
      thenP (dev_send e (plain (Mobile_Control (SetModuleFunctionality fun (min_reset_mode e)))) False)
            (map_errP (\<lambda>_. Dev_Generic Timeout) (wait_power_state e On (from_secs 30))))"

text \<open>The pulse on \<open>RESET_N\<close>, where there is such a pin.\<close>

definition reset_pulse :: "'w env \<Rightarrow> (('w, 's) device, device_error, unit) prog" where
  "reset_pulse e =
     whenP (cfg_reset_pin (config e))
       (thenP (drive e Reset_Pin False)
       (thenP (wait_for e (reset_time (variant e)))
       (thenP (drive e Reset_Pin True)
              (wait_for e (from_secs 5)))))"

text \<open>\<open>hard_reset\<close>, with its call of \<open>power_on\<close> as the argument.\<close>

definition hard_reset_with ::
    "'w env \<Rightarrow> (('w, 's) device, device_error, unit) prog \<Rightarrow> (('w, 's) device, device_error, unit) prog" where
  "hard_reset_with e power_on =
     thenP (reset_pulse e)
    (thenP (set_power Off)
           power_on)"

lemma hard_reset_with_mono [partial_function_mono]:
  "(\<And>s. mono_option (\<lambda>f. B f s)) \<Longrightarrow> mono_option (\<lambda>f. hard_reset_with e (B f) s)"
  unfolding hard_reset_with_def by (intro partial_function_mono)

text \<open>The pulse on \<open>PWR_ON\<close>, and the wait for the module to come up.\<close>

definition power_pulse_on :: "'w env \<Rightarrow> (('w, 's) device, device_error, unit) prog" where
  "power_pulse_on e =
     thenP (drive e Power_Pin False)
    (thenP (wait_for e (pwr_on_time (variant e)))
    (thenP (drive e Power_Pin True)
    (thenP (wait_power_state e On (from_secs 10))
           (wait_for e (from_secs 3)))))"

partial_function (option) power_on ::
    "'w env \<Rightarrow> ('w, 's) device \<Rightarrow> ((device_error + unit) \<times> ('w, 's) device) option" where
  [code]: "power_on e d =
     bindP (power_state e) (\<lambda>p.
       if p \<noteq> On then
         (if cfg_power_pin (config e) then power_pulse_on e
          else
            bindP (attempt (soft_reset e False)) (\<lambda>res.
              if is_err res then hard_reset_with e (power_on e) else okP ()))
       else okP ()) d"

definition hard_reset :: "'w env \<Rightarrow> (('w, 's) device, device_error, unit) prog" where
  "hard_reset e = hard_reset_with e (power_on e)"

definition factory_reset :: "'w env \<Rightarrow> (('w, 's) device, device_error, unit) prog" where
  "factory_reset e =
     thenP (dev_send e (plain (System_Features
         (SetFactoryConfiguration AllFiles NVMFlashSectors))) False)
    (bindP (attempt (soft_reset e True)) (\<lambda>res.
       whenP (is_err res) (hard_reset e)))"

definition soft_power_off :: "'w env \<Rightarrow> (('w, 's) device, device_error, unit) prog" where
  "soft_power_off e =
     thenP (dev_send e (plain (Mobile_Control ModuleSwitchOff)) False)
    (thenP (set_power Off)
           (wait_for e (from_secs 10)))"

definition hard_power_off :: "'w env \<Rightarrow> (('w, 's) device, device_error, unit) prog" where
  "hard_power_off e =
     bindP (power_state e) (\<lambda>p.
       if p = On then
         (if cfg_power_pin (config e) then
            thenP (drive e Power_Pin False)
           (thenP (wait_for e (pwr_off_time (variant e)))
           (thenP (drive e Power_Pin True)
                  (set_power Off)))
          else errP (Dev_Generic Unsupported))
       else okP ())"

end
