(* ===== verification/Power_Proofs.thy ===== *)
theory Power_Proofs
  imports Power_Control
begin

text \<open>
  What holds of \<open>Power_Control\<close>: the waits return on a ticking clock and last as long as they say;
  probing sends as many \<open>AT\<close> as it may; every operation leaves the registration, the context
  and the sockets alone (the locale \<open>power_relation\<close>, interpreted for that frame and for the
  passing of time); \<open>power_on\<close> returns when it has a \<open>PWR_ON\<close> pin and never returns without one
  while the modem is silent; the power state recorded after each operation.
\<close>

section \<open>Waiting\<close>

lemma timer_wait_ok: "timer_wait e t w = Some (r, w') \<Longrightarrow> r = Inr ()"
  by (rule timer_wait.raw_induct [where P = "\<lambda>_ _ _ y. fst y = Inr ()", of e t w "(r, w')", simplified])
    (auto split: prod.splits if_splits)

lemma timer_after_ok: "timer_after e d w = Some (r, w') \<Longrightarrow> r = Inr ()"
  by (auto simp: timer_after_def bindP_def dest: timer_wait_ok split: option.splits sum.splits prod.splits)
    (simp add: clock_def split: prod.splits)

lemma timer_wait_returns:
  assumes "ticking e clk"
  shows "\<exists>w'. timer_wait e t w = Some (Inr (), w') \<and> t < clk w' \<and> clk w < clk w'"
proof (induction "t - clk w" arbitrary: w rule: less_induct)
  case less
  obtain s v where run: "now e w = (s, v)" by fastforce
  then have v: "s = clk w" "clk w < clk v"
    using assms by (auto simp: ticking_def dest: spec [of _ w])
  show ?case
  proof (cases "t \<le> s")
    case True
    with run v show ?thesis by (subst timer_wait.simps) simp
  next
    case False
    with v have "t - clk v < t - clk w" by simp
    from less [OF this] obtain w' where
      "timer_wait e t v = Some (Inr (), w')" "t < clk w'" "clk v < clk w'" by blast
    with run v False show ?thesis by (subst timer_wait.simps) simp
  qed
qed

lemma timer_after_returns:
  assumes "ticking e clk"
  shows "\<exists>w'. timer_after e d w = Some (Inr (), w') \<and> clk w + d < clk w'"
proof -
  obtain s v where run: "now e w = (s, v)" by fastforce
  then have v: "s = clk w" using assms by (auto simp: ticking_def dest: spec [of _ w])
  obtain w' where "timer_wait e (s + d) v = Some (Inr (), w')" "s + d < clk w'"
    using timer_wait_returns [OF assms] by blast
  with run v show ?thesis by (auto simp: timer_after_def bindP_def clock_def)
qed

section \<open>Relations the power operations keep\<close>

definition put_tx :: "'w at_tx \<Rightarrow> ('w, 's) device \<Rightarrow> ('w, 's) device" where
  "put_tx t d = d\<lparr>dev_network := (dev_network d)\<lparr>net_tx := t\<rparr>\<rparr>"

definition put_world :: "'w \<Rightarrow> ('w, 's) device \<Rightarrow> ('w, 's) device" where
  "put_world w d = put_tx ((net_tx (dev_network d))\<lparr>tx_world := w\<rparr>) d"

lemma on_dev_world_run:
  "on_dev_world m d =
     (case m (dev_world d) of None \<Rightarrow> None | Some (r, w) \<Rightarrow> Some (r, put_world w d))"
  by (cases d) (auto simp: on_dev_world_def on_net_def zoom_def put_world_def put_tx_def
      split: option.split)

lemma put_world_simps [simp]:
  "dev_world (put_world w d) = w" "dev_world (put_tx t d) = tx_world t"
  "put_world w (put_world v d) = put_world w d"
  by (simp_all add: put_world_def put_tx_def)

locale power_relation = step_relation R
  for R :: "('w, 's) device \<Rightarrow> ('w, 's) device \<Rightarrow> bool" +
  fixes e :: "'w env" and allowed :: "at_req \<Rightarrow> bool"
  assumes R_clock: "now e (dev_world d) = (t, w) \<Longrightarrow> R d (put_world w d)"
    and R_send: "allowed q \<Longrightarrow> send_raw e q (dev_world d) = (x, w) \<Longrightarrow>
      R d (put_tx \<lparr>tx_timeouts = k, tx_world = w\<rparr> d)"
    and R_pin: "R d (put_world (set_pin e p b (dev_world d)) d)"
    and R_vint: "vint_is_high e (dev_world d) = (v, w) \<Longrightarrow> R d (put_world w d)"
begin

lemma dev_clock: "keeps R (dev_clock e)"
  by (rule keepsI)
    (auto simp: dev_clock_def on_dev_world_run clock_def intro: R_clock split: prod.splits)

lemma drive: "keeps R (drive e p b)"
  by (rule keepsI) (auto simp: drive_def on_dev_world_run modifyP_def intro: R_pin)

lemma at_send:
  assumes "allowed (cmd_req c)"
  shows "keeps R (on_net (on_tx (at_send e c)))"
proof (rule keepsI)
  fix d d' :: "('w, 's) device" and r
  assume run: "on_net (on_tx (at_send e c)) d = Some (r, d')"
  obtain x w where x: "send_raw e (cmd_req c) (dev_world d) = (x, w)" by fastforce
  have "R d (put_tx \<lparr>tx_timeouts = k, tx_world = w\<rparr> d)" for k
    by (rule R_send [OF assms x])
  with run x show "R d d'"
    by (auto simp: on_net_def zoom_def at_send_run send_retry_def put_tx_def
        split: sum.splits option.splits)
qed

lemma on_net_attempt: "keeps R (on_net m) \<Longrightarrow> keeps R (on_net (map_errP f m))"
  by (fastforce simp: keeps_def on_net_def zoom_def map_errP_def split: option.splits)

lemma dev_send_quiet:
  assumes "allowed (cmd_req c)"
  shows "keeps R (dev_send e c False)"
proof -
  have "send_internal e c False = on_tx (at_send e c)"
    by (rule ext) (simp add: send_internal_def thenP_def whenP_def)
  then show ?thesis unfolding dev_send_def using assms by (auto intro: map_errP at_send)
qed

lemma timer_wait_world:
  assumes "timer_wait e t w = Some y"
  shows "dev_world d = w \<Longrightarrow> R d (put_world (snd y) d)"
proof -
  have "\<forall>d. e = e \<longrightarrow> dev_world d = w \<longrightarrow> R d (put_world (snd y) d)"
  proof (rule timer_wait.raw_induct
      [where P = "\<lambda>e' t w y. \<forall>d. e' = e \<longrightarrow> dev_world d = w \<longrightarrow> R d (put_world (snd y) d)",
       OF _ assms])
    fix f e' t w y
    assume IH: "\<And>e' t w y. f e' t w = Some y \<Longrightarrow>
        \<forall>d. e' = e \<longrightarrow> dev_world d = w \<longrightarrow> R d (put_world (snd y) d)"
      and step: "(case now e' w of (s, v) \<Rightarrow> if t \<le> s then Some (Inr (), v) else f e' t v) = Some y"
    show "\<forall>d. e' = e \<longrightarrow> dev_world d = w \<longrightarrow> R d (put_world (snd y) d)"
    proof (intro allI impI)
      fix d :: "('w, 's) device"
      assume "e' = e" and w: "dev_world d = w"
      obtain s v where now: "now e w = (s, v)" by fastforce
      have R: "R d (put_world v d)" by (rule R_clock) (simp add: w now)
      show "R d (put_world (snd y) d)"
      proof (cases "t \<le> s")
        case True
        with step now R \<open>e' = e\<close> show ?thesis by auto
      next
        case False
        with step now \<open>e' = e\<close> have "f e t v = Some y" by simp
        from IH [OF this] have "R (put_world v d) (put_world (snd y) (put_world v d))"
          by (simp del: put_world_simps(3))
        with R R_trans show ?thesis by (metis put_world_simps(3))
      qed
    qed
  qed
  then show "dev_world d = w \<Longrightarrow> R d (put_world (snd y) d)" by simp
qed

lemma wait_for: "keeps R (wait_for e t)"
proof (rule keepsI)
  fix d d' :: "('w, 's) device" and r
  assume run: "wait_for e t d = Some (r, d')"
  obtain s v where now: "now e (dev_world d) = (s, v)" by fastforce
  with run obtain y where y: "timer_wait e (s + t) v = Some y" "d' = put_world (snd y) d"
    by (auto simp: on_dev_world_run timer_after_def bindP_def clock_def split: option.splits)
  have "R d (put_world v d)" by (rule R_clock) (rule now)
  moreover have "R (put_world v d) (put_world (snd y) (put_world v d))"
    by (rule timer_wait_world [OF y(1)]) simp
  ultimately show "R d d'" using y(2) R_trans by (metis put_world_simps(3))
qed

lemmas power_rules = rules dev_clock drive wait_for dev_send_quiet

lemma is_alive:
  assumes "allowed AT"
  shows "keeps R (is_alive e n)"
proof -
  have "keeps R (is_alive_loop e k x)" for k x
  proof (induction k arbitrary: x)
    case (Suc k)
    then show ?case
      by (simp add: at_send_ignore_timeout_eq) (intro rules at_send, simp_all add: assms)
  qed (simp add: errP)
  then show ?thesis by (simp add: is_alive_def)
qed

lemma read_vint: "keeps R (on_dev_world (read_vint e))"
  by (rule keepsI)
    (auto simp: on_dev_world_run read_vint_def intro: R_vint split: prod.splits option.splits)

lemma power_state: "allowed AT \<Longrightarrow> keeps R (power_state e)"
  unfolding power_state_def by (intro rules read_vint is_alive)

lemma wait_power_loop:
  assumes "allowed AT" "wait_power_loop e p t s d = Some y"
  shows "R d (snd y)"
proof -
  have "e = e \<longrightarrow> R d (snd y)"
  proof (rule wait_power_loop.raw_induct
      [where P = "\<lambda>e' p t s d y. e' = e \<longrightarrow> R d (snd y)", OF _ assms(2)])
    fix f e' p t s and d :: "('w, 's) device" and y :: "(device_error + bool) \<times> ('w, 's) device"
    assume IH: "\<And>e' p t s d y. f e' p t s d = Some y \<Longrightarrow> e' = e \<longrightarrow> R d (snd y)"
      and step: "bindP (dev_clock e') (\<lambda>t'.
        if (case checked_duration_since t' s of None \<Rightarrow> False | Some dur \<Rightarrow> dur < t)
        then bindP (power_state e') (\<lambda>p'. if p' = p then okP True
               else thenP (wait_for e' (from_millis 5)) (f e' p t s))
        else okP False) d = Some y"
    show "e' = e \<longrightarrow> R d (snd y)"
    proof
      assume "e' = e"
      have "keeps R (f e p t s)"
        by (rule keepsI) (use IH in fastforce)
      then have "keeps R (bindP (dev_clock e) (\<lambda>t'.
        if (case checked_duration_since t' s of None \<Rightarrow> False | Some dur \<Rightarrow> dur < t)
        then bindP (power_state e) (\<lambda>p'. if p' = p then okP True
               else thenP (wait_for e (from_millis 5)) (f e p t s))
        else okP False))"
        by (intro power_rules power_state assms(1))
      with step \<open>e' = e\<close> show "R d (snd y)" by (cases y) (auto dest: keepsD)
    qed
  qed
  then show ?thesis by simp
qed

lemma wait_power_state: "allowed AT \<Longrightarrow> keeps R (wait_power_state e p t)"
  unfolding wait_power_state_def
  by (intro power_rules keepsI) (auto dest: wait_power_loop)

lemma soft_reset:
  assumes "allowed AT"
    and "\<And>f. f \<in> {functionality.SilentResetWithSimReset, functionality.SilentReset} \<Longrightarrow>
      allowed (Mobile_Control (SetModuleFunctionality f (min_reset_mode e)))"
  shows "keeps R (soft_reset e b)"
  unfolding soft_reset_def Let_def
  by (intro power_rules wait_power_state assms) (simp_all add: assms)

end


text \<open>With the recorded power state free to become \<open>Off\<close>, the relation carries through the
  operations that reset and switch.\<close>

locale switch_relation = power_relation R e allowed
  for R :: "('w, 's) device \<Rightarrow> ('w, 's) device \<Rightarrow> bool" and e :: "'w env"
    and allowed :: "at_req \<Rightarrow> bool" +
  assumes R_off: "R d (d\<lparr>dev_power := Off\<rparr>)"
    and allowed_power: "allowed AT"
      "allowed (Mobile_Control (SetModuleFunctionality functionality.SilentResetWithSimReset
         (min_reset_mode e)))"
      "allowed (Mobile_Control (SetModuleFunctionality functionality.SilentReset (min_reset_mode e)))"
begin

lemma soft_reset_allowed: "keeps R (soft_reset e b)"
  by (rule soft_reset) (auto simp: allowed_power)

lemma set_off: "keeps R (set_power Off)"
  unfolding set_power_def by (rule modifyP) (rule R_off)

lemma hard_reset_with: "keeps R m \<Longrightarrow> keeps R (hard_reset_with e m)"
  unfolding hard_reset_with_def reset_pulse_def by (intro power_rules set_off)

lemma power_pulse_on: "keeps R (power_pulse_on e)"
  unfolding power_pulse_on_def by (intro power_rules wait_power_state allowed_power)

lemma power_on: "keeps R (power_on e)"
proof (rule keepsI)
  fix d d' :: "('w, 's) device" and r
  assume run: "power_on e d = Some (r, d')"
  have "e = e \<longrightarrow> R d (snd (r, d'))"
  proof (rule power_on.raw_induct [where P = "\<lambda>e' d y. e' = e \<longrightarrow> R d (snd y)", OF _ run])
    fix f e' and d :: "('w, 's) device" and y :: "(device_error + unit) \<times> ('w, 's) device"
    assume IH: "\<And>e' d y. f e' d = Some y \<Longrightarrow> e' = e \<longrightarrow> R d (snd y)"
      and step: "bindP (power_state e') (\<lambda>p. if p \<noteq> On
        then if cfg_power_pin (config e') then power_pulse_on e'
          else bindP (attempt (soft_reset e' False))
            (\<lambda>res. if is_err res then hard_reset_with e' (f e') else okP ())
        else okP ()) d = Some y"
    show "e' = e \<longrightarrow> R d (snd y)"
    proof
      assume "e' = e"
      have "keeps R (f e)"
        by (rule keepsI) (use IH in fastforce)
      then have "keeps R (bindP (power_state e) (\<lambda>p. if p \<noteq> On
        then if cfg_power_pin (config e) then power_pulse_on e
          else bindP (attempt (soft_reset e False))
            (\<lambda>res. if is_err res then hard_reset_with e (f e) else okP ())
        else okP ()))"
        by (intro rules power_state power_pulse_on soft_reset_allowed hard_reset_with allowed_power)
      with step \<open>e' = e\<close> show "R d (snd y)" by (cases y) (auto dest: keepsD)
    qed
  qed
  then show "R d d'" by simp
qed

lemma hard_reset: "keeps R (hard_reset e)"
  unfolding hard_reset_def by (rule hard_reset_with) (rule power_on)

lemma hard_power_off: "keeps R (hard_power_off e)"
  unfolding hard_power_off_def by (intro power_rules power_state set_off allowed_power)

end

text \<open>What the power operations leave alone.\<close>

definition power_frame :: "('w, 's) device \<Rightarrow> ('w, 's) device \<Rightarrow> bool" where
  "power_frame d d' \<longleftrightarrow>
     net_status (dev_network d') = net_status (dev_network d)
     \<and> net_context (dev_network d') = net_context (dev_network d)
     \<and> dev_state d' = dev_state d \<and> dev_sockets d' = dev_sockets d
     \<and> (dev_power d' = dev_power d \<or> dev_power d' = Off)"

interpretation power_frame: switch_relation power_frame e "\<lambda>_. True" for e
  by unfold_locales (auto simp: power_frame_def put_world_def put_tx_def)

definition dev_time_passes :: "('w \<Rightarrow> instant) \<Rightarrow> ('w, 's) device \<Rightarrow> ('w, 's) device \<Rightarrow> bool" where
  "dev_time_passes clk d d' \<longleftrightarrow> clk (dev_world d) \<le> clk (dev_world d')"

lemma dev_time_relation:
  assumes "monotone_world e clk"
  shows "switch_relation (dev_time_passes clk) e (\<lambda>_. True)"
proof
  show "dev_time_passes clk d (put_world w d)" if "now e (dev_world d) = (t, w)" for d t w
    using assms that unfolding monotone_world_def dev_time_passes_def
    by simp (metis snd_conv)
  show "dev_time_passes clk d (put_tx \<lparr>tx_timeouts = k, tx_world = w\<rparr> d)"
    if "send_raw e q (dev_world d) = (x, w)" for d q x w k
    using assms that unfolding monotone_world_def dev_time_passes_def
    by simp (metis snd_conv)
  show "dev_time_passes clk d (put_world w d)" if "vint_is_high e (dev_world d) = (v, w)" for d v w
    using assms that unfolding monotone_world_def dev_time_passes_def
    by simp (metis snd_conv)
  show "dev_time_passes clk d (put_world (set_pin e p b (dev_world d)) d)" for d p b
    using assms unfolding monotone_world_def dev_time_passes_def by simp
qed (auto simp: dev_time_passes_def)

section \<open>Operations that return\<close>

lemma halts_on_net [halting]: "halts m \<Longrightarrow> halts (on_net m)"
  by (simp add: on_net_def halts_zoom)

lemma halts_on_dev_world [halting]: "halts m \<Longrightarrow> halts (on_dev_world m)"
  by (simp add: on_dev_world_def halts_on_net halts_zoom)

lemma halts_drive [halting, simp]: "halts (drive e p b)"
  by (simp add: drive_def halts_on_dev_world)

lemma halts_dev_clock [halting, simp]: "halts (dev_clock e)"
  by (simp add: dev_clock_def halts_on_dev_world)

lemma halts_dev_send [halting, simp]: "halts (dev_send e c b)"
  by (simp add: dev_send_def halts_map_errP halts_on_net)

lemma halts_is_alive [halting, simp]: "halts (is_alive e n)"
proof -
  have "halts (is_alive_loop e k x)" for k x
    by (induction k arbitrary: x)
      (simp_all add: at_send_ignore_timeout_eq halts_bindP halts_attempt halts_on_net halts_zoom
        split: sum.split)
  then show ?thesis by (simp add: is_alive_def)
qed

lemma halts_read_vint [halting, simp]: "halts (read_vint e)"
  by (rule haltsI) (simp add: read_vint_def split: prod.split option.split)

lemma halts_power_state [halting, simp]: "halts (power_state e)"
  by (simp add: power_state_def halts_on_dev_world halts_bindP halts_attempt)

lemma halts_set_power [halting, simp]: "halts (set_power p)"
  by (simp add: set_power_def)

lemma halts_wait_for [halting]: "ticking e clk \<Longrightarrow> halts (wait_for e t)"
  by (intro halts_on_dev_world haltsI) (metis timer_after_returns option.distinct(1))

lemma wait_power_loop_returns:
  assumes "ticking e clk" "monotone_world e clk"
  shows "wait_power_loop e p t s d \<noteq> None"
proof (induction "s + t - clk (dev_world d)" arbitrary: d rule: less_induct)
  case less
  obtain u v where now: "now e (dev_world d) = (u, v)" by fastforce
  then have u: "u = clk (dev_world d)" "clk (dev_world d) < clk v"
    using assms(1) by (auto simp: ticking_def dest: spec [of _ "dev_world d"])
  obtain r d2 where st: "power_state e (put_world v d) = Some (r, d2)"
    using haltsD [OF halts_power_state] by blast
  have 2: "clk v \<le> clk (dev_world d2)"
    using keepsD [OF power_relation.power_state [OF switch_relation.axioms(1)
        [OF dev_time_relation [OF assms(2)]]] st] by (simp add: dev_time_passes_def)
  obtain w3 where w3: "timer_after e (from_millis 5) (dev_world d2) = Some (Inr (), w3)"
      "clk (dev_world d2) + from_millis 5 < clk w3"
    using timer_after_returns [OF assms(1)] by blast
  show ?case
  proof (cases "u - s < t \<and> s \<le> u")
    case True
    then have "s + t - clk (dev_world (put_world w3 d2)) < s + t - clk (dev_world d)"
      using u 2 w3(2) by (simp only: put_world_simps) linarith
    from less [OF this] show ?thesis
      using now st w3(1)
      by (subst wait_power_loop.simps)
        (auto simp: bindP_def thenP_def okP_def dev_clock_def on_dev_world_run clock_def
          split: sum.splits)
  next
    case False
    then show ?thesis
      using now
      by (subst wait_power_loop.simps)
        (auto simp: bindP_def okP_def dev_clock_def on_dev_world_run clock_def
          checked_duration_since_def)
  qed
qed

lemma halts_wait_power_loop:
  "ticking e clk \<Longrightarrow> monotone_world e clk \<Longrightarrow> halts (wait_power_loop e p t s)"
  by (rule haltsI) (rule wait_power_loop_returns)

lemma halts_wait_power_state [halting]:
  "ticking e clk \<Longrightarrow> monotone_world e clk \<Longrightarrow> halts (wait_power_state e p t)"
  by (simp add: wait_power_state_def halts_bindP halts_wait_power_loop)

lemma halts_soft_reset [halting]:
  "ticking e clk \<Longrightarrow> monotone_world e clk \<Longrightarrow> halts (soft_reset e b)"
  by (simp add: soft_reset_def Let_def halts_thenP halts_map_errP halts_wait_power_state)

lemma halts_power_pulse_on:
  "ticking e clk \<Longrightarrow> monotone_world e clk \<Longrightarrow> halts (power_pulse_on e)"
  by (simp add: power_pulse_on_def halts_thenP halts_wait_for halts_wait_power_state)

lemma power_on_with_pin:
  assumes "cfg_power_pin (config e)"
  shows "power_on e = bindP (power_state e) (\<lambda>p. if p \<noteq> On then power_pulse_on e else okP ())"
  by (rule ext, subst power_on.simps) (simp add: assms)

lemma halts_power_on:
  assumes "ticking e clk" "monotone_world e clk" "cfg_power_pin (config e)"
  shows "halts (power_on e)"
  by (simp add: power_on_with_pin assms(3) halts_bindP halts_power_pulse_on [OF assms(1,2)])

lemma halts_hard_reset_with [halting]:
  "ticking e clk \<Longrightarrow> halts m \<Longrightarrow> halts (hard_reset_with e m)"
  by (simp add: hard_reset_with_def reset_pulse_def halts_thenP halts_whenP halts_wait_for)

lemma halts_hard_reset:
  "ticking e clk \<Longrightarrow> monotone_world e clk \<Longrightarrow> cfg_power_pin (config e) \<Longrightarrow> halts (hard_reset e)"
  unfolding hard_reset_def by (intro halts_hard_reset_with halts_power_on)

section \<open>Outcomes\<close>

lemma wp_wait_for: "(\<And>w. Q () (put_world w d)) \<Longrightarrow> wp (wait_for e t) Q E d"
  by (rule wpI) (auto simp: on_dev_world_run dest: timer_after_ok split: option.splits)

lemma timer_wait_logged:
  assumes "timer_wait (logged e) t w = Some y"
  shows "sent (snd y) = sent w"
proof -
  have "logged e = logged e \<longrightarrow> sent (snd y) = sent w"
    by (rule timer_wait.raw_induct
        [where P = "\<lambda>e' t w y. e' = logged e \<longrightarrow> sent (snd y) = sent w", OF _ assms])
      (force simp: logged_def split: prod.splits if_splits)
  then show ?thesis by simp
qed

lemma timer_after_logged:
  assumes "timer_after (logged e) t w = Some (r, w')"
  shows "sent w' = sent w"
proof -
  obtain s v where now: "now (logged e) w = (s, v)" by (metis surj_pair)
  then have "sent v = sent w" by (cases w) (auto simp: logged_def split: prod.splits)
  moreover have "timer_wait (logged e) (s + t) v = Some (r, w')"
    using assms now by (simp add: timer_after_def bindP_def clock_def)
  ultimately show ?thesis using timer_wait_logged by fastforce
qed

lemma wp_wait_for_logged:
  assumes "\<And>w. sent w = sent (dev_world d) \<Longrightarrow> Q () (put_world w d)"
  shows "wp (wait_for (logged e) t) Q E d"
  using assms
  by (intro wpI)
    (auto simp: on_dev_world_run dest: timer_after_ok timer_after_logged split: option.splits)

lemma wp_dev_clock:
  assumes "\<And>t w. now e (dev_world d) = (t, w) \<Longrightarrow> Q t (put_world w d)"
  shows "wp (dev_clock e) Q E d"
  using assms by (simp add: wp_def dev_clock_def on_dev_world_run clock_def split: prod.split)

lemma wp_drive [simp]: "wp (drive e p b) Q E d \<longleftrightarrow> Q () (put_world (set_pin e p b (dev_world d)) d)"
  by (simp add: wp_def drive_def on_dev_world_run modifyP_def)

lemma wp_set_power [simp]: "wp (set_power p) Q E d \<longleftrightarrow> Q () (d\<lparr>dev_power := p\<rparr>)"
  by (simp add: set_power_def)

text \<open>A hard reset reaches \<open>power_on\<close> whenever it returns, with the power state set to off.\<close>

lemma hard_reset_with_cases:
  assumes "hard_reset_with e m d = Some (r, d')"
  shows "\<exists>d1. m d1 = Some (r, d') \<and> dev_power d1 = Off \<and> power_frame d d1"
proof -
  have frame: "keeps power_frame (reset_pulse e)"
    unfolding reset_pulse_def by (intro power_frame.power_rules)
  have "wp (reset_pulse e) (\<lambda>_ _. True) (\<lambda>_ _. False) d"
    by (auto simp: reset_pulse_def whenP_def intro!: wp_wait_for)
  with assms obtain d1 where 1: "reset_pulse e d = Some (Inr (), d1)"
    and 2: "m (d1\<lparr>dev_power := Off\<rparr>) = Some (r, d')"
    by (auto simp: wp_def hard_reset_with_def thenP_def bindP_def set_power_def modifyP_def
        split: option.splits sum.splits)
  have "power_frame d (d1\<lparr>dev_power := Off\<rparr>)"
    using keepsD [OF frame 1] by (simp add: power_frame_def)
  with 2 show ?thesis by fastforce
qed

lemma wp_hard_reset:
  assumes "\<And>r d'. power_frame d d' \<Longrightarrow> dev_power d' = Off \<Longrightarrow> Q r d'"
    and "\<And>x d'. power_frame d d' \<Longrightarrow> dev_power d' = Off \<Longrightarrow> E x d'"
  shows "wp (hard_reset e) Q E d"
proof -
  have "power_frame d d' \<and> dev_power d' = Off" if run: "hard_reset e d = Some (r, d')" for r d'
  proof -
    obtain d1 where 1: "power_on e d1 = Some (r, d')" "dev_power d1 = Off" "power_frame d d1"
      using hard_reset_with_cases run unfolding hard_reset_def by blast
    have 2: "power_frame d1 d'" by (rule keepsD [OF power_frame.power_on 1(1)])
    with 1 show ?thesis using power_frame.R_trans [OF 1(3) 2] by (auto simp: power_frame_def)
  qed
  with assms show ?thesis by (intro wpI) simp_all
qed

lemma power_on_when_on:
  assumes "power_state e d = Some (Inr On, d1)"
  shows "power_on e d = Some (Inr (), d1)"
  using assms by (subst power_on.simps) (simp add: bindP_def okP_def)

lemma power_state_silent:
  assumes "silent e" "\<not> cfg_vint_pin (config e)"
  shows "wp (power_state e) (\<lambda>p _. p = Off) (\<lambda>_ _. False) d"
proof -
  have send: "wp (on_net (on_tx (at_send e c))) (\<lambda>_ _. False) (\<lambda>_ _. True) d" for c :: "unit at_cmd" and d
  proof -
    have "wp (send_internal e c False) (\<lambda>_ _. False) (\<lambda>_ _. True) n" for n
      by (rule wp_send_silent [OF assms(1)]) simp
    then show ?thesis
      by (simp add: on_net_def send_internal_def)
  qed
  have "wp (is_alive_loop e k x) (\<lambda>_ _. False) (\<lambda>_ _. True) d" for k x d
    by (induction k arbitrary: x d)
      (auto simp: at_send_ignore_timeout_eq intro!: wp_mono [OF send])
  then have alive: "wp (is_alive e 2) (\<lambda>_ _. False) (\<lambda>_ _. True) d"
    by (simp add: is_alive_def)
  show ?thesis
    using assms(2) by (simp add: power_state_def) (rule wp_mono [OF alive], simp_all)
qed

lemma soft_reset_silent:
  assumes "silent e"
  shows "wp (soft_reset e b) (\<lambda>_ _. False) (\<lambda>_ _. True) d"
  by (auto simp: soft_reset_def Let_def dev_send_def on_net_def intro!: wp_send_silent [OF assms])

lemma power_on_diverges:
  assumes "silent e" "\<not> cfg_vint_pin (config e)" "\<not> cfg_power_pin (config e)"
  shows "power_on e d = None"
proof (rule ccontr)
  assume "power_on e d \<noteq> None"
  then obtain y where run: "power_on e d = Some y" by auto
  have "e = e \<longrightarrow> False"
  proof (rule power_on.raw_induct [where P = "\<lambda>e' _ _. e' = e \<longrightarrow> False", OF _ run])
    fix f e' and d :: "('a, 'b) device" and y :: "(device_error + unit) \<times> ('a, 'b) device"
    assume IH: "\<And>e' d y. f e' d = Some y \<Longrightarrow> e' = e \<longrightarrow> False"
      and step: "bindP (power_state e') (\<lambda>p. if p \<noteq> On
        then if cfg_power_pin (config e') then power_pulse_on e'
          else bindP (attempt (soft_reset e' False))
            (\<lambda>res. if is_err res then hard_reset_with e' (f e') else okP ())
        else okP ()) d = Some y"
    show "e' = e \<longrightarrow> False"
    proof
      assume e: "e' = e"
      have "hard_reset_with e (f e) d' = None" for d'
      proof (cases "hard_reset_with e (f e) d'")
        case (Some z)
        then obtain r d2 where "hard_reset_with e (f e) d' = Some (r, d2)" by (cases z) simp
        from hard_reset_with_cases [OF this] IH show ?thesis by blast
      qed simp
      then have reset: "wp (hard_reset_with e (f e)) (\<lambda>_ _. False) (\<lambda>_ _. False) d'" for d'
        by (simp add: wp_def)
      have "wp (bindP (power_state e) (\<lambda>p. if p \<noteq> On
        then if cfg_power_pin (config e) then power_pulse_on e
          else bindP (attempt (soft_reset e False))
            (\<lambda>res. if is_err res then hard_reset_with e (f e) else okP ())
        else okP ())) (\<lambda>_ _. False) (\<lambda>_ _. False) d"
        unfolding wp_bindP
        by (rule wp_mono [OF power_state_silent [OF assms(1,2)]])
          (simp_all add: assms(3) reset wp_mono [OF soft_reset_silent [OF assms(1)]])
      with step e show False
        by (cases y; cases "fst y") (auto simp: wp_def)
    qed
  qed
  then show False by simp
qed

section \<open>Properties\<close>

text \<open>A \<open>BlockingTimer\<close> returns on a ticking clock, and not before its time: the clock has
  moved by more than the duration asked for.\<close>

theorem timer_lasts:
  assumes "ticking e clk"
  shows "\<exists>w'. timer_after e d w = Some (Inr (), w') \<and> clk w + d < clk w'"
  by (rule timer_after_returns [OF assms])

theorem timer_lasts_witness:
  "\<exists>w'. timer_after (script_env Toby_R2 default_config) 7 script_start = Some (Inr (), w')
     \<and> 7 < sw_time w'"
  using timer_lasts [OF script_ticking, of Toby_R2 default_config 7 script_start]
  by (simp add: script_start_def)

text \<open>On a clock that stands still a \<open>BlockingTimer\<close> never returns.\<close>

theorem timer_hangs_on_stopped_clock:
  assumes "now e w = (t, w)" "0 < d"
  shows "timer_after e d w = None"
proof (rule ccontr)
  assume "timer_after e d w \<noteq> None"
  then obtain y where run: "timer_wait e (t + d) w = Some y"
    using assms by (auto simp: timer_after_def bindP_def clock_def)
  have "e = e \<and> t + d = t + d \<and> w = w \<longrightarrow> False"
    by (rule timer_wait.raw_induct
        [where P = "\<lambda>e' s w' _. e' = e \<and> s = t + d \<and> w' = w \<longrightarrow> False", OF _ run])
      (use assms in \<open>auto, blast\<close>)
  then show False by simp
qed

theorem timer_hangs_on_stopped_clock_witness:
  "timer_after ((script_env Toby_R2 default_config)\<lparr>now := \<lambda>w. (5, w)\<rparr>) 1 script_start = None"
  by (rule timer_hangs_on_stopped_clock) simp_all

text \<open>\<open>is_alive\<close> sends nothing but \<open>AT\<close>, at most as many as it may, stops at the first answer,
  and fails only when none of them was answered.\<close>

theorem is_alive_attempts:
  assumes "is_alive (logged e) a d = Some (res, d')"
  shows "\<exists>k \<le> unat a. sent (dev_world d') = sent (dev_world d) @ replicate k AT
    \<and> (if is_err res then k = unat a
       else 0 < k \<and> tx_timeouts (net_tx (dev_network d')) = 0)"
proof -
  have loop: "wp (is_alive_loop (logged e) n x)
     (\<lambda>_ d'. \<exists>k \<le> n. sent (dev_world d') = sent (dev_world d) @ replicate k AT
        \<and> 0 < k \<and> tx_timeouts (net_tx (dev_network d')) = 0)
     (\<lambda>_ d'. sent (dev_world d') = sent (dev_world d) @ replicate n AT) d"
    for n x and d :: "('a \<times> at_req list, 'b) device"
  proof (induction n arbitrary: x d)
    case 0
    then show ?case by simp
  next
    case (Suc n)
    have send: "wp (on_net (on_tx (at_send (logged e) (plain AT))))
      (\<lambda>_ d'. sent (dev_world d') = sent (dev_world d) @ [AT]
          \<and> tx_timeouts (net_tx (dev_network d')) = 0)
      (\<lambda>_ d'. sent (dev_world d') = sent (dev_world d) @ [AT]) d"
      for d :: "('a \<times> at_req list, 'b) device"
      by (auto simp: wp_def on_net_def zoom_def at_send_run logged_def send_retry_def
          split: option.splits sum.splits prod.splits)
    show ?case
      unfolding is_alive_loop.simps at_send_ignore_timeout_eq wp_bindP wp_attempt
    proof (rule wp_mono [OF send])
      fix r and t :: "('a \<times> at_req list, 'b) device"
      assume "sent (dev_world t) = sent (dev_world d) @ [AT] \<and> tx_timeouts (net_tx (dev_network t)) = 0"
      then show "wp (case Inr r of Inl x \<Rightarrow> is_alive_loop (logged e) n (device_of_network x)
          | Inr _ \<Rightarrow> okP ())
        (\<lambda>_ d'. \<exists>k \<le> Suc n. sent (dev_world d') = sent (dev_world d) @ replicate k AT
           \<and> 0 < k \<and> tx_timeouts (net_tx (dev_network d')) = 0)
        (\<lambda>_ d'. sent (dev_world d') = sent (dev_world d) @ replicate (Suc n) AT) t"
        by (auto intro!: exI [of _ 1])
    next
      fix y and t :: "('a \<times> at_req list, 'b) device"
      assume t: "sent (dev_world t) = sent (dev_world d) @ [AT]"
      show "wp (case Inl y of Inl x \<Rightarrow> is_alive_loop (logged e) n (device_of_network x)
          | Inr _ \<Rightarrow> okP ())
        (\<lambda>_ d'. \<exists>k \<le> Suc n. sent (dev_world d') = sent (dev_world d) @ replicate k AT
           \<and> 0 < k \<and> tx_timeouts (net_tx (dev_network d')) = 0)
        (\<lambda>_ d'. sent (dev_world d') = sent (dev_world d) @ replicate (Suc n) AT) t"
        unfolding sum.case
        by (rule wp_mono [OF Suc.IH])
          (auto simp: t replicate_append_same intro: exI [of _ "Suc _"])
    qed
  qed
  from loop [of "unat a" BaudDetection d] assms show ?thesis
    by (cases res) (auto simp: wp_def is_alive_def)
qed

theorem is_alive_attempts_witness:
  "sent (dev_world (snd (the (is_alive (logged (script_env Toby_R2 default_config)) 2
     (device_new (script_start, []) :: (script_world \<times> at_req list, unit) device)))))
   \<in> {[], [AT], [AT, AT]}"
proof -
  let ?d = "device_new (script_start, []) :: (script_world \<times> at_req list, unit) device"
  obtain r d' where run: "is_alive (logged (script_env Toby_R2 default_config)) 2 ?d = Some (r, d')"
    using haltsD [OF halts_is_alive] by blast
  obtain k where "k \<le> 2" "sent (dev_world d') = sent (dev_world ?d) @ replicate k AT"
    using is_alive_attempts [OF run] by auto
  moreover from this have "k = 0 \<or> k = 1 \<or> k = 2" by auto
  ultimately show ?thesis
    unfolding run by (auto simp: device_new_def network_new_def at_tx_new_def numeral_2_eq_2)
qed

text \<open>C36: without a \<open>PWR_ON\<close> pin and a \<open>VInt\<close> pin, \<open>power_on\<close> on a module that answers nothing
  never returns: the soft reset fails, the hard reset calls \<open>power_on\<close> again, and so on without
  end. The module that is off is such a module.\<close>

theorem power_on_never_returns:
  assumes "silent e" "\<not> cfg_vint_pin (config e)" "\<not> cfg_power_pin (config e)"
  shows "power_on e d = None \<and> hard_reset e d = None"
proof
  show "power_on e d = None" by (rule power_on_diverges [OF assms])
  show "hard_reset e d = None"
  proof (cases "hard_reset e d")
    case (Some z)
    then obtain r d' where "hard_reset_with e (power_on e) d = Some (r, d')"
      by (cases z) (simp add: hard_reset_def)
    from hard_reset_with_cases [OF this] show ?thesis
      by (auto simp: power_on_diverges [OF assms])
  qed simp
qed

theorem power_on_never_returns_witness:
  "power_on ((script_env Toby_R2 default_config)\<lparr>send_raw := \<lambda>q w. (Inl At_Timeout, w)\<rparr>)
     (device_new script_start :: (script_world, unit) device) = None"
  using power_on_never_returns
    [of "(script_env Toby_R2 default_config)\<lparr>send_raw := \<lambda>q w. (Inl At_Timeout, w)\<rparr>"
        "device_new script_start :: (script_world, unit) device"]
  by (simp add: silent_def script_env_def default_config_def)

text \<open>C37: with a \<open>PWR_ON\<close> pin, \<open>power_on\<close> and \<open>hard_reset\<close> return from every state, as long as
  the clock ticks and nothing turns it back, whatever the module answers.\<close>

theorem power_on_returns_with_pin:
  assumes "ticking e clk" "monotone_world e clk" "cfg_power_pin (config e)"
  shows "power_on e d \<noteq> None \<and> hard_reset e d \<noteq> None"
  using haltsD [OF halts_power_on [OF assms], of d] haltsD [OF halts_hard_reset [OF assms], of d]
  by auto

theorem power_on_returns_with_pin_witness:
  "power_on (script_env Toby_R2 (default_config\<lparr>cfg_power_pin := True\<rparr>))
     (device_new script_start :: (script_world, unit) device) \<noteq> None"
  using power_on_returns_with_pin
    [OF script_ticking script_monotone, of Toby_R2 "default_config\<lparr>cfg_power_pin := True\<rparr>"
      "device_new script_start :: (script_world, unit) device"]
  by (simp add: script_env_def)

text \<open>Whenever a hard reset returns, in success or in error, the module is recorded as off, so
  that it is configured anew before it is used; the registration, the context, the device state
  and the sockets are as before.\<close>

theorem hard_reset_records_off:
  assumes "hard_reset e d = Some (r, d')"
  shows "dev_power d' = Off \<and> dev_state d' = dev_state d \<and> dev_sockets d' = dev_sockets d
    \<and> net_status (dev_network d') = net_status (dev_network d)
    \<and> net_context (dev_network d') = net_context (dev_network d)"
proof -
  have "wp (hard_reset e) (\<lambda>_ d'. power_frame d d' \<and> dev_power d' = Off)
      (\<lambda>_ d'. power_frame d d' \<and> dev_power d' = Off) d"
    by (rule wp_hard_reset) simp_all
  with assms show ?thesis by (cases r) (auto simp: wp_def power_frame_def)
qed

theorem hard_reset_records_off_witness:
  "\<exists>r d'. hard_reset (script_env Toby_R2 (default_config\<lparr>cfg_power_pin := True\<rparr>))
       ((device_new script_start :: (script_world, unit) device)\<lparr>dev_power := On\<rparr>) = Some (r, d')
     \<and> dev_power d' = Off"
proof -
  let ?e = "script_env Toby_R2 (default_config\<lparr>cfg_power_pin := True\<rparr>)"
  let ?d = "(device_new script_start :: (script_world, unit) device)\<lparr>dev_power := On\<rparr>"
  have "\<exists>r t. hard_reset ?e ?d = Some (r, t)"
    by (rule haltsD [OF halts_hard_reset [OF script_ticking script_monotone]])
      (simp add: script_env_def)
  then obtain r d' where run: "hard_reset ?e ?d = Some (r, d')" by blast
  from hard_reset_records_off [OF run] have "dev_power d' = Off" by (rule conjunct1)
  with run show ?thesis by (intro exI conjI)
qed

text \<open>A soft power off that succeeds has sent exactly the switch-off command and recorded the
  module as off; one that fails changes neither the record nor the registration.\<close>

theorem soft_power_off_outcome:
  assumes "soft_power_off (logged e) d = Some (r, d')"
  shows "sent (dev_world d') = sent (dev_world d) @ [Mobile_Control ModuleSwitchOff]
    \<and> dev_power d' = (if is_err r then dev_power d else Off)
    \<and> net_status (dev_network d') = net_status (dev_network d)"
proof -
  have send: "wp (dev_send (logged e) c False)
      (\<lambda>_ d'. sent (dev_world d') = sent (dev_world d) @ [cmd_req c] \<and> dev_power d' = dev_power d
          \<and> net_status (dev_network d') = net_status (dev_network d))
      (\<lambda>_ d'. sent (dev_world d') = sent (dev_world d) @ [cmd_req c] \<and> dev_power d' = dev_power d
          \<and> net_status (dev_network d') = net_status (dev_network d)) d"
    for c :: "unit at_cmd" and d :: "('a \<times> at_req list, 'b) device"
    by (auto simp: dev_send_def on_net_def intro!: wp_send_internal_logged)
  have "wp (soft_power_off (logged e))
    (\<lambda>_ d'. sent (dev_world d') = sent (dev_world d) @ [Mobile_Control ModuleSwitchOff]
       \<and> dev_power d' = Off \<and> net_status (dev_network d') = net_status (dev_network d))
    (\<lambda>_ d'. sent (dev_world d') = sent (dev_world d) @ [Mobile_Control ModuleSwitchOff]
       \<and> dev_power d' = dev_power d \<and> net_status (dev_network d') = net_status (dev_network d)) d"
    unfolding soft_power_off_def wp_thenP
  proof (rule wp_mono [OF send])
    fix u and t :: "('a \<times> at_req list, 'b) device"
    assume t: "sent (dev_world t) = sent (dev_world d) @
        [cmd_req (plain (Mobile_Control ModuleSwitchOff))] \<and> dev_power t = dev_power d
      \<and> net_status (dev_network t) = net_status (dev_network d)"
    show "wp (set_power Off) (\<lambda>_. wp (wait_for (logged e) (from_secs 10))
       (\<lambda>_ d'. sent (dev_world d') = sent (dev_world d) @ [Mobile_Control ModuleSwitchOff]
          \<and> dev_power d' = Off \<and> net_status (dev_network d') = net_status (dev_network d))
       (\<lambda>_ d'. sent (dev_world d') = sent (dev_world d) @ [Mobile_Control ModuleSwitchOff]
          \<and> dev_power d' = dev_power d \<and> net_status (dev_network d') = net_status (dev_network d)))
       (\<lambda>_ d'. sent (dev_world d') = sent (dev_world d) @ [Mobile_Control ModuleSwitchOff]
          \<and> dev_power d' = dev_power d \<and> net_status (dev_network d') = net_status (dev_network d)) t"
      using t by (auto intro!: wp_wait_for_logged simp: put_world_def put_tx_def)
  qed simp
  with assms show ?thesis by (cases r) (auto simp: wp_def)
qed

theorem soft_power_off_outcome_witness:
  "\<exists>r d'. soft_power_off (logged (script_env Toby_R2 default_config))
       (device_new (script_start\<lparr>sw_answers := [Inr R_NoResponse]\<rparr>, [])
          :: (script_world \<times> at_req list, unit) device) = Some (r, d')
     \<and> sent (dev_world d') = [Mobile_Control ModuleSwitchOff]"
proof -
  let ?e = "script_env Toby_R2 default_config"
  let ?d = "device_new (script_start\<lparr>sw_answers := [Inr R_NoResponse]\<rparr>, [])
    :: (script_world \<times> at_req list, unit) device"
  have "ticking (logged ?e) (\<lambda>w. sw_time (fst w))"
    using script_ticking [of Toby_R2 default_config]
    by (auto simp: ticking_def logged_def split: prod.splits)
      (metis fst_conv, metis snd_conv)
  then have "halts (soft_power_off (logged ?e))"
    by (simp add: soft_power_off_def halts_thenP halts_wait_for)
  then obtain r d' where run: "soft_power_off (logged ?e) ?d = Some (r, d')"
    using haltsD by meson
  from soft_power_off_outcome [OF run] have "sent (dev_world d') = [Mobile_Control ModuleSwitchOff]"
    by (simp add: device_new_def network_new_def at_tx_new_def)
  with run show ?thesis by (intro exI conjI)
qed

text \<open>What a hard power off makes of the module's state: an unreadable \<open>VInt\<close> is passed on, a
  module that is off is left alone, one that is on is switched off with the \<open>PWR_ON\<close> pin and
  recorded as off, and without that pin the call is \<open>Unsupported\<close> and changes nothing.\<close>

theorem hard_power_off_outcome:
  assumes "power_state e d = Some (x, d1)" "hard_power_off e d = Some (r, d')"
  shows "case x of
      Inl err \<Rightarrow> r = Inl err \<and> d' = d1
    | Inr Off \<Rightarrow> r = Inr () \<and> d' = d1
    | Inr On \<Rightarrow>
        if cfg_power_pin (config e) then r = Inr () \<and> dev_power d' = Off
        else r = Inl (Dev_Generic Unsupported) \<and> d' = d1"
proof (cases "x = Inr On \<and> cfg_power_pin (config e)")
  case True
  have "wp (thenP (drive e Power_Pin False)
           (thenP (wait_for e (pwr_off_time (variant e)))
           (thenP (drive e Power_Pin True) (set_power Off))))
         (\<lambda>_ d'. dev_power d' = Off) (\<lambda>_ _. False) d1"
    by (auto intro!: wp_wait_for)
  with True assms show ?thesis
    by (cases r) (auto simp: hard_power_off_def bindP_def wp_def)
next
  case False
  with assms show ?thesis
    by (auto simp: hard_power_off_def bindP_def okP_def errP_def split: sum.split power_state.split)
qed

theorem hard_power_off_outcome_witness:
  "hard_power_off ((script_env Toby_R2 default_config)\<lparr>config := default_config\<lparr>cfg_vint_pin := True\<rparr>\<rparr>)
     (device_new (script_start\<lparr>sw_vint := True\<rparr>) :: (script_world, unit) device)
   = Some (Inl (Dev_Generic Unsupported), device_new (script_start\<lparr>sw_vint := True\<rparr>))"
proof -
  let ?e = "(script_env Toby_R2 default_config)\<lparr>config := default_config\<lparr>cfg_vint_pin := True\<rparr>\<rparr>"
  let ?d = "device_new (script_start\<lparr>sw_vint := True\<rparr>) :: (script_world, unit) device"
  have on: "power_state ?e ?d = Some (Inr On, ?d)"
    by (simp add: power_state_def on_dev_world_run read_vint_def script_env_def put_world_def
        put_tx_def device_new_def network_new_def at_tx_new_def default_config_def)
  have run: "hard_power_off ?e ?d = Some (Inl (Dev_Generic Unsupported), ?d)"
    unfolding hard_power_off_def bindP_def on by (simp add: errP_def default_config_def)
  show ?thesis
    using hard_power_off_outcome [OF on run] run by blast
qed

lemma wait_power_loop_times:
  assumes "ticking e clk" "wait_power_loop e p t s d = Some (Inr False, d')" "s \<le> clk (dev_world d)"
    "monotone_world e clk"
  shows "s + t \<le> clk (dev_world d')"
proof -
  have "e = e \<longrightarrow> s \<le> clk (dev_world d) \<longrightarrow> fst (Inr False :: device_error + bool, d') = Inr False
      \<longrightarrow> s + t \<le> clk (dev_world (snd (Inr False :: device_error + bool, d')))"
  proof (rule wait_power_loop.raw_induct [where P = "\<lambda>e' p t s d y. e' = e \<longrightarrow> s \<le> clk (dev_world d) \<longrightarrow>
      fst y = Inr False \<longrightarrow> s + t \<le> clk (dev_world (snd y))", OF _ assms(2)])
    fix f e' p t s and d :: "('a, 'b) device" and y :: "(device_error + bool) \<times> ('a, 'b) device"
    assume IH: "\<And>e' p t s d y. f e' p t s d = Some y \<Longrightarrow> e' = e \<longrightarrow> s \<le> clk (dev_world d) \<longrightarrow>
        fst y = Inr False \<longrightarrow> s + t \<le> clk (dev_world (snd y))"
      and step: "bindP (dev_clock e') (\<lambda>t'.
        if (case checked_duration_since t' s of None \<Rightarrow> False | Some dur \<Rightarrow> dur < t)
        then bindP (power_state e') (\<lambda>p'. if p' = p then okP True
               else thenP (wait_for e' (from_millis 5)) (f e' p t s))
        else okP False) d = Some y"
    show "e' = e \<longrightarrow> s \<le> clk (dev_world d) \<longrightarrow> fst y = Inr False \<longrightarrow> s + t \<le> clk (dev_world (snd y))"
    proof (intro impI)
      assume e: "e' = e" and s: "s \<le> clk (dev_world d)" and res: "fst y = Inr False"
      obtain u v where now: "now e (dev_world d) = (u, v)" by fastforce
      then have u: "u = clk (dev_world d)" "u < clk v"
        using assms(1) by (auto simp: ticking_def dest: spec [of _ "dev_world d"])
      show "s + t \<le> clk (dev_world (snd y))"
      proof (cases "u - s < t")
        case False
        with step e now u s show ?thesis
          by (auto simp: bindP_def dev_clock_def on_dev_world_run clock_def okP_def
              checked_duration_since_def)
      next
        case True
        then obtain p' d2 where p': "power_state e (put_world v d) = Some (Inr p', d2)"
          and cont: "(if p' = p then okP True
               else thenP (wait_for e (from_millis 5)) (f e p t s)) d2 = Some y"
          using step e now u s res
          by (auto simp: bindP_def dev_clock_def on_dev_world_run clock_def
              checked_duration_since_def split: option.splits sum.splits)
        have time: "clk v \<le> clk (dev_world d2)"
          using keepsD [OF power_relation.power_state [OF switch_relation.axioms(1)
              [OF dev_time_relation [OF assms(4)]]] p'] by (simp add: dev_time_passes_def)
        obtain w3 where w3: "timer_after e (from_millis 5) (dev_world d2) = Some (Inr (), w3)"
            "clk (dev_world d2) + from_millis 5 < clk w3"
          using timer_after_returns [OF assms(1)] by blast
        have "f e p t s (put_world w3 d2) = Some y"
          using cont res w3(1)
          by (auto simp: okP_def thenP_def bindP_def on_dev_world_run split: if_splits)
        from IH [OF this] show ?thesis using s u time w3(2) res by simp
      qed
    qed
  qed
  with assms(3) show ?thesis by simp
qed

lemma wp_power_state_error:
  "wp (power_state e) (\<lambda>_ _. True) (\<lambda>x _. x = Dev_Generic Unsupported) d"
proof (cases "cfg_vint_pin (config e)")
  case True
  then show ?thesis
    by (auto simp: power_state_def wp_def on_dev_world_run read_vint_def
        split: prod.split option.split sum.split)
next
  case False
  have "wp (is_alive e 2) (\<lambda>_ _. True) (\<lambda>_ _. True) d" by (rule wpI) simp_all
  with False show ?thesis
    by (simp add: power_state_def) (erule wp_mono, simp_all)
qed

lemma wait_power_loop_error:
  assumes "wait_power_loop e p t s d = Some (Inl x, d')"
  shows "x = Dev_Generic Unsupported"
proof -
  have "fst (Inl x :: device_error + bool, d') = Inl x \<longrightarrow> x = Dev_Generic Unsupported"
  proof (rule wait_power_loop.raw_induct
      [where P = "\<lambda>e p t s d y. fst y = Inl x \<longrightarrow> x = Dev_Generic Unsupported", OF _ assms])
    fix f e p t s and d :: "('a, 'b) device" and y :: "(device_error + bool) \<times> ('a, 'b) device"
    assume IH: "\<And>e p t s d y. f e p t s d = Some y \<Longrightarrow> fst y = Inl x \<longrightarrow> x = Dev_Generic Unsupported"
      and step: "bindP (dev_clock e) (\<lambda>t'.
        if (case checked_duration_since t' s of None \<Rightarrow> False | Some dur \<Rightarrow> dur < t)
        then bindP (power_state e) (\<lambda>p'. if p' = p then okP True
               else thenP (wait_for e (from_millis 5)) (f e p t s))
        else okP False) d = Some y"
    have rec: "wp (f e p t s) (\<lambda>_ _. True) (\<lambda>z _. z = x \<longrightarrow> x = Dev_Generic Unsupported) d2" for d2
      using IH by (intro wpI) auto
    have "wp (bindP (dev_clock e) (\<lambda>t'.
        if (case checked_duration_since t' s of None \<Rightarrow> False | Some dur \<Rightarrow> dur < t)
        then bindP (power_state e) (\<lambda>p'. if p' = p then okP True
               else thenP (wait_for e (from_millis 5)) (f e p t s))
        else okP False)) (\<lambda>_ _. True) (\<lambda>z _. z = x \<longrightarrow> x = Dev_Generic Unsupported) d"
      by (auto intro!: wp_dev_clock wp_mono [OF wp_power_state_error] wp_wait_for rec)
    with step show "fst y = Inl x \<longrightarrow> x = Dev_Generic Unsupported"
      by (cases y) (auto simp: wp_def)
  qed
  then show ?thesis by simp
qed

text \<open>C38: \<open>wait_power_state\<close> returns on a ticking clock, and it gives up with a timeout only when
  the time it was given has passed.\<close>

theorem wait_power_state_times_out_late:
  assumes "ticking e clk" "monotone_world e clk"
  shows "\<exists>r d'. wait_power_state e p t d = Some (r, d')
    \<and> (r = Inl (Dev_Generic Timeout) \<longrightarrow> clk (dev_world d) + t \<le> clk (dev_world d'))"
proof -
  obtain u v where now: "now e (dev_world d) = (u, v)" by fastforce
  then have u: "u = clk (dev_world d)" "u < clk v"
    using assms(1) by (auto simp: ticking_def dest: spec [of _ "dev_world d"])
  obtain q d' where loop: "wait_power_loop e p t u (put_world v d) = Some (q, d')"
    using haltsD [OF halts_wait_power_loop [OF assms]] by blast
  have late: "u + t \<le> clk (dev_world d')" if "q = Inr False"
    by (rule wait_power_loop_times [OF assms(1) loop [unfolded that] _ assms(2)])
      (use u in simp)
  have run: "wait_power_state e p t d = (case q of
      Inl x \<Rightarrow> Some (Inl x, d')
    | Inr b \<Rightarrow> Some (if b then Inr () else Inl (Dev_Generic Timeout), d'))"
    using now loop
    by (auto simp: wait_power_state_def bindP_def dev_clock_def on_dev_world_run clock_def
        okP_def errP_def split: sum.split)
  show ?thesis
  proof (cases q)
    case (Inl x)
    with wait_power_loop_error [OF loop [unfolded Inl]] show ?thesis by (simp add: run)
  next
    case (Inr b)
    with late u show ?thesis by (simp add: run)
  qed
qed

theorem wait_power_state_times_out_late_witness:
  "\<exists>r d'. wait_power_state (script_env Toby_R2 default_config) On 100
      (device_new script_start :: (script_world, unit) device) = Some (r, d')
    \<and> (r = Inl (Dev_Generic Timeout) \<longrightarrow> 100 \<le> sw_time (dev_world d'))"
  using wait_power_state_times_out_late
    [OF script_ticking script_monotone, of Toby_R2 default_config On 100
      "device_new script_start :: (script_world, unit) device"]
  by (simp add: device_new_def network_new_def at_tx_new_def script_start_def)

end
