(* ===== verification/Device.thy ===== *)
theory Device
  imports Power_Proofs
begin

text \<open>
  \<open>client.rs\<close>: the life of the device. \<open>initialize\<close> takes it from off to configured and
  registering, \<open>process_events\<close> runs the URCs of the sockets and the network state machine and
  turns its request for a reset into a hard reset, \<open>spin\<close> is one round of both. The socket set
  and the sockets are those of \<open>ublox_sockets\<close>: \<open>socket_api\<close> has what the crate calls of them.
\<close>

section \<open>Sockets\<close>

datatype socket_type = Tcp | Udp | Other_Type

text \<open>The methods of \<open>ublox_sockets\<close> on a set (\<open>prune\<close>) and on a socket. The two that may read
  the clock run on the world as well.\<close>

record ('w, 's) socket_api =
  sk_prune :: "(socket_handle \<times> 's) list \<Rightarrow> (socket_handle \<times> 's) list"
  sk_closed_by_remote :: "'s \<Rightarrow> 'w \<Rightarrow> 's \<times> 'w"
  sk_should_update :: "'s \<Rightarrow> 'w \<Rightarrow> (bool \<times> 's) \<times> 'w"
  sk_set_available :: "nat \<Rightarrow> 's \<Rightarrow> 's"
  sk_available :: "'s \<Rightarrow> nat"
  sk_can_recv :: "'s \<Rightarrow> bool"
  sk_rx_window :: "'s \<Rightarrow> nat"
  sk_type :: "'s \<Rightarrow> socket_type"
  sk_rx_enqueue :: "bytes \<Rightarrow> 's \<Rightarrow> nat \<times> 's"

definition set_socket_storage ::
    "('w, 's) socket_api \<Rightarrow> (socket_handle \<times> 's) list \<Rightarrow> (('w, 's) device, 'e, unit) prog" where
  "set_socket_storage k socket_set =
     modifyP (\<lambda>d. d\<lparr>dev_sockets := Some (sk_prune k socket_set)\<rparr>)"

definition take_socket_storage :: "(('w, 's) device, 'e, (socket_handle \<times> 's) list option) prog" where
  "take_socket_storage =
     bindP (getsP dev_sockets) (\<lambda>s. thenP (modifyP (\<lambda>d. d\<lparr>dev_sockets := None\<rparr>)) (okP s))"

definition clear_buffers :: "('w, 's) socket_api \<Rightarrow> (('w, 's) device, device_error, unit) prog" where
  "clear_buffers k = modifyP (\<lambda>d. d\<lparr>dev_sockets := map_option (sk_prune k) (dev_sockets d)\<rparr>)"

text \<open>\<open>iter_mut().find(|(handle, _)| *handle == socket)\<close> and a method on the socket found.\<close>

definition on_socket ::
    "socket_handle \<Rightarrow> ('s \<Rightarrow> 'w \<Rightarrow> 's \<times> 'w) \<Rightarrow> (socket_handle \<times> 's) list \<Rightarrow> 'w
     \<Rightarrow> (socket_handle \<times> 's) list \<times> 'w" where
  "on_socket h f socks w =
     (case map_of socks h of
        None \<Rightarrow> (socks, w)
      | Some s \<Rightarrow> (case f s w of (s', w') \<Rightarrow> (update_first h (\<lambda>_. s') socks, w')))"

definition socket_urc ::
    "('w, 's) socket_api \<Rightarrow> urc \<Rightarrow> (socket_handle \<times> 's) list \<Rightarrow> 'w
     \<Rightarrow> (socket_handle \<times> 's) list \<times> 'w" where
  "socket_urc k u socks w =
     (case u of
        SocketClosed socket \<Rightarrow> on_socket socket (sk_closed_by_remote k) socks w
      | SocketDataAvailable socket n \<Rightarrow> on_socket socket (\<lambda>s w. (sk_set_available k n s, w)) socks w
      | SocketDataAvailableUDP socket n \<Rightarrow> on_socket socket (\<lambda>s w. (sk_set_available k n s, w)) socks w
      | _ \<Rightarrow> (socks, w))"

definition handle_urc_internal ::
    "'w env \<Rightarrow> ('w, 's) socket_api \<Rightarrow> (('w, 's) device, device_error, unit) prog" where
  "handle_urc_internal e k =
     bindP (getsP dev_sockets) (\<lambda>sockets.
       case sockets of
         None \<Rightarrow> okP ()
       | Some socks \<Rightarrow>
           bindP (on_dev_world (try_next_message e Device_Sub)) (\<lambda>m.
             case m of
               None \<Rightarrow> okP ()
             | Some u \<Rightarrow>
                 bindP (on_dev_world (\<lambda>w. case socket_urc k u socks w of (s, w') \<Rightarrow> Some (Inr s, w')))
                   (\<lambda>socks. modifyP (\<lambda>d. d\<lparr>dev_sockets := Some socks\<rparr>))))"

section \<open>Configuring\<close>

definition set_state :: "state \<Rightarrow> (('w, 's) device, 'e, unit) prog" where
  "set_state s = modifyP (\<lambda>d. d\<lparr>dev_state := s\<rparr>)"

definition set_context :: "context_state \<Rightarrow> (('w, 's) device, 'e, unit) prog" where
  "set_context c = on_net (modifyP (\<lambda>n. n\<lparr>net_context := c\<rparr>))"

text \<open>A command whose response is dropped.\<close>

definition dev_cmd :: "'w env \<Rightarrow> 'r at_cmd \<Rightarrow> bool \<Rightarrow> (('w, 's) device, device_error, unit) prog" where
  "dev_cmd e c check = bindP (dev_send e c check) (\<lambda>_. okP ())"

definition dev_rf_reset :: "'w env \<Rightarrow> (('w, 's) device, device_error, unit) prog" where
  "dev_rf_reset e = map_errP device_of_network (on_net (rf_reset e True))"

text \<open>The attempts of \<open>select_sim_card\<close>: whether one of them found the SIM ready.\<close>

primrec sim_attempts :: "'w env \<Rightarrow> nat \<Rightarrow> (('w, 's) device, device_error, bool) prog" where
  "sim_attempts e 0 = okP False"
| "sim_attempts e (Suc k) =
     bindP (attempt (dev_send e get_pin_status True)) (\<lambda>res.
       if res = (Inr Ready :: device_error + pin_status_code) then okP True
       else thenP (wait_for e (from_secs 1)) (sim_attempts e k))"

definition select_sim_card :: "'w env \<Rightarrow> (('w, 's) device, device_error, unit) prog" where
  "select_sim_card e =
     bindP (sim_attempts e 2) (\<lambda>ready.
       if ready then okP () else thenP (dev_rf_reset e) (errP Busy))"

definition hex_mode_setting :: "'w env \<Rightarrow> hex_mode" where
  "hex_mode_setting e = (if cfg_hex_mode (config e) then hex_mode.Enabled else hex_mode.Disabled)"

definition flow_control_setting :: "'w env \<Rightarrow> flow_control" where
  "flow_control_setting e =
     (if cfg_flow_control (config e) then flow_control.RtsCts else flow_control.Disabled)"

text \<open>\<open>setup_at_commands\<close>, once the module answers.\<close>

definition setup_commands :: "'w env \<Rightarrow> (('w, 's) device, device_error, unit) prog" where
  "setup_commands e =
     thenP (dev_cmd e (plain (Mobile_Control
         (SetReportMobileTerminationError termination_error_mode.Enabled))) False)
    (thenP (dev_cmd e (plain (Gpio (SetGpioConfiguration 25 (gpio_mode.Output gpio_out_value.High)))) False)
    (thenP (whenP (variant e = Lara_R6)
         (dev_cmd e (plain (Gpio (SetGpioConfiguration 42 (gpio_mode.Input NoPull)))) False))
    (thenP (dev_cmd e get_model_id False)
    (thenP (dev_cmd e get_firmware_version False)
    (thenP (select_sim_card e)
    (thenP (dev_cmd e get_ccid False)
    (thenP (dev_cmd e (plain (Control (SetCircuit109Behaviour ChangesWithCarrier))) False)
    (thenP (dev_cmd e (plain (Control (SetCircuit108Behaviour circuit108_behaviour.Ignore))) False)
    (thenP (dev_cmd e (plain (System_Features
         (SetPowerSavingControl power_saving_mode.Disabled None))) False)
    (thenP (dev_cmd e (plain (Socket (SetHexMode (hex_mode_setting e)))) False)
    (thenP (dev_cmd e (plain (Control (SetFlowControl (flow_control_setting e)))) False)
           (set_state AtInitialized))))))))))))"

definition setup_at_commands ::
    "'w env \<Rightarrow> ('w, 's) socket_api \<Rightarrow> (('w, 's) device, device_error, unit) prog" where
  "setup_at_commands e k =
     thenP (set_context Setup)
    (thenP (clear_buffers k)
    (thenP (power_on e)
    (bindP (attempt (is_alive e 5)) (\<lambda>alive.
       if is_err alive then
         bindP (attempt (hard_reset e)) (\<lambda>res.
           thenP (whenP (is_err res) (thenP (hard_power_off e) (wait_for e (from_secs 1))))
                 (errP BaudDetection))
       else setup_commands e))))"

definition send_at :: "'w env \<Rightarrow> 'r at_cmd \<Rightarrow> (('w, 's) device, device_error, 'r) prog" where
  "send_at e c =
     bindP (getsP dev_state) (\<lambda>s.
       case s of
         State_Off \<Rightarrow> errP Uninitialized
       | AtInitialized \<Rightarrow> dev_send e c True
       | FullyInitialized \<Rightarrow> dev_send e c True)"

definition signal_strength :: "'w env \<Rightarrow> (('w, 's) device, device_error, signal_quality) prog" where
  "signal_strength e = send_at e get_signal_quality"

section \<open>Initializing\<close>

definition enable_registration_urcs :: "'w env \<Rightarrow> (('w, 's) device, device_error, unit) prog" where
  "enable_registration_urcs e =
     thenP (bindP (attempt (dev_cmd e (plain (Psn_Registration
         (SetPacketSwitchedEventReporting CircularBufferUrcs None))) True)) (\<lambda>_. okP ()))
    (thenP (dev_cmd e (plain (Network_Service
         (SetNetworkRegistrationStatus network_registration_urc_config.UrcDisabled))) True)
    (thenP (dev_cmd e (plain (Psn_Registration
         (SetGPRSNetworkRegistrationStatus gprs_network_registration_urc_config.UrcDisabled))) True)
           (dev_cmd e (plain (Psn_Registration
         (SetEPSNetworkRegistrationStatus eps_network_registration_urc_config.UrcDisabled))) True)))"

text \<open>\<open>initialize\<close>, from \<open>setup_at_commands\<close> on.\<close>

definition configure ::
    "'w env \<Rightarrow> ('w, 's) socket_api \<Rightarrow> (('w, 's) device, device_error, unit) prog" where
  "configure e k =
     thenP (setup_at_commands e k)
    (thenP (select_sim_card e)
    (thenP (whenP (variant e = Toby_R2)
         (dev_cmd e (plain (Sms (SetMessageWaitingIndication message_waiting_mode.Disabled))) False))
    (thenP (dev_cmd e (plain (Mobile_Control (SetAutomaticTimezoneUpdate EnabledLocal))) False)
    (thenP (dev_cmd e (plain (Mobile_Control (SetModuleFunctionality functionality.Full None))) True)
    (thenP (on_net (on_status (registration_reset e)))
    (thenP (on_net (modify_status (set_connection_state Connecting)))
    (thenP (enable_registration_urcs e)
    (bindP (dev_send e get_operator_selection True) (\<lambda>sel.
     thenP (whenP (os_mode sel \<noteq> Automatic \<and> os_mode sel \<noteq> Manual)
         (dev_cmd e (plain (Network_Service (SetOperatorSelection Automatic (Some 2)))) True))
    (thenP (map_errP device_of_network (on_net (update_registration e)))
    (thenP (map_errP device_of_network (on_net (reset_reg_time e)))
           (set_state FullyInitialized))))))))))))"

definition initialize ::
    "'w env \<Rightarrow> ('w, 's) socket_api \<Rightarrow> (('w, 's) device, device_error, unit) prog" where
  "initialize e k =
     bindP (getsP (\<lambda>d. (dev_power d, dev_state d))) (\<lambda>(p, s).
       if p \<noteq> On then
         thenP (set_state State_Off)
        (bindP (attempt (power_on e)) (\<lambda>res.
         thenP (whenP (is_err res) (hard_reset e))
        (thenP (set_power On)
               (configure e k))))
       else if s = FullyInitialized then okP ()
       else configure e k)"

section \<open>Running\<close>

definition dev_process_events ::
    "'w env \<Rightarrow> ('w, 's) socket_api \<Rightarrow> (('w, 's) device, device_error, unit) prog" where
  "dev_process_events e k =
     bindP (getsP dev_power) (\<lambda>p.
       if p \<noteq> On then errP Uninitialized
       else
         thenP (handle_urc_internal e k)
        (bindP (attempt (on_net (net_process_events e))) (\<lambda>res.
           if res = Inl (Generic Timeout) then
             thenP (hard_reset e) (errP (Dev_Generic Timeout))
           else
             (case res of
                Inl x \<Rightarrow> errP (device_of_network x)
              | Inr r \<Rightarrow> okP r))))"

definition spin ::
    "'w env \<Rightarrow> ('w, 's) socket_api \<Rightarrow> (('w, 's) device, device_error nb, unit) prog" where
  "spin e k =
     bindP (attempt (initialize e k)) (\<lambda>res.
     thenP (map_errP Other (dev_process_events e k))
    (thenP (case res of Inl x \<Rightarrow> errP (Other x) | Inr r \<Rightarrow> okP r)
    (bindP (getsP (\<lambda>d. is_connected (dev_network d) \<and> dev_state d = FullyInitialized)) (\<lambda>up.
       if up then okP ()
       else
         bindP (getsP (\<lambda>d. net_context (dev_network d))) (\<lambda>c.
         thenP (whenP (c = Active) (set_context Activating))
               (errP WouldBlock))))))"

end
