(* ===== verification/Hex_Codec.thy ===== *)
theory Hex_Codec
  imports Codec
begin

unbundle bit_operations_syntax

text \<open>
  \<open>services/data/hex.rs\<close>: the decoding of a hexadecimal text in place, each decoded byte
  overwriting the buffer at half the index it was read from. The buffer is explicit; the loop
  runs \<open>len\<close> times from index \<open>i\<close>. \<open>hex_pairs\<close> is the reference, which reads pairs off the list
  and never writes.
\<close>

datatype from_hex_error = InvalidHexCharacter | OddLength

definition hex_val :: "u8 \<Rightarrow> from_hex_error + u8" where
  "hex_val c =
     (if 0x41 \<le> c \<and> c \<le> 0x46 then Inr (c - 0x41 + 10)
      else if 0x61 \<le> c \<and> c \<le> 0x66 then Inr (c - 0x61 + 10)
      else if 0x30 \<le> c \<and> c \<le> 0x39 then Inr (c - 0x30)
      else Inl InvalidHexCharacter)"

primrec from_hex_loop :: "nat \<Rightarrow> nat \<Rightarrow> bytes \<Rightarrow> (from_hex_error + unit) \<times> bytes" where
  "from_hex_loop i 0 hex = (Inr (), hex)"
| "from_hex_loop i (Suc k) hex =
     (case hex_val (hex ! (i * 2)) of
        Inl e \<Rightarrow> (Inl e, hex)
      | Inr a \<Rightarrow>
          (case hex_val (hex ! (i * 2 + 1)) of
             Inl e \<Rightarrow> (Inl e, hex)
           | Inr b \<Rightarrow> from_hex_loop (i + 1) k (hex[i := push_bit 4 a OR b])))"

definition from_hex :: "bytes \<Rightarrow> (from_hex_error + bytes) \<times> bytes" where
  "from_hex hex =
     (if length hex mod 2 \<noteq> 0 then (Inl OddLength, hex)
      else
        (let len = length hex div 2 in
         case from_hex_loop 0 len hex of
           (Inl e, hex) \<Rightarrow> (Inl e, hex)
         | (Inr _, hex) \<Rightarrow> (Inr (take len hex), hex)))"

section \<open>The reference\<close>

fun hex_pairs :: "bytes \<Rightarrow> from_hex_error + bytes" where
  "hex_pairs [] = Inr []"
| "hex_pairs [c] = Inl OddLength"
| "hex_pairs (c # d # cs) =
     (case (hex_val c, hex_val d) of
        (Inr a, Inr b) \<Rightarrow>
          (case hex_pairs cs of Inl e \<Rightarrow> Inl e | Inr bs \<Rightarrow> Inr ((push_bit 4 a OR b) # bs))
      | _ \<Rightarrow> Inl InvalidHexCharacter)"

text \<open>Hexadecimal digits, upper or lower case, and the encoding of a byte string.\<close>

definition hex_digit :: "bool \<Rightarrow> u8 \<Rightarrow> u8" where
  "hex_digit upper n = (if n < 10 then n + 0x30 else n - 10 + (if upper then 0x41 else 0x61))"

definition hex_encode :: "bool \<Rightarrow> bytes \<Rightarrow> bytes" where
  "hex_encode upper bs =
     concat (map (\<lambda>b. [hex_digit upper (drop_bit 4 b), hex_digit upper (b AND 15)]) bs)"

lemma hex_val_error: "hex_val c = Inl e \<Longrightarrow> e = InvalidHexCharacter"
  by (simp add: hex_val_def split: if_splits)

text \<open>The write at \<open>i\<close> never reaches what is still to be read from \<open>2 * (i + 1)\<close> on.\<close>

lemma from_hex_loop_pairs:
  "length hex = (i + k) * 2 \<Longrightarrow>
   (case hex_pairs (drop (i * 2) hex) of
      Inl e \<Rightarrow> fst (from_hex_loop i k hex) = Inl e \<and> e = InvalidHexCharacter
    | Inr bs \<Rightarrow> fst (from_hex_loop i k hex) = Inr () \<and> length bs = k
        \<and> take (i + k) (snd (from_hex_loop i k hex)) = take i hex @ bs)
   \<and> length (snd (from_hex_loop i k hex)) = length hex"
proof (induction k arbitrary: i hex)
  case 0
  then show ?case by simp
next
  case (Suc k)
  let ?c = "hex ! (i * 2)" and ?d = "hex ! (i * 2 + 1)"
  have drop: "drop (i * 2) hex = ?c # ?d # drop (Suc i * 2) hex"
    using Suc.prems by (simp add: Cons_nth_drop_Suc [symmetric])
  show ?case
  proof (cases "hex_val ?c")
    case (Inl e)
    then show ?thesis by (simp add: drop hex_val_error [OF Inl])
  next
    case c: (Inr a)
    show ?thesis
    proof (cases "hex_val ?d")
      case (Inl e)
      with c show ?thesis by (simp add: drop hex_val_error [OF Inl])
    next
      case d: (Inr b)
      let ?hex = "hex[i := push_bit 4 a OR b]"
      have step: "from_hex_loop i (Suc k) hex = from_hex_loop (Suc i) k ?hex"
        using c d by simp
      have len: "length ?hex = (Suc i + k) * 2" using Suc.prems by simp
      have unread: "drop (Suc i * 2) ?hex = drop (Suc i * 2) hex" by simp
      have taken: "take (Suc i) ?hex = take i hex @ [push_bit 4 a OR b]"
        using Suc.prems by (simp add: take_Suc_conv_app_nth)
      show ?thesis
        using Suc.IH [OF len] c d unfolding step drop unread
        by (cases "hex_pairs (drop (Suc i * 2) hex)") (simp_all add: taken)
    qed
  qed
qed

lemma hex_pairs_errors:
  "hex_pairs cs = Inl OddLength \<Longrightarrow> odd (length cs)"
  by (induction cs rule: hex_pairs.induct) (auto split: sum.splits)

text \<open>The hexadecimal digits, as characters.\<close>

definition hex_chars :: bytes where
  "hex_chars = map of_char ''0123456789abcdefABCDEF''"

lemma hex_val_invalid: "hex_val c = Inl x \<longleftrightarrow> x = InvalidHexCharacter \<and> c \<notin> set hex_chars"
proof -
  have "c \<in> set hex_chars \<longleftrightarrow> 0x41 \<le> c \<and> c \<le> 0x46 \<or> 0x61 \<le> c \<and> c \<le> 0x66 \<or> 0x30 \<le> c \<and> c \<le> 0x39"
    by (simp add: hex_chars_def word_le_nat_alt word_unat_eq_iff) presburger
  then show ?thesis by (auto simp: hex_val_def)
qed

lemma hex_val_cases:
  obtains (digit) a where "c \<in> set hex_chars" "hex_val c = Inr a"
  | (other) "c \<notin> set hex_chars" "hex_val c = Inl InvalidHexCharacter"
  using hex_val_invalid [of c] by (cases "hex_val c") auto

lemma hex_pairs_Inr_iff:
  "even (length cs) \<Longrightarrow> (\<exists>bs. hex_pairs cs = Inr bs) \<longleftrightarrow> set cs \<subseteq> set hex_chars"
proof (induction cs rule: hex_pairs.induct)
  case (3 c d cs)
  then show ?case
    by (cases c rule: hex_val_cases; cases d rule: hex_val_cases) (auto split: sum.splits)
qed simp_all

text \<open>A pair that is not two digits ends the decoding: what is before it has been written, the rest is as it was.\<close>

lemma from_hex_loop_bad:
  assumes "length hex = (i + k) * 2" "j < k"
    and "hex_pairs (take (j * 2) (drop (i * 2) hex)) = Inr bs"
    and "\<not> {hex ! ((i + j) * 2), hex ! ((i + j) * 2 + 1)} \<subseteq> set hex_chars"
  shows "from_hex_loop i k hex = (Inl InvalidHexCharacter, take i hex @ bs @ drop (i + j) hex)"
  using assms
proof (induction j arbitrary: i k hex bs)
  case 0
  then obtain k' where "k = Suc k'" by (cases k) auto
  with 0 show ?case
    by (cases "hex ! (i * 2)" rule: hex_val_cases; cases "hex ! (i * 2 + 1)" rule: hex_val_cases) auto
next
  case (Suc j)
  let ?c = "hex ! (i * 2)" and ?d = "hex ! (i * 2 + 1)"
  obtain k' where k: "k = Suc k'" using Suc.prems by (cases k) auto
  have "drop (i * 2) hex = ?c # ?d # drop (Suc i * 2) hex"
    using Suc.prems k by (simp add: Cons_nth_drop_Suc [symmetric])
  with Suc.prems(3) obtain a b bs' where c: "hex_val ?c = Inr a" and d: "hex_val ?d = Inr b"
    and rest: "hex_pairs (take (j * 2) (drop (Suc i * 2) hex)) = Inr bs'" and bs: "bs = (push_bit 4 a OR b) # bs'"
    by (auto split: sum.splits)
  let ?hex = "hex[i := push_bit 4 a OR b]"
  have "from_hex_loop (Suc i) k' ?hex = (Inl InvalidHexCharacter, take (Suc i) ?hex @ bs' @ drop (Suc i + j) ?hex)"
    by (rule Suc.IH) (use Suc.prems k rest in simp_all)
  moreover have "take (Suc i) ?hex = take i hex @ [push_bit 4 a OR b]"
    using Suc.prems k by (simp add: take_Suc_conv_app_nth)
  ultimately show ?case using d by (simp add: k c bs)
qed

lemma from_hex_pairs:
  "fst (from_hex hex) = (if odd (length hex) then Inl OddLength else hex_pairs hex)"
proof (cases "odd (length hex)")
  case True
  then show ?thesis by (simp add: from_hex_def odd_iff_mod_2_eq_one)
next
  case False
  then have "length hex = (0 + length hex div 2) * 2" by simp
  from from_hex_loop_pairs [OF this] False show ?thesis
    by (cases "hex_pairs hex"; cases "from_hex_loop 0 (length hex div 2) hex")
      (auto simp: from_hex_def Let_def even_iff_mod_2_eq_zero split: sum.splits)
qed

lemma nibbles: "push_bit 4 (drop_bit 4 b) OR (b AND 15) = (b :: u8)"
proof -
  have "(15 :: u8) = mask 4" by (simp add: mask_eq_exp_minus_1)
  then show ?thesis
    by (simp add: bit_eq_iff bit_simps) (auto simp: bit_simps)
qed

lemma hex_val_digit: "n < 16 \<Longrightarrow> hex_val (hex_digit upper n) = Inr n"
proof -
  assume "n < 16"
  then have "unat n < 16" by (simp add: word_less_nat_alt)
  then have "unat n \<in> {0, 1, 2, 3, 4, 5, 6, 7, 8, 9, 10, 11, 12, 13, 14, 15}"
    unfolding insert_iff empty_iff by presburger
  then have "(of_nat (unat n) :: u8)
      \<in> of_nat ` {0, 1, 2, 3, 4, 5, 6, 7, 8, 9, 10, 11, 12, 13, 14, 15}"
    by (rule imageI)
  then have "n \<in> {0, 1, 2, 3, 4, 5, 6, 7, 8, 9, 10, 11, 12, 13, 14, 15}" by simp
  then show ?thesis
    unfolding insert_iff empty_iff hex_val_def hex_digit_def
    by (elim disjE; cases upper; simp)
qed

lemma hex_pairs_encode: "hex_pairs (hex_encode upper bs) = Inr bs"
proof (induction bs)
  case Nil
  then show ?case by (simp add: hex_encode_def)
next
  case (Cons b bs)
  have "unat (drop_bit 4 b) = unat b div 16"
    by (simp only: unat_drop_bit_eq) (simp add: drop_bit_eq_div)
  then have "drop_bit 4 b < 16"
    using unat_u8_bound [of b] by (simp only: word_less_nat_alt) simp
  moreover have "b AND 15 < 16"
    using word_and_le1 [of b 15] by (simp add: word_le_nat_alt word_less_nat_alt)
  ultimately show ?case
    using Cons by (simp add: hex_encode_def hex_val_digit nibbles)
qed

lemma length_hex_encode [simp]: "length (hex_encode upper bs) = 2 * length bs"
  by (induction bs) (simp_all add: hex_encode_def)

section \<open>Properties\<close>

text \<open>C30: decoding in place gives what reading the pairs off the text gives, although the buffer
  is overwritten while it is read: an odd length and an invalid character are told apart, and
  the decoded bytes are the first half of a buffer whose length does not change.\<close>

theorem from_hex_in_place:
  "fst (from_hex hex) = (if odd (length hex) then Inl OddLength else hex_pairs hex)
   \<and> length (snd (from_hex hex)) = length hex
   \<and> (\<forall>bs. fst (from_hex hex) = Inr bs \<longrightarrow>
        length bs = length hex div 2 \<and> bs = take (length hex div 2) (snd (from_hex hex)))"
proof (cases "odd (length hex)")
  case True
  then show ?thesis by (simp add: from_hex_def odd_iff_mod_2_eq_one)
next
  case False
  then have "length hex = (0 + length hex div 2) * 2" by simp
  from from_hex_loop_pairs [OF this] False show ?thesis
    by (cases "hex_pairs hex"; cases "from_hex_loop 0 (length hex div 2) hex")
      (auto simp: from_hex_def Let_def even_iff_mod_2_eq_zero split: sum.splits)
qed

theorem from_hex_in_place_witness:
  "from_hex [0x34, 0x66, 0x4b, 0x30] = (Inl InvalidHexCharacter, [0x4f, 0x66, 0x4b, 0x30])
   \<and> from_hex [0x34, 0x66, 0x61, 0x30] = (Inr [0x4f, 0xa0], [0x4f, 0xa0, 0x61, 0x30])
   \<and> take 2 (snd (from_hex [0x34, 0x66, 0x61, 0x30])) = [0x4f, 0xa0]"
proof -
  have bad: "from_hex [0x34, 0x66, 0x4b, 0x30] = (Inl InvalidHexCharacter, [0x4f, 0x66, 0x4b, 0x30])"
    by code_simp
  have good: "from_hex [0x34, 0x66, 0x61, 0x30] = (Inr [0x4f, 0xa0], [0x4f, 0xa0, 0x61, 0x30])"
    by code_simp
  from from_hex_in_place [of "[0x34, 0x66, 0x61, 0x30]"] bad good show ?thesis by simp
qed

text \<open>C31: every byte string is read back from its hexadecimal form, in upper or lower case.\<close>

theorem from_hex_encode: "fst (from_hex (hex_encode upper bs)) = Inr bs"
  by (simp add: from_hex_pairs hex_pairs_encode)

text \<open>C35: decoding fails exactly on a text of odd length or with a character that is not one of
  \<open>0123456789abcdefABCDEF\<close>, and the odd length is what is reported when both apply. A text of odd length is left as it
  is; on one of even length the pairs before the first that is not two digits have been decoded into the front of the
  buffer by then, and the rest of it is as it was.\<close>

theorem from_hex_errors:
  "(fst (from_hex hex) = Inl OddLength) = odd (length hex)
   \<and> (fst (from_hex hex) = Inl InvalidHexCharacter)
      = (even (length hex) \<and> \<not> set hex \<subseteq> set (map of_char ''0123456789abcdefABCDEF''))
   \<and> (odd (length hex) \<longrightarrow> snd (from_hex hex) = hex)
   \<and> (\<forall>decoded c d rest. hex = decoded @ c # d # rest \<and> even (length decoded) \<and> even (length rest)
        \<and> set decoded \<subseteq> set (map of_char ''0123456789abcdefABCDEF'')
        \<and> \<not> {c, d} \<subseteq> set (map of_char ''0123456789abcdefABCDEF'') \<longrightarrow>
        (\<exists>bs. fst (from_hex decoded) = Inr bs \<and> 2 * length bs = length decoded
           \<and> snd (from_hex hex) = bs @ drop (length bs) hex))"
  unfolding hex_chars_def [symmetric]
proof (intro conjI allI impI)
  show "(fst (from_hex hex) = Inl OddLength) = odd (length hex)"
    using hex_pairs_errors [of hex] by (auto simp: from_hex_pairs)
  show "(fst (from_hex hex) = Inl InvalidHexCharacter) = (even (length hex) \<and> \<not> set hex \<subseteq> set hex_chars)"
    using hex_pairs_errors [of hex] hex_pairs_Inr_iff [of hex]
    by (cases "hex_pairs hex") (auto simp: from_hex_pairs intro: from_hex_error.exhaust)
  show "snd (from_hex hex) = hex" if "odd (length hex)"
    using that by (simp add: from_hex_def odd_iff_mod_2_eq_one)
next
  fix decoded c d rest
  assume "hex = decoded @ c # d # rest \<and> even (length decoded) \<and> even (length rest)
    \<and> set decoded \<subseteq> set hex_chars \<and> \<not> {c, d} \<subseteq> set hex_chars"
  then have hex: "hex = decoded @ c # d # rest" and even: "even (length decoded)" "even (length rest)"
    and digits: "set decoded \<subseteq> set hex_chars" "\<not> {c, d} \<subseteq> set hex_chars" by blast+
  obtain j m where len: "length decoded = j * 2" "length rest = m * 2" using even by (metis evenE mult.commute)
  obtain bs where bs: "hex_pairs decoded = Inr bs" using hex_pairs_Inr_iff [OF even(1)] digits(1) by blast
  have length_bs: "length bs = j"
    using from_hex_loop_pairs [of decoded 0 j] bs len by simp
  have "from_hex_loop 0 (j + Suc m) hex = (Inl InvalidHexCharacter, take 0 hex @ bs @ drop (0 + j) hex)"
    by (rule from_hex_loop_bad) (use len bs digits(2) in \<open>simp_all add: hex nth_append\<close>)
  moreover have "length hex div 2 = j + Suc m" "length hex mod 2 = 0" using len by (simp_all add: hex)
  ultimately show "\<exists>bs. fst (from_hex decoded) = Inr bs \<and> 2 * length bs = length decoded
      \<and> snd (from_hex hex) = bs @ drop (length bs) hex"
    using bs length_bs len even by (intro exI [of _ bs]) (simp add: from_hex_pairs from_hex_def [of hex])
qed

theorem from_hex_errors_witness:
  "from_hex [0x34, 0x66, 0x47, 0x30] = (Inl InvalidHexCharacter, [0x4f, 0x66, 0x47, 0x30])
   \<and> (\<exists>bs. fst (from_hex [0x34, 0x66]) = Inr bs \<and> [0x4f, 0x66, 0x47, 0x30] = bs @ drop (length bs) [0x34, 0x66, 0x47, 0x30])
   \<and> from_hex [0x47] = (Inl OddLength, [0x47])"
proof -
  have run: "from_hex [0x34, 0x66, 0x47, 0x30] = (Inl InvalidHexCharacter, [0x4f, 0x66, 0x47, 0x30])"
    "from_hex [0x47] = (Inl OddLength, [0x47])" by code_simp+
  have "\<exists>bs. fst (from_hex [0x34, 0x66]) = Inr bs \<and> 2 * length bs = length [0x34 :: u8, 0x66]
      \<and> snd (from_hex [0x34, 0x66, 0x47, 0x30]) = bs @ drop (length bs) [0x34, 0x66, 0x47, 0x30]"
    by (rule from_hex_errors [THEN conjunct2, THEN conjunct2, THEN conjunct2, rule_format,
          where rest = "[]" and c = "0x47" and d = "0x30"]) simp
  with run show ?thesis by auto
qed

end
