(* ===== verification/Data_Service.thy ===== *)
theory Data_Service
  imports Device Hex_Codec
begin

text \<open>
  \<open>services/data/mod.rs\<close> and \<open>apn.rs\<close>: defining and activating the data context, waiting to be
  attached, and reading what the module holds for the sockets. A \<open>DataService\<close> borrows the
  network and the sockets of the device: \<open>service\<close> is that pair, and \<open>on_service\<close> runs on
  the two fields of the device. A panic is a run that does not return.
\<close>

section \<open>The access point\<close>

datatype apn = Given string | Automatic

record apn_info =
  api_apn :: apn
  api_user_name :: "string option"
  api_password :: "string option"

definition apn_info_new :: "string \<Rightarrow> apn_info" where
  "apn_info_new a = \<lparr>api_apn = Given a, api_user_name = None, api_password = None\<rparr>"

definition apn_info_default :: apn_info where
  "apn_info_default = \<lparr>api_apn = apn.Automatic, api_user_name = None, api_password = None\<rparr>"

section \<open>The service\<close>

definition CONTEXT_ID :: context_id where
  "CONTEXT_ID = 1"

record ('w, 's) service =
  ds_network :: "'w network"
  ds_sockets :: "(socket_handle \<times> 's) list option"

abbreviation ds_world :: "('w, 's) service \<Rightarrow> 'w" where
  "ds_world s \<equiv> net_world (ds_network s)"

definition on_service ::
    "(('w, 's) service, 'e, 'a) prog \<Rightarrow> (('w, 's) device, 'e, 'a) prog" where
  "on_service = zoom (\<lambda>d. \<lparr>ds_network = dev_network d, ds_sockets = dev_sockets d\<rparr>)
     (\<lambda>s d. d\<lparr>dev_network := ds_network s, dev_sockets := ds_sockets s\<rparr>)"

definition on_ds_net :: "('w network, 'e, 'a) prog \<Rightarrow> (('w, 's) service, 'e, 'a) prog" where
  "on_ds_net = zoom ds_network (\<lambda>n s. s\<lparr>ds_network := n\<rparr>)"

text \<open>\<open>self.network.send_internal(...)\<close> with the error as \<open>services::data::Error\<close>.\<close>

definition net_send :: "'w env \<Rightarrow> 'r at_cmd \<Rightarrow> bool \<Rightarrow> ('w network, data_error, 'r) prog" where
  "net_send e c check = map_errP data_of_network (send_internal e c check)"

definition net_cmd :: "'w env \<Rightarrow> 'r at_cmd \<Rightarrow> bool \<Rightarrow> ('w network, data_error, unit) prog" where
  "net_cmd e c check = bindP (net_send e c check) (\<lambda>_. okP ())"

text \<open>A \<open>BlockingTimer\<close>; it has no error.\<close>

definition net_wait :: "'w env \<Rightarrow> duration \<Rightarrow> ('w network, 'e, unit) prog" where
  "net_wait e t = bindP (attempt (on_tx (on_world (timer_after e t)))) (\<lambda>_. okP ())"

abbreviation put_context :: "context_state \<Rightarrow> ('w network, 'e, unit) prog" where
  "put_context c \<equiv> modifyP (\<lambda>n. n\<lparr>net_context := c\<rparr>)"

section \<open>Defining the context\<close>

definition define_context ::
    "'w env \<Rightarrow> context_id \<Rightarrow> apn_info \<Rightarrow> ('w network, data_error, unit) prog" where
  "define_context e cid info =
     bindP (getsP net_context) (\<lambda>c.
       if c \<noteq> Setup then okP ()
       else
         thenP (net_cmd e (plain (Mobile_Control
            (SetModuleFunctionality functionality.Minimum (min_reset_mode e)))) True)
        (thenP (case api_apn info of
            Given a \<Rightarrow> net_cmd e (plain (Psn_Context (SetPDPContextDefinition cid ''IP'' a))) True
          | apn.Automatic \<Rightarrow> okP ())
        (thenP (net_cmd e (plain (Mobile_Control
            (SetModuleFunctionality functionality.Full (Some DontReset)))) True)
               (put_context Activating))))"

section \<open>Activating the context\<close>

text \<open>\<open>attach_network\<close>: the enquiries it has left.\<close>

primrec attach_attempts :: "'w env \<Rightarrow> nat \<Rightarrow> ('w network, data_error nb, unit) prog" where
  "attach_attempts e 0 = errP WouldBlock"
| "attach_attempts e (Suc k) =
     bindP (map_errP Other (net_send e get_gprs_attached True)) (\<lambda>st.
       if st = gprs_attached_state.Attached then okP ()
       else thenP (net_wait e (from_secs 1)) (attach_attempts e k))"

definition attach_network :: "'w env \<Rightarrow> ('w network, data_error nb, unit) prog" where
  "attach_network e = attach_attempts e 10"

text \<open>\<open>SetPacketSwitchedConfig\<close> with a parameter built by \<open>String::from\<close>, which panics when the
  string does not fit.\<close>

definition set_config ::
    "'w env \<Rightarrow> profile_id \<Rightarrow> packet_switched_param \<Rightarrow> ('w network, data_error, unit) prog" where
  "set_config e p x n =
     (if param_fits x then net_cmd e (plain (Psn_Context (SetPacketSwitchedConfig p x))) True n
      else None)"

text \<open>The parameters \<open>activate_context_upsd\<close> sets, in order.\<close>

definition upsd_params :: "'w env \<Rightarrow> apn_info \<Rightarrow> packet_switched_param list" where
  "upsd_params e info =
     (case api_apn info of
        Given a \<Rightarrow> [packet_switched_param.APN a]
      | apn.Automatic \<Rightarrow> [])
     @ (case api_user_name info of None \<Rightarrow> [] | Some u \<Rightarrow> [packet_switched_param.Username u])
     @ (case api_password info of None \<Rightarrow> [] | Some p \<Rightarrow> [packet_switched_param.Password p])
     @ (if variant e = Sara_R5 then
          [packet_switched_param.ProtocolType protocol_type.IPv4,
           packet_switched_param.MapProfile 1]
        else
          [packet_switched_param.IPAddress ipv4_unspecified,
           packet_switched_param.Authentication authentication_type.Auto,
           packet_switched_param.IPAddress ipv4_unspecified])"

primrec set_configs ::
    "'w env \<Rightarrow> profile_id \<Rightarrow> packet_switched_param list \<Rightarrow> ('w network, data_error, unit) prog" where
  "set_configs e p [] = okP ()"
| "set_configs e p (x # xs) = thenP (set_config e p x) (set_configs e p xs)"

definition activate_context_upsd ::
    "'w env \<Rightarrow> profile_id \<Rightarrow> apn_info \<Rightarrow> ('w network, data_error nb, unit) prog" where
  "activate_context_upsd e p info =
     bindP (getsP net_context) (\<lambda>c.
       if c = Active then okP ()
       else
         map_errP Other
          (bindP (net_send e (get_packet_switched_network_data p
               packet_switched_network_data_param.PsdProfileStatus) True) (\<lambda>r.
           thenP (whenP (psnd_param_tag r = 0)
             (thenP (put_context Activating)
             (thenP (set_configs e p (upsd_params e info))
                    (net_cmd e (plain (Psn_Context
                       (SetPacketSwitchedAction p packet_switched_action.Activate))) True))))
           (put_context Active))))"

text \<open>\<open>context_states.iter().find_map(...).unwrap_or(false)\<close>.\<close>

definition context_activated :: "context_id \<Rightarrow> pdp_context_state list \<Rightarrow> bool" where
  "context_activated cid states =
     (case find (\<lambda>s. pcs_cid s = cid) states of
        None \<Rightarrow> False
      | Some s \<Rightarrow> pcs_status s = pdp_context_status.Activated)"

text \<open>The profile commands of \<open>activate_context\<close>, for the modules that have them.\<close>

definition activate_profile ::
    "'w env \<Rightarrow> context_id \<Rightarrow> profile_id \<Rightarrow> ('w network, data_error, unit) prog" where
  "activate_profile e cid p =
     bindP (net_send e (get_packet_switched_config p packet_switched_param_req.MapProfile) True) (\<lambda>cf.
     thenP (case psc_param cf of
         packet_switched_param.MapProfile ctx \<Rightarrow>
           whenP (ctx \<noteq> cid)
             (thenP (net_cmd e (plain (Psn_Context (SetPacketSwitchedConfig p
                  (packet_switched_param.MapProfile cid)))) True)
                    (net_cmd e (get_packet_switched_network_data p
                       packet_switched_network_data_param.PsdProfileStatus) True))
       | _ \<Rightarrow> okP ())
    (bindP (net_send e (get_packet_switched_network_data p
         packet_switched_network_data_param.PsdProfileStatus) True) (\<lambda>r.
     whenP (psnd_param_tag r = 0)
       (net_cmd e (plain (Psn_Context
          (SetPacketSwitchedAction p packet_switched_action.Activate))) True))))"

definition activate_context ::
    "'w env \<Rightarrow> context_id \<Rightarrow> profile_id \<Rightarrow> ('w network, data_error nb, unit) prog" where
  "activate_context e cid p =
     bindP (getsP net_context) (\<lambda>c.
       if c = Active then okP ()
       else
         bindP (map_errP Other (net_send e get_pdp_context_state True)) (\<lambda>states.
           if context_activated cid states then
             thenP (whenP (variant e \<noteq> Lara_R6)
                      (map_errP Other (activate_profile e cid p)))
                   (put_context Active)
           else
             thenP (map_errP Other (net_cmd e (plain (Psn_Context
                      (SetPDPContextState pdp_context_status.Activated (Some cid)))) True))
                   (errP WouldBlock)))"

text \<open>\<open>DataService::connect\<close>.\<close>

definition service_connect :: "'w env \<Rightarrow> apn_info \<Rightarrow> ('w network, data_error nb, unit) prog" where
  "service_connect e info =
     bindP (getsP net_context) (\<lambda>c.
       case c of
         Active \<Rightarrow> okP ()
       | _ \<Rightarrow>
           thenP (attach_network e)
             (if upsd_context_activation (variant e) then activate_context_upsd e PROFILE_ID info
              else activate_context e CONTEXT_ID PROFILE_ID))"

section \<open>Reading for the sockets\<close>

abbreviation on_sock :: "('s \<Rightarrow> 's) \<Rightarrow> ('s \<times> 'w network, 'e, unit) prog" where
  "on_sock f \<equiv> modifyP (\<lambda>(s, n). (f s, n))"

abbreviation beside_sock :: "('w network, 'e, 'a) prog \<Rightarrow> ('s \<times> 'w network, 'e, 'a) prog" where
  "beside_sock \<equiv> zoom snd (\<lambda>n (s, _). (s, n))"

text \<open>The methods of a socket that read the clock.\<close>

definition sock_should_update ::
    "('w, 's) socket_api \<Rightarrow> ('s \<times> 'w network, 'e, bool) prog" where
  "sock_should_update k = (\<lambda>(s, n). case sk_should_update k s (net_world n) of
     ((b, s'), w) \<Rightarrow> Some (Inr b, s', n\<lparr>net_tx := (net_tx n)\<lparr>tx_world := w\<rparr>\<rparr>))"

definition sock_closed_by_remote ::
    "('w, 's) socket_api \<Rightarrow> ('s \<times> 'w network, 'e, unit) prog" where
  "sock_closed_by_remote k = (\<lambda>(s, n). case sk_closed_by_remote k s (net_world n) of
     (s', w) \<Rightarrow> Some (Inr (), s', n\<lparr>net_tx := (net_tx n)\<lparr>tx_world := w\<rparr>\<rparr>))"

text \<open>The request for data: handle, payload and length of the response.\<close>

definition request_data ::
    "'w env \<Rightarrow> socket_type \<Rightarrow> socket_handle \<Rightarrow> nat
     \<Rightarrow> ('w network, data_error, socket_handle \<times> bytes option \<times> nat) prog" where
  "request_data e ty h len =
     (case ty of
        Tcp \<Rightarrow> bindP (net_send e (read_socket_data h len) False)
          (\<lambda>d. okP (sd_socket d, sd_data d, sd_length d))
      | Udp \<Rightarrow> bindP (net_send e (read_udp_socket_data h len) False)
          (\<lambda>d. okP (ud_socket d, ud_data d, ud_length d))
      | Other_Type \<Rightarrow> errP WrongSocketType)"

text \<open>What is done with the payload; \<open>hex_mode\<close> is the constant of the code.\<close>

definition take_data ::
    "('w, 's) socket_api \<Rightarrow> nat \<Rightarrow> bytes option \<Rightarrow> ('s \<times> 'w network, data_error, unit) prog" where
  "take_data k len payload =
     (case payload of
        None \<Rightarrow> errP (Err_Socket Exhausted)
      | Some data \<Rightarrow>
          (let hex_mode = True;
               data_len = (if hex_mode then length data div 2 else length data) in
           if 0 < len \<and> data_len \<noteq> len then errP BadLength
           else
             (case if hex_mode then fst (from_hex data) else Inr data of
                Inl _ \<Rightarrow> errP InvalidHex
              | Inr demangled \<Rightarrow> on_sock (\<lambda>s. snd (sk_rx_enqueue k demangled s)))))"

text \<open>The closure of \<open>socket_ingress_all\<close>.\<close>

definition ingress_socket ::
    "'w env \<Rightarrow> ('w, 's) socket_api \<Rightarrow> socket_handle \<Rightarrow> ('s \<times> 'w network, data_error, unit) prog" where
  "ingress_socket e k h =
     bindP (getsP (\<lambda>(s, _). sk_available k s)) (\<lambda>available_data.
       if available_data = 0 then
         bindP (sock_should_update k) (\<lambda>update.
           whenP update
             (bindP (attempt (beside_sock (net_send e (read_socket_data h 0) False))) (\<lambda>res.
                case res of
                  Inr d \<Rightarrow> on_sock (sk_set_available k (sd_length d))
                | Inl _ \<Rightarrow> sock_closed_by_remote k)))
       else
         bindP (getsP (\<lambda>(s, _). sk_can_recv k s)) (\<lambda>can_recv.
           if \<not> can_recv then errP BufferFull
           else
             bindP (getsP (\<lambda>(s, _). (sk_type k s, sk_rx_window k s))) (\<lambda>(ty, window).
               let wanted_len = min available_data INGRESS_CHUNK_SIZE;
                   requested_len = min wanted_len window in
               bindP (beside_sock (request_data e ty h requested_len))
                 (\<lambda>(socket_handle, payload, len).
                   if socket_handle \<noteq> h then errP WrongSocketType
                   else
                     thenP (whenP (len = 0) (on_sock (sk_set_available k 0)))
                           (take_data k len payload)))))"

text \<open>The iteration over the sockets; \<open>filter_map(Result::err)\<close> drops the errors.\<close>

fun ingress_loop ::
    "'w env \<Rightarrow> ('w, 's) socket_api \<Rightarrow> (socket_handle \<times> 's) list \<Rightarrow> 'w network
     \<Rightarrow> ((socket_handle \<times> 's) list \<times> 'w network) option" where
  "ingress_loop e k [] n = Some ([], n)"
| "ingress_loop e k ((h, s) # socks) n =
     (case ingress_socket e k h (s, n) of
        None \<Rightarrow> None
      | Some (_, s', n') \<Rightarrow>
          (case ingress_loop e k socks n' of
             None \<Rightarrow> None
           | Some (socks', n'') \<Rightarrow> Some ((h, s') # socks', n'')))"

definition socket_ingress_all ::
    "'w env \<Rightarrow> ('w, 's) socket_api \<Rightarrow> (('w, 's) service, data_error, unit) prog" where
  "socket_ingress_all e k s =
     (case ds_sockets s of
        None \<Rightarrow> Some (Inl SocketMemory, s)
      | Some socks \<Rightarrow>
          (case ingress_loop e k socks (ds_network s) of
             None \<Rightarrow> None
           | Some (socks', n) \<Rightarrow> Some (Inr (), s\<lparr>ds_sockets := Some socks', ds_network := n\<rparr>)))"

section \<open>Running the service\<close>

definition try_new ::
    "'w env \<Rightarrow> ('w, 's) socket_api \<Rightarrow> apn_info \<Rightarrow> (('w, 's) service, data_error nb, unit) prog" where
  "try_new e k info =
     thenP (on_ds_net (service_connect e info))
    (bindP (getsP ds_sockets) (\<lambda>socks.
       whenP (socks \<noteq> None) (map_errP Other (socket_ingress_all e k))))"

definition nb_of_data :: "data_error nb \<Rightarrow> device_error nb" where
  "nb_of_data x = (case x of Other d \<Rightarrow> Other (device_of_data d) | WouldBlock \<Rightarrow> WouldBlock)"

definition define_device_context ::
    "'w env \<Rightarrow> apn_info \<Rightarrow> (('w, 's) device, device_error nb, unit) prog" where
  "define_device_context e info =
     whenP (\<not> upsd_context_activation (variant e))
       (map_errP (Other \<circ> device_of_data) (on_net (define_context e CONTEXT_ID info)))"

text \<open>\<open>Device::data_service\<close>; in success the caller gets the service \<open>on_service\<close> works on.\<close>

definition data_service ::
    "'w env \<Rightarrow> ('w, 's) socket_api \<Rightarrow> apn_info \<Rightarrow> (('w, 's) device, device_error nb, unit) prog" where
  "data_service e k info =
     bindP (attempt (spin e k)) (\<lambda>res.
       case res of
         Inl WouldBlock \<Rightarrow> thenP (define_device_context e info) (errP WouldBlock)
       | Inl (Other x) \<Rightarrow> errP (Other x)
       | Inr _ \<Rightarrow>
           thenP (define_device_context e info)
                 (map_errP nb_of_data (on_service (try_new e k info))))"

text \<open>\<open>DataService::send_at\<close> and \<open>handle_urc\<close>.\<close>

definition service_send_at ::
    "'w env \<Rightarrow> 'r at_cmd \<Rightarrow> (('w, 's) service, data_error, 'r) prog" where
  "service_send_at e c = on_ds_net (net_send e c True)"

definition service_handle_urc ::
    "'w env \<Rightarrow> (urc \<Rightarrow> 'c \<Rightarrow> 'c \<times> bool) \<Rightarrow> 'c \<Rightarrow> (('w, 's) service, data_error, 'c) prog" where
  "service_handle_urc e f captured =
     map_errP Data_Network (on_ds_net (on_tx (at_handle_urc e f captured)))"

end
