(* ===== verification/Socket_Stacks.thy ===== *)
theory Socket_Stacks
  imports Data_Service
begin

text \<open>
  \<open>tcp_stack.rs\<close>, \<open>udp_stack.rs\<close> and \<open>dns.rs\<close> under \<open>services/data/\<close>: the \<open>embedded_nal\<close> stacks
  of a \<open>DataService\<close>. The socket set and the sockets are those of \<open>ublox_sockets\<close>: \<open>stack_api\<close> has
  what the stacks call of them, beside \<open>socket_api\<close>. \<open>IpAddr\<close>'s text form is a parameter as well.
\<close>

section \<open>Typed commands\<close>

definition create_socket :: "socket_protocol \<Rightarrow> 16 word option \<Rightarrow> socket_handle at_cmd" where
  "create_socket protocol local_port = typed_cmd (Socket (CreateSocket protocol local_port))
     (\<lambda>r. case r of R_Socket (R_CreateSocketResponse h) \<Rightarrow> Some h | _ \<Rightarrow> None)"

definition write_socket_data_binary :: "bytes \<Rightarrow> (socket_handle \<times> nat) at_cmd" where
  "write_socket_data_binary data = typed_cmd (Socket_Data (WriteSocketDataBinary data))
     (\<lambda>r. case r of R_Socket (R_WriteSocketDataResponse h n) \<Rightarrow> Some (h, n) | _ \<Rightarrow> None)"

definition udp_send_to_data_binary :: "bytes \<Rightarrow> (socket_handle \<times> nat) at_cmd" where
  "udp_send_to_data_binary data = typed_cmd (Socket_Data (UDPSendToDataBinary data))
     (\<lambda>r. case r of R_Socket (R_UDPSendToDataResponse h n) \<Rightarrow> Some (h, n) | _ \<Rightarrow> None)"

definition resolve_name_ip :: "resolution_type \<Rightarrow> string \<Rightarrow> string at_cmd" where
  "resolve_name_ip ty s = typed_cmd (Dns (ResolveNameIp ty s))
     (\<lambda>r. case r of R_Dns t \<Rightarrow> Some t | _ \<Rightarrow> None)"

lemma cmd_req_stack [simp]:
  "cmd_req (create_socket pr pt) = Socket (CreateSocket pr pt)"
  "cmd_req (write_socket_data_binary b) = Socket_Data (WriteSocketDataBinary b)"
  "cmd_req (udp_send_to_data_binary b) = Socket_Data (UDPSendToDataBinary b)"
  "cmd_req (resolve_name_ip ty s) = Dns (ResolveNameIp ty s)"
  by (simp_all add: create_socket_def write_socket_data_binary_def udp_send_to_data_binary_def
      resolve_name_ip_def)

section \<open>The socket set\<close>

definition EGRESS_CHUNK_SIZE :: nat where
  "EGRESS_CHUNK_SIZE = 1024"

type_synonym socket_addr = "ip_addr \<times> 16 word"

text \<open>\<open>st_*\<close> are methods of the set: \<open>st_recycle\<close> reads the clock, \<open>st_tcp\<close> and \<open>st_udp\<close> are
  \<open>get\<close> at either type of socket. The others are methods of the sockets; \<open>recv_slice\<close> writes into
  the buffer it is given.\<close>

record ('w, 's) stack_api =
  st_len :: "(socket_handle \<times> 's) list \<Rightarrow> nat"
  st_capacity :: "(socket_handle \<times> 's) list \<Rightarrow> nat"
  st_recycle :: "(socket_handle \<times> 's) list \<Rightarrow> 'w \<Rightarrow> (bool \<times> (socket_handle \<times> 's) list) \<times> 'w"
  st_add :: "'s \<Rightarrow> (socket_handle \<times> 's) list
     \<Rightarrow> (socket_error + socket_handle) \<times> (socket_handle \<times> 's) list"
  st_remove :: "socket_handle \<Rightarrow> (socket_handle \<times> 's) list
     \<Rightarrow> (socket_error + unit) \<times> (socket_handle \<times> 's) list"
  st_tcp :: "socket_handle \<Rightarrow> (socket_handle \<times> 's) list \<Rightarrow> socket_error + 's"
  st_udp :: "socket_handle \<Rightarrow> (socket_handle \<times> 's) list \<Rightarrow> socket_error + 's"
  tcp_new :: "u8 \<Rightarrow> 's"
  tcp_created :: "'s \<Rightarrow> bool"
  tcp_set_connected :: "socket_addr \<Rightarrow> 's \<Rightarrow> 's"
  tcp_connected :: "'s \<Rightarrow> bool"
  tcp_recv_slice :: "bytes \<Rightarrow> 's \<Rightarrow> (socket_error + nat) \<times> bytes \<times> 's"
  udp_new :: "u8 \<Rightarrow> 's"
  udp_bind :: "socket_addr \<Rightarrow> 's \<Rightarrow> (socket_error + unit) \<times> 's"
  udp_is_open :: "'s \<Rightarrow> bool"
  udp_endpoint :: "'s \<Rightarrow> socket_addr option"
  udp_recv_slice :: "bytes \<Rightarrow> 's \<Rightarrow> (socket_error + nat) \<times> bytes \<times> 's"

text \<open>\<open>if let Some(ref mut sockets) = self.sockets { ... } else { Err(Illegal) }\<close>.\<close>

definition with_sockets ::
    "((socket_handle \<times> 's) list \<Rightarrow> (('w, 's) service, socket_error, 'a) prog)
     \<Rightarrow> (('w, 's) service, socket_error, 'a) prog" where
  "with_sockets f =
     bindP (getsP ds_sockets) (\<lambda>socks. case socks of None \<Rightarrow> errP Illegal | Some s \<Rightarrow> f s)"

text \<open>A method that changes the set.\<close>

definition on_sockets ::
    "((socket_handle \<times> 's) list \<Rightarrow> (socket_error + 'a) \<times> (socket_handle \<times> 's) list)
     \<Rightarrow> (('w, 's) service, socket_error, 'a) prog" where
  "on_sockets f s =
     (case ds_sockets s of
        None \<Rightarrow> Some (Inl Illegal, s)
      | Some socks \<Rightarrow> (case f socks of (r, socks') \<Rightarrow> Some (r, s\<lparr>ds_sockets := Some socks'\<rparr>)))"

definition recycle_socket :: "('w, 's) stack_api \<Rightarrow> (('w, 's) service, socket_error, bool) prog" where
  "recycle_socket st s =
     (case ds_sockets s of
        None \<Rightarrow> Some (Inl Illegal, s)
      | Some socks \<Rightarrow>
          (case st_recycle st socks (ds_world s) of
             ((b, socks'), w) \<Rightarrow>
               Some (Inr b, s\<lparr>ds_sockets := Some socks',
                 ds_network := (ds_network s)\<lparr>net_tx := (net_tx (ds_network s))\<lparr>tx_world := w\<rparr>\<rparr>\<rparr>)))"

text \<open>A command of a stack; what goes wrong with it is \<open>Unaddressable\<close>.\<close>

definition stack_send ::
    "'w env \<Rightarrow> 'r at_cmd \<Rightarrow> bool \<Rightarrow> (('w, 's) service, socket_error, 'r) prog" where
  "stack_send e c check = map_errP (\<lambda>_. Unaddressable) (on_ds_net (send_internal e c check))"

text \<open>\<open>slice::chunks\<close>; it is not called with 0.\<close>

function chunks :: "nat \<Rightarrow> 'a list \<Rightarrow> 'a list list" where
  "chunks n xs = (if xs = [] \<or> n = 0 then [] else take n xs # chunks n (drop n xs))"
  by pat_completeness auto
termination by (relation "measure (length \<circ> snd)") auto

declare chunks.simps [simp del]

section \<open>TCP\<close>

text \<open>A new socket: there is room, or a closed one is recycled, and the module has one.\<close>

definition open_socket ::
    "'w env \<Rightarrow> ('w, 's) stack_api \<Rightarrow> socket_protocol \<Rightarrow> bool \<Rightarrow> (u8 \<Rightarrow> 's)
     \<Rightarrow> (('w, 's) service, socket_error, socket_handle) prog" where
  "open_socket e st protocol check new =
     with_sockets (\<lambda>socks.
       thenP (if st_capacity st socks \<le> st_len st socks then
                bindP (recycle_socket st) (\<lambda>ok. if ok then okP () else errP SocketSetFull)
              else okP ())
      (bindP (stack_send e (create_socket protocol None) check) (\<lambda>h.
       on_sockets (st_add st (new h)))))"

definition tcp_socket ::
    "'w env \<Rightarrow> ('w, 's) stack_api \<Rightarrow> (('w, 's) service, socket_error, socket_handle) prog" where
  "tcp_socket e st = open_socket e st socket_protocol.TCP True (tcp_new st)"

text \<open>\<open>sockets.get::<TcpSocket<L>>(socket)\<close>.\<close>

definition get_tcp ::
    "('w, 's) stack_api \<Rightarrow> socket_handle \<Rightarrow> (('w, 's) service, socket_error, 's) prog" where
  "get_tcp st h =
     with_sockets (\<lambda>socks. case st_tcp st h socks of Inl x \<Rightarrow> errP x | Inr t \<Rightarrow> okP t)"

definition tcp_connect ::
    "'w env \<Rightarrow> ('w, 's) stack_api \<Rightarrow> socket_handle \<Rightarrow> socket_addr
     \<Rightarrow> (('w, 's) service, socket_error nb, unit) prog" where
  "tcp_connect e st h remote =
     map_errP Other
      (bindP (get_tcp st h) (\<lambda>tcp.
         if tcp_created st tcp then
           thenP (stack_send e (plain (Socket (SetSocketSslState h (ssl_tls_status.Enabled 0)))) True)
          (thenP (stack_send e (plain (Socket (ConnectSocket h (fst remote) (snd remote)))) False)
                 (on_sockets (\<lambda>socks. (Inr (), update_first h (tcp_set_connected st remote) socks))))
         else errP Illegal))"

definition tcp_is_connected ::
    "('w, 's) stack_api \<Rightarrow> socket_handle \<Rightarrow> (('w, 's) service, socket_error, bool) prog" where
  "tcp_is_connected st h = bindP (get_tcp st h) (\<lambda>tcp. okP (tcp_connected st tcp))"

text \<open>The loop of \<open>send\<close> over the chunks.\<close>

primrec tcp_write ::
    "'w env \<Rightarrow> socket_handle \<Rightarrow> bytes list \<Rightarrow> (('w, 's) service, socket_error, unit) prog" where
  "tcp_write e h [] = okP ()"
| "tcp_write e h (c # cs) =
     thenP (stack_send e (plain (Socket_Data (PrepareWriteSocketDataBinary h (length c)))) False)
    (bindP (stack_send e (write_socket_data_binary c) False) (\<lambda>(socket, len).
       if len \<noteq> length c then errP Sock_BadLength
       else if socket \<noteq> h then errP InvalidSocket
       else tcp_write e h cs))"

definition tcp_send ::
    "'w env \<Rightarrow> ('w, 's) stack_api \<Rightarrow> socket_handle \<Rightarrow> bytes
     \<Rightarrow> (('w, 's) service, socket_error nb, nat) prog" where
  "tcp_send e st h buffer =
     map_errP Other
      (bindP (tcp_is_connected st h) (\<lambda>connected.
         if \<not> connected then errP Err_SocketClosed
         else thenP (tcp_write e h (chunks EGRESS_CHUNK_SIZE buffer)) (okP (length buffer))))"

text \<open>\<open>receive\<close>: the state is the caller's buffer and the service.\<close>

definition tcp_receive ::
    "('w, 's) stack_api \<Rightarrow> socket_handle
     \<Rightarrow> (bytes \<times> ('w, 's) service, socket_error nb, nat) prog" where
  "tcp_receive st h = (\<lambda>(buffer, s).
     case get_tcp st h s of
       None \<Rightarrow> None
     | Some (Inl x, s') \<Rightarrow> Some (Inl (Other x), buffer, s')
     | Some (Inr tcp, s') \<Rightarrow>
         (case tcp_recv_slice st buffer tcp of
            (r, buffer', tcp') \<Rightarrow>
              Some (map_sum Other id r, buffer',
                s'\<lparr>ds_sockets := map_option (update_first h (\<lambda>_. tcp')) (ds_sockets s')\<rparr>)))"

text \<open>\<open>close\<close>, of either stack.\<close>

definition close_socket ::
    "'w env \<Rightarrow> ('w, 's) stack_api \<Rightarrow> socket_handle \<Rightarrow> (('w, 's) service, socket_error, unit) prog" where
  "close_socket e st h =
     with_sockets (\<lambda>_.
       bindP (attempt (stack_send e (plain (Socket (CloseSocket h))) False)) (\<lambda>_.
       on_sockets (st_remove st h)))"

section \<open>UDP\<close>

definition udp_socket ::
    "'w env \<Rightarrow> ('w, 's) stack_api \<Rightarrow> (('w, 's) service, socket_error, socket_handle) prog" where
  "udp_socket e st = open_socket e st socket_protocol.UDP False (udp_new st)"

definition get_udp ::
    "('w, 's) stack_api \<Rightarrow> socket_handle \<Rightarrow> (('w, 's) service, socket_error, 's) prog" where
  "get_udp st h =
     with_sockets (\<lambda>socks. case st_udp st h socks of Inl x \<Rightarrow> errP x | Inr u \<Rightarrow> okP u)"

text \<open>What a method of a socket leaves of it, back in the set.\<close>

definition put_socket :: "socket_handle \<Rightarrow> 's \<Rightarrow> (('w, 's) service, socket_error, unit) prog" where
  "put_socket h x = on_sockets (\<lambda>socks. (Inr (), update_first h (\<lambda>_. x) socks))"

definition udp_connect ::
    "('w, 's) stack_api \<Rightarrow> socket_handle \<Rightarrow> socket_addr
     \<Rightarrow> (('w, 's) service, socket_error, unit) prog" where
  "udp_connect st h remote =
     bindP (get_udp st h) (\<lambda>udp.
       case udp_bind st remote udp of
         (r, udp') \<Rightarrow> thenP (put_socket h udp') (case r of Inl x \<Rightarrow> errP x | Inr _ \<Rightarrow> okP ()))"

primrec udp_write ::
    "'w env \<Rightarrow> socket_handle \<Rightarrow> socket_addr option \<Rightarrow> bytes list
     \<Rightarrow> (('w, 's) service, socket_error, unit) prog" where
  "udp_write e h endpoint [] = okP ()"
| "udp_write e h endpoint (c # cs) =
     (case endpoint of
        None \<Rightarrow> errP Err_SocketClosed
      | Some (ip, port) \<Rightarrow>
          thenP (stack_send e (plain (Socket_Data
              (PrepareUDPSendToDataBinary h ip port (length c)))) False)
         (bindP (stack_send e (udp_send_to_data_binary c) False) (\<lambda>(socket, len).
            if len \<noteq> length c then errP Sock_BadLength
            else if socket \<noteq> h then errP InvalidSocket
            else udp_write e h endpoint cs)))"

definition udp_send ::
    "'w env \<Rightarrow> ('w, 's) stack_api \<Rightarrow> socket_handle \<Rightarrow> bytes
     \<Rightarrow> (('w, 's) service, socket_error nb, unit) prog" where
  "udp_send e st h buffer =
     map_errP Other
      (bindP (get_udp st h) (\<lambda>udp.
         if \<not> udp_is_open st udp then errP Err_SocketClosed
         else udp_write e h (udp_endpoint st udp) (chunks EGRESS_CHUNK_SIZE buffer)))"

definition udp_receive ::
    "('w, 's) stack_api \<Rightarrow> socket_handle
     \<Rightarrow> (bytes \<times> ('w, 's) service, socket_error nb, nat \<times> socket_addr) prog" where
  "udp_receive st h = (\<lambda>(buffer, s).
     case get_udp st h s of
       None \<Rightarrow> None
     | Some (Inl x, s') \<Rightarrow> Some (Inl (Other x), buffer, s')
     | Some (Inr udp, s') \<Rightarrow>
         (case udp_recv_slice st buffer udp of
            (r, buffer', udp') \<Rightarrow>
              Some (case r of
                  Inl x \<Rightarrow> Inl (Other x)
                | Inr bytes \<Rightarrow>
                    (case udp_endpoint st udp' of
                       None \<Rightarrow> Inl (Other Err_SocketClosed)
                     | Some endpoint \<Rightarrow> Inr (bytes, endpoint)),
                buffer',
                s'\<lparr>ds_sockets := map_option (update_first h (\<lambda>_. udp')) (ds_sockets s')\<rparr>)))"

section \<open>DNS\<close>

datatype addr_type = IPv4 | IPv6 | Either_Addr

text \<open>\<open>ip_str\<close> has room for 256 characters; the response, of at most 128, always fits.\<close>

definition get_host_by_address ::
    "'w env \<Rightarrow> (ip_addr \<Rightarrow> string) \<Rightarrow> ip_addr \<Rightarrow> (('w, 's) service, socket_error nb, string) prog" where
  "get_host_by_address e show_ip ip =
     (if 256 < length (show_ip ip) then errP (Other Sock_BadLength)
      else map_errP Other
        (stack_send e (resolve_name_ip resolution_type.IpToDomainName (show_ip ip)) True))"

definition get_host_by_name ::
    "'w env \<Rightarrow> (string \<Rightarrow> ip_addr option) \<Rightarrow> string \<Rightarrow> addr_type
     \<Rightarrow> (('w, 's) service, socket_error nb, ip_addr) prog" where
  "get_host_by_name e parse_ip hostname ty =
     (if ty = addr_type.IPv6 then errP (Other Illegal)
      else bindP (map_errP Other
          (stack_send e (resolve_name_ip resolution_type.DomainNameToIp hostname) True)) (\<lambda>s.
        case parse_ip s of None \<Rightarrow> errP (Other Illegal) | Some a \<Rightarrow> okP a))"

end
