(* ===== verification/Secure_Services.thy ===== *)
theory Secure_Services
  imports Data_Service
begin

text \<open>
  \<open>services/data/ssl.rs\<close>: importing certificates and keys into the module and setting up a security
  profile. A failed \<open>assert!\<close> and a \<open>String::from\<close> that does not fit panic: the run does not return.
\<close>

definition send_security_data_import :: "bytes \<Rightarrow> security_data_import at_cmd" where
  "send_security_data_import data = typed_cmd (Security (SendSecurityDataImport data))
     (\<lambda>r. case r of R_Security (R_SecurityDataImport d) \<Rightarrow> Some d | _ \<Rightarrow> None)"

lemma cmd_req_import [simp]:
  "cmd_req (send_security_data_import b) = Security (SendSecurityDataImport b)"
  by (simp add: send_security_data_import_def)

text \<open>The capacity of the \<open>heapless::String\<close> of an operation.\<close>

fun operation_fits :: "security_profile_operation \<Rightarrow> bool" where
  "operation_fits (TrustedRootCertificateInternalName s) \<longleftrightarrow> length s \<le> 200"
| "operation_fits (ExpectedServerHostname s) \<longleftrightarrow> length s \<le> 256"
| "operation_fits (ClientCertificateInternalName s) \<longleftrightarrow> length s \<le> 200"
| "operation_fits (ClientPrivateKeyInternalName s) \<longleftrightarrow> length s \<le> 200"
| "operation_fits (ClientPrivateKeyPassword s) \<longleftrightarrow> length s \<le> 128"
| "operation_fits (ServerNameIndication s) \<longleftrightarrow> length s \<le> 128"
| "operation_fits (ServerCertificatePinning s _) \<longleftrightarrow> length s \<le> 200"
| "operation_fits _ \<longleftrightarrow> True"

text \<open>\<open>SecurityProfileManager\<close> with an operation built by \<open>String::from\<close>.\<close>

definition set_profile ::
    "'w env \<Rightarrow> security_profile_id \<Rightarrow> security_profile_operation \<Rightarrow> ('w network, data_error, unit) prog" where
  "set_profile e p x n =
     (if operation_fits x then net_cmd e (plain (Security (SecurityProfileManager p (Some x)))) True n
      else None)"

text \<open>The body the three imports share.\<close>

definition import_data ::
    "'w env \<Rightarrow> security_data_type \<Rightarrow> security_profile_id \<Rightarrow> string \<Rightarrow> bytes \<Rightarrow> string option
     \<Rightarrow> (string \<Rightarrow> security_profile_operation) \<Rightarrow> ('w network, data_error, unit) prog" where
  "import_data e ty p name data password op n =
     (if 200 \<le> length name then None
      else
        thenP (net_cmd e (plain (Security (PrepareSecurityDataImport ty name (length data) password))) True)
       (thenP (net_cmd e (send_security_data_import data) True)
              (set_profile e p (op name))) n)"

definition import_certificate ::
    "'w env \<Rightarrow> security_profile_id \<Rightarrow> string \<Rightarrow> bytes \<Rightarrow> ('w network, data_error, unit) prog" where
  "import_certificate e p name certificate =
     import_data e ClientCertificate p name certificate None ClientCertificateInternalName"

definition import_root_ca ::
    "'w env \<Rightarrow> security_profile_id \<Rightarrow> string \<Rightarrow> bytes \<Rightarrow> ('w network, data_error, unit) prog" where
  "import_root_ca e p name root_ca =
     import_data e TrustedRootCA p name root_ca None TrustedRootCertificateInternalName"

definition import_private_key ::
    "'w env \<Rightarrow> security_profile_id \<Rightarrow> string \<Rightarrow> bytes \<Rightarrow> string option
     \<Rightarrow> ('w network, data_error, unit) prog" where
  "import_private_key e p name private_key password =
     import_data e ClientPrivateKey p name private_key password ClientPrivateKeyInternalName"

definition enable_ssl ::
    "'w env \<Rightarrow> security_profile_id \<Rightarrow> string \<Rightarrow> bool \<Rightarrow> ('w network, data_error, unit) prog" where
  "enable_ssl e p server_hostname use_sni =
     thenP (set_profile e p (security_profile_operation.CertificateValidationLevel
         RootCertValidationWithValidityDate))
    (thenP (set_profile e p (CipherSuite 0))
    (thenP (set_profile e p (ExpectedServerHostname server_hostname))
           (set_profile e p (ServerNameIndication (if use_sni then server_hostname else [])))))"

end
