(* ===== verification/Obliging_Modem.thy ===== *)
theory Obliging_Modem
  imports Device
begin

text \<open>
  A closed world in which everything goes well, for the witnesses: the modem answers every request
  at once with the response of its command, is registered on LTE and attached, and the clock moves
  on by a second at every read. The lemmas are the runs of the device in that world, from a single
  command up to a round of \<open>spin\<close>.
\<close>

text \<open>A modem that is up and obliges: it answers every request at once, is registered on LTE, has
  its SIM ready and sends no URC; a second passes between two reads of the clock.\<close>

definition obliging :: "at_req \<Rightarrow> at_resp" where
  "obliging q =
     (case q of
        General GetModelId \<Rightarrow> R_General (R_ModelId [])
      | General GetFirmwareVersion \<Rightarrow> R_General (R_FirmwareVersion [])
      | General GetCCID \<Rightarrow> R_General (R_CCID 0)
      | General GetCIMI \<Rightarrow> R_General (R_CIMI 0)
      | Device_Lock GetPinStatus \<Rightarrow> R_Pin_Status Ready
      | Network_Service GetOperatorSelection \<Rightarrow>
          R_Network_Service (R_OperatorSelection \<lparr>os_mode = Automatic, os_oper = None, os_act = None\<rparr>)
      | Psn_Registration GetEPSNetworkRegistrationStatus \<Rightarrow>
          R_Psn (R_EPSNetworkRegistrationStatus
            \<lparr>ers_n = eps_network_registration_urc_config.UrcDisabled,
             ers_stat = eps_network_registration_stat.Registered,
             ers_tac = None, ers_ci = None, ers_act = None\<rparr>)
      | Psn_Context GetGPRSAttached \<Rightarrow> R_Psn (R_GPRSAttached gprs_attached_state.Attached)
      | Psn_Context GetPDPContextState \<Rightarrow>
          R_Psn (R_PDPContextState [\<lparr>pcs_cid = 1, pcs_status = pdp_context_status.Activated\<rparr>])
      | Psn_Context (GetPacketSwitchedConfig p _) \<Rightarrow>
          R_Psn (R_PacketSwitchedConfig
            \<lparr>psc_profile_id = p, psc_param = packet_switched_param.MapProfile 1\<rparr>)
      | Psn_Context (GetPacketSwitchedNetworkData p k) \<Rightarrow>
          R_Psn (R_PacketSwitchedNetworkData \<lparr>psnd_profile = p, psnd_param = k, psnd_param_tag = 1\<rparr>)
      | _ \<Rightarrow> R_NoResponse)"

definition obliging_env :: "module_variant \<Rightarrow> cellular_config \<Rightarrow> instant env" where
  "obliging_env m cfg =
     \<lparr>now = (\<lambda>t. (t, t + 1000000)), send_raw = (\<lambda>q t. (Inr (obliging q), t)),
      next_urc = (\<lambda>_ t. (None, t)), set_pin = (\<lambda>_ _ t. t), vint_is_high = (\<lambda>t. (Some True, t)),
      default_attempts = 3, config = cfg, variant = m\<rparr>"

lemma obliging_env_simps [simp]:
  "now (obliging_env m cfg) t = (t, t + 1000000)"
  "send_raw (obliging_env m cfg) q t = (Inr (obliging q), t)"
  "next_urc (obliging_env m cfg) s t = (None, t)"
  "vint_is_high (obliging_env m cfg) t = (Some True, t)"
  "config (obliging_env m cfg) = cfg" "variant (obliging_env m cfg) = m"
  by (simp_all add: obliging_env_def)

lemma obliging_ticking: "ticking (obliging_env m cfg) id"
  by (simp add: ticking_def)

lemma send_retry_obliging:
  "send_retry (obliging_env m cfg) c w =
     Some (case cmd_parse c (obliging (cmd_req c)) of None \<Rightarrow> Inl At_Parse | Some r \<Rightarrow> Inr r, w)"
  by (simp add: send_retry_def split: option.split)

lemma send_internal_obliging:
  assumes "tx_timeouts (net_tx n) = 0"
  shows "send_internal (obliging_env m cfg) c b n =
     Some (case cmd_parse c (obliging (cmd_req c)) of None \<Rightarrow> Inl (Err_AT At_Parse) | Some r \<Rightarrow> Inr r, n)"
  using assms
  by (cases n; cases "net_tx n")
    (simp add: send_internal_def thenP_def bindP_def whenP_def attempt_def okP_def zoom_def
      handle_urc_run at_send_run send_retry_obliging split: option.split)

lemma dev_send_obliging:
  assumes "tx_timeouts (net_tx (dev_network d)) = 0"
  shows "dev_send (obliging_env m cfg) c b d =
     Some (case cmd_parse c (obliging (cmd_req c)) of
        None \<Rightarrow> Inl (Dev_Network (Err_AT At_Parse)) | Some r \<Rightarrow> Inr r, d)"
  using assms
  by (cases d)
    (simp add: dev_send_def on_net_def map_errP_def zoom_def send_internal_obliging
      device_of_network_def split: option.split)

abbreviation pins :: cellular_config where
  "pins \<equiv> default_config\<lparr>cfg_vint_pin := True, cfg_power_pin := True\<rparr>"

lemma power_state_obliging:
  "cfg_vint_pin cfg \<Longrightarrow> power_state (obliging_env m cfg) d = Some (Inr On, d)"
  by (cases d) (simp add: power_state_def on_dev_world_run read_vint_def put_world_def put_tx_def)

lemma cmd_parse_plain [simp]: "cmd_parse (plain q) R_NoResponse = Some ()"
  by (simp add: plain_def typed_cmd_def)

lemma obliging_plain [simp]:
  "obliging (Mobile_Control q1) = R_NoResponse" "obliging (Gpio q2) = R_NoResponse"
  "obliging (Control q3) = R_NoResponse" "obliging (System_Features q4) = R_NoResponse"
  "obliging (Socket q5) = R_NoResponse" "obliging (Sms q6) = R_NoResponse"
  "obliging (Psn_Registration (SetPacketSwitchedEventReporting a b)) = R_NoResponse"
  "obliging (Psn_Registration (SetGPRSNetworkRegistrationStatus g)) = R_NoResponse"
  "obliging (Psn_Registration (SetEPSNetworkRegistrationStatus h)) = R_NoResponse"
  "obliging (Network_Service (SetNetworkRegistrationStatus n)) = R_NoResponse"
  by (simp_all add: obliging_def)

lemma obliging_operator [simp]:
  "cmd_parse get_operator_selection (obliging (Network_Service GetOperatorSelection)) =
     Some \<lparr>os_mode = Automatic, os_oper = None, os_act = None\<rparr>"
  by (simp add: typed_cmd_defs typed_cmd_def obliging_def)

lemma get_obliging [simp]:
  "cmd_parse get_model_id (obliging (General GetModelId)) = Some []"
  "cmd_parse get_firmware_version (obliging (General GetFirmwareVersion)) = Some []"
  "cmd_parse get_ccid (obliging (General GetCCID)) = Some 0"
  "cmd_parse get_cimi (obliging (General GetCIMI)) = Some 0"
  "cmd_parse get_pin_status (obliging (Device_Lock GetPinStatus)) = Some Ready"
  by (simp_all add: typed_cmd_defs typed_cmd_def obliging_def)

definition calm :: "(instant, 's) device \<Rightarrow> bool" where
  "calm d \<longleftrightarrow> tx_timeouts (net_tx (dev_network d)) = 0"

lemma dev_cmd_obliging:
  assumes "calm d" "cmd_parse c (obliging (cmd_req c)) \<noteq> None"
  shows "dev_cmd (obliging_env m cfg) c b d = Some (Inr (), d)"
  using assms by (auto simp: dev_cmd_def bindP_def dev_send_obliging calm_def okP_def)

lemma then_run: "m d = Some (Inr a, d1) \<Longrightarrow> thenP m k d = k d1"
  by (simp add: thenP_def bindP_def)

lemma select_sim_card_obliging:
  assumes "calm d"
  shows "select_sim_card (obliging_env m cfg) d = Some (Inr (), d)"
  using assms
  by (simp add: select_sim_card_def numeral_2_eq_2 bindP_def attempt_def dev_send_obliging calm_def okP_def)

lemma setup_commands_obliging:
  assumes "calm d"
  shows "setup_commands (obliging_env m cfg) d = Some (Inr (), d\<lparr>dev_state := AtInitialized\<rparr>)"
  using assms
  by (simp add: setup_commands_def whenP_def then_run [OF dev_cmd_obliging]
      then_run [OF select_sim_card_obliging] then_run [OF okP_def] set_state_def modifyP_def)

lemma is_alive_obliging:
  assumes "calm d"
  shows "is_alive (obliging_env m cfg) 5 d = Some (Inr (), d)"
proof -
  have five: "unat (5 :: u8) = Suc 4" by simp
  from assms show ?thesis
    unfolding is_alive_def five is_alive_loop.simps
    by (cases d; cases "net_tx (dev_network d)")
      (simp add: bindP_def attempt_def on_net_def zoom_def calm_def okP_def
        at_send_ignore_timeout_eq at_send_run send_retry_obliging obliging_def)
qed

lemma set_context_run:
  "set_context c d = Some (Inr (), d\<lparr>dev_network := (dev_network d)\<lparr>net_context := c\<rparr>\<rparr>)"
  by (simp add: set_context_def on_net_def zoom_def modifyP_def)

lemma set_state_run: "set_state s d = Some (Inr (), d\<lparr>dev_state := s\<rparr>)"
  by (simp add: set_state_def modifyP_def)

lemma setup_at_commands_obliging:
  assumes "calm d" "cfg_vint_pin cfg" "dev_sockets d = None"
  shows "setup_at_commands (obliging_env m cfg) k d =
    Some (Inr (), d\<lparr>dev_state := AtInitialized,
      dev_network := (dev_network d)\<lparr>net_context := Setup\<rparr>\<rparr>)"
proof -
  let ?d = "d\<lparr>dev_network := (dev_network d)\<lparr>net_context := Setup\<rparr>\<rparr>"
  have calm: "calm ?d" using assms(1) by (simp add: calm_def)
  have 2: "clear_buffers k ?d = Some (Inr (), ?d)"
    using assms(3) by (cases d) (simp add: clear_buffers_def modifyP_def)
  have 3: "power_on (obliging_env m cfg) ?d = Some (Inr (), ?d)"
    by (rule power_on_when_on [OF power_state_obliging [OF assms(2)]])
  show ?thesis
    using calm 2 3
    by (simp add: set_context_run setup_at_commands_def thenP_def bindP_def attempt_def is_alive_obliging
        setup_commands_obliging)
qed


lemma calm_update [simp]:
  "calm (d\<lparr>dev_state := s\<rparr>) = calm d" "calm (d\<lparr>dev_power := p\<rparr>) = calm d"
  "calm (d\<lparr>dev_network := (dev_network d)\<lparr>net_context := c\<rparr>\<rparr>) = calm d"
  by (simp_all add: calm_def)

lemma enable_registration_urcs_obliging:
  assumes "calm d"
  shows "enable_registration_urcs (obliging_env m cfg) d = Some (Inr (), d)"
  using assms
  by (simp add: enable_registration_urcs_def thenP_def bindP_def attempt_def okP_def dev_cmd_obliging)

lemma obliging_eps [simp]:
  "cmd_parse get_eps_registration (obliging (Psn_Registration GetEPSNetworkRegistrationStatus)) =
     Some \<lparr>ers_n = eps_network_registration_urc_config.UrcDisabled,
             ers_stat = eps_network_registration_stat.Registered,
             ers_tac = None, ers_ci = None, ers_act = None\<rparr>"
  "cmd_parse get_gprs_registration (obliging (Psn_Registration GetGPRSNetworkRegistrationStatus)) = None"
  "cmd_parse get_network_registration (obliging (Network_Service GetNetworkRegistrationStatus)) = None"
  "cmd_parse get_extended_error_report R_NoResponse = None"
  by (simp_all add: typed_cmd_defs typed_cmd_def obliging_def opt_fits_def)


definition lte_params :: registration_params where
  "lte_params = params_of_eps
     \<lparr>ers_n = eps_network_registration_urc_config.UrcDisabled,
      ers_stat = eps_network_registration_stat.Registered,
      ers_tac = None, ers_ci = None, ers_act = None\<rparr>"

lemma lte_registered [simp]: "slot_registered (eps (report_at t lte_params r))"
  by (simp add: lte_params_def params_of_eps_def report_at_def eps_domain.entered_slot slot_registered_set
      status_of_eps_stat_def status_from_u8_def)

lemma lte_type [simp]: "rp_reg_type lte_params \<noteq> Reg_Unknown"
  by (simp add: lte_params_def params_of_eps_def)

lemma update_registration_obliging:
  assumes "tx_timeouts (net_tx n) = 0"
  shows "update_registration (obliging_env m cfg) n =
    Some (Inr (), n\<lparr>net_status := report_at (net_world n) lte_params (net_status n),
                    net_tx := \<lparr>tx_timeouts = 0, tx_world = net_world n + 1000000\<rparr>\<rparr>)"
  using assms
  by (cases n; cases "net_tx n")
   (simp add: update_registration_def thenP_def bindP_def attempt_def okP_def send_internal_obliging poll_def
    on_status_def zoom_def compare_and_set_run flip: lte_params_def)


text \<open>The status after the configuration, with the clock at \<open>t\<close> before it.\<close>

definition configured_status :: "instant \<Rightarrow> registration_state \<Rightarrow> registration_state" where
  "configured_status t r =
     (report_at (t + 2000000) lte_params ((reset_slots r)\<lparr>reg_check_time := Some (t + 1000000),
        reg_start_time := Some t, imsi_check_time := None, registration_interventions := 1,
        conn_state := Connecting\<rparr>))
       \<lparr>reg_start_time := Some (t + 3000000), reg_check_time := Some (t + 3000000)\<rparr>"

lemma configure_obliging:
  assumes "calm d" "cfg_vint_pin cfg" "dev_sockets d = None"
  shows "configure (obliging_env m cfg) k d =
    Some (Inr (), d\<lparr>dev_state := FullyInitialized,
      dev_network := \<lparr>net_status = configured_status (dev_world d) (net_status (dev_network d)),
        net_context = Setup, net_tx = \<lparr>tx_timeouts = 0, tx_world = dev_world d + 4000000\<rparr>\<rparr>\<rparr>)"
  using assms
  by (cases d; cases "dev_network d"; cases "net_tx (dev_network d)")
   (simp add: configure_def thenP_def bindP_def setup_at_commands_obliging select_sim_card_obliging
     whenP_def dev_cmd_obliging okP_def on_net_def zoom_def on_status_def registration_reset_run
     modifyP_def set_connection_state_eq enable_registration_urcs_obliging dev_send_obliging calm_def
     map_errP_def update_registration_obliging reset_reg_time_def net_clock_def clock_def set_state_run
     configured_status_def ac_simps)


lemma initialize_obliging:
  assumes "calm d" "cfg_vint_pin cfg" "dev_sockets d = None" "dev_power d = Off"
  shows "initialize (obliging_env m cfg) k d =
    Some (Inr (), d\<lparr>dev_power := On, dev_state := FullyInitialized,
      dev_network := \<lparr>net_status = configured_status (dev_world d) (net_status (dev_network d)),
        net_context = Setup, net_tx = \<lparr>tx_timeouts = 0, tx_world = dev_world d + 4000000\<rparr>\<rparr>\<rparr>)"
proof -
  have on: "power_on (obliging_env m cfg) (d\<lparr>dev_state := State_Off\<rparr>) = Some (Inr (), d\<lparr>dev_state := State_Off\<rparr>)"
    by (rule power_on_when_on [OF power_state_obliging [OF assms(2)]])
  show ?thesis
    using assms on
    by (cases d) (simp add: initialize_def getsP_def bindP_def thenP_def set_state_run attempt_def whenP_def
      okP_def set_power_def modifyP_def configure_obliging calm_def)
qed

lemma spin_obliging:
  assumes "calm d" "cfg_vint_pin cfg" "dev_sockets d = None" "dev_power d = Off"
  shows "\<exists>d'. spin (obliging_env m cfg) k d = Some (Inr (), d')"
proof -
  let ?e = "obliging_env m cfg"
  obtain d1 where init: "initialize ?e k d = Some (Inr (), d1)" and
    d1: "dev_power d1 = On" "dev_sockets d1 = None" "dev_state d1 = FullyInitialized"
      "net_status (dev_network d1) = configured_status (dev_world d) (net_status (dev_network d))"
      "tx_timeouts (net_tx (dev_network d1)) = 0"
    by (rule that [OF initialize_obliging [OF assms]]) (simp_all add: assms(3))
  have "wp (net_process_events ?e) (\<lambda>_ n'. conn_state (net_status n') = Connected) (\<lambda>_ _. False) (dev_network d1)"
    by (rule wp_registered_network) (simp_all add: d1 configured_status_def)
  from wp_total [OF halts_net_process_events this] obtain n where
    n: "net_process_events ?e (dev_network d1) = Some (Inr (), n)" "conn_state (net_status n) = Connected"
    by auto
  have "dev_process_events ?e k d1 = Some (Inr (), d1\<lparr>dev_network := n\<rparr>)"
    using d1 n by (simp add: dev_process_events_def bindP_def getsP_def thenP_def handle_urc_internal_def
      okP_def attempt_def on_net_def zoom_def)
  with init d1 n show ?thesis
    by (simp add: spin_def bindP_def attempt_def thenP_def map_errP_def getsP_def okP_def is_connected_def)
qed

section \<open>Where the witnesses start\<close>

lemma calm_new: "calm (device_new t)"
  by (simp add: calm_def device_new_def network_new_def at_tx_new_def)

text \<open>An implementation of the sockets for devices that have none.\<close>

definition dull_sockets :: "('w, unit) socket_api" where
  "dull_sockets =
     \<lparr>sk_prune = (\<lambda>s. s), sk_closed_by_remote = (\<lambda>s w. (s, w)),
      sk_should_update = (\<lambda>s w. ((False, s), w)), sk_set_available = (\<lambda>_ s. s),
      sk_available = (\<lambda>_. 0), sk_can_recv = (\<lambda>_. False), sk_rx_window = (\<lambda>_. 0),
      sk_type = (\<lambda>_. Tcp), sk_rx_enqueue = (\<lambda>_ s. (0, s))\<rparr>"

text \<open>The answers of a scripted modem to \<open>setup_commands\<close>.\<close>

definition setup_answers :: "(at_error + at_resp) list" where
  "setup_answers =
     [Inr R_NoResponse, Inr R_NoResponse, Inr (R_General (R_ModelId [])),
      Inr (R_General (R_FirmwareVersion [])), Inr (R_Pin_Status Ready), Inr (R_General (R_CCID 0)),
      Inr R_NoResponse, Inr R_NoResponse, Inr R_NoResponse, Inr R_NoResponse, Inr R_NoResponse]"

end
