(* ===== verification/Device_Proofs.thy ===== *)
theory Device_Proofs
  imports Obliging_Modem
begin

text \<open>
  What holds of \<open>Device\<close>: which commands configure the module and in which order, what
  \<open>initialize\<close> and \<open>spin\<close> establish when they succeed, how a request for a reset and a missing
  power supply end, and that a URC of a socket reaches that socket only.
\<close>

section \<open>Runs\<close>

lemma wp_keeps:
  assumes "keeps R m" "\<And>r d'. R d d' \<Longrightarrow> Q r d'" "\<And>x d'. R d d' \<Longrightarrow> E x d'"
  shows "wp m Q E d"
  using assms by (intro wpI) (auto dest: keepsD)

lemma wp_on_net: "wp (on_net m) Q E d \<longleftrightarrow>
    wp m (\<lambda>r n. Q r (d\<lparr>dev_network := n\<rparr>)) (\<lambda>x n. E x (d\<lparr>dev_network := n\<rparr>)) (dev_network d)"
  by (simp add: on_net_def)

lemma wp_set_state [simp]: "wp (set_state s) Q E d \<longleftrightarrow> Q () (d\<lparr>dev_state := s\<rparr>)"
  by (simp add: set_state_def)

lemma wp_set_context [simp]:
  "wp (set_context c) Q E d \<longleftrightarrow> Q () (d\<lparr>dev_network := (dev_network d)\<lparr>net_context := c\<rparr>\<rparr>)"
  by (simp add: set_context_def wp_on_net)

text \<open>A command leaves the registration and everything outside the network alone.\<close>

definition cmd_frame :: "('w, 's) device \<Rightarrow> ('w, 's) device \<Rightarrow> bool" where
  "cmd_frame d d' \<longleftrightarrow>
     net_status (dev_network d') = net_status (dev_network d)
     \<and> dev_state d' = dev_state d \<and> dev_sockets d' = dev_sockets d \<and> dev_power d' = dev_power d"

interpretation cmd_frame: power_relation cmd_frame e "\<lambda>_. True" for e
  by unfold_locales (auto simp: cmd_frame_def put_world_def put_tx_def)

lemma cmd_frame_send: "keeps cmd_frame (dev_send e c b)"
proof (rule keepsI)
  fix d r d'
  assume run: "dev_send e c b d = Some (r, d')"
  have "wp (dev_send e c b) (\<lambda>_. cmd_frame d) (\<lambda>_. cmd_frame d) d"
    by (auto simp: dev_send_def wp_on_net cmd_frame_def intro!: wp_send_internal)
  with run show "cmd_frame d d'" by (auto simp: wp_def split: sum.splits)
qed

lemma cmd_frame_cmd: "keeps cmd_frame (dev_cmd e c b)"
  unfolding dev_cmd_def by (intro cmd_frame.rules cmd_frame_send)

lemma cmd_frame_rf_reset: "keeps cmd_frame (dev_rf_reset e)"
proof (rule keepsI)
  fix d r d'
  assume run: "dev_rf_reset e d = Some (r, d')"
  have "wp (dev_rf_reset e) (\<lambda>_. cmd_frame d) (\<lambda>_. cmd_frame d) d"
    by (auto simp: dev_rf_reset_def rf_reset_def set_functionality_def wp_on_net cmd_frame_def
        intro!: wp_send_internal)
  with run show "cmd_frame d d'" by (auto simp: wp_def split: sum.splits)
qed

lemma cmd_frame_sim: "keeps cmd_frame (select_sim_card e)"
proof -
  have "keeps cmd_frame (sim_attempts e n)" for n
  proof (induction n)
    case 0
    then show ?case by (simp add: cmd_frame.okP)
  next
    case (Suc n)
    then show ?case
      unfolding sim_attempts.simps by (intro cmd_frame.power_rules cmd_frame_send)
  qed
  then show ?thesis
    unfolding select_sim_card_def by (intro cmd_frame.rules cmd_frame_rf_reset)
qed

text \<open>With the record of what was sent.\<close>

lemma wp_dev_send_logged:
  assumes "\<And>r d'. cmd_frame d d' \<Longrightarrow> sent (dev_world d') = sent (dev_world d) @ [cmd_req c] \<Longrightarrow> Q r d'"
    and "\<And>x d'. cmd_frame d d' \<Longrightarrow> sent (dev_world d') = sent (dev_world d) @ [cmd_req c] \<Longrightarrow> E x d'"
  shows "wp (dev_send (logged e) c b) Q E d"
  using assms
  by (auto simp: dev_send_def wp_on_net cmd_frame_def intro!: wp_send_internal_logged)

lemma wp_dev_cmd_logged:
  assumes "\<And>d'. cmd_frame d d' \<Longrightarrow> sent (dev_world d') = sent (dev_world d) @ [cmd_req c] \<Longrightarrow> Q () d'"
    and "\<And>x d'. cmd_frame d d' \<Longrightarrow> sent (dev_world d') = sent (dev_world d) @ [cmd_req c] \<Longrightarrow> E x d'"
  shows "wp (dev_cmd (logged e) c b) Q E d"
  using assms by (simp add: dev_cmd_def wp_dev_send_logged)

lemma cmd_frame_put_world: "cmd_frame d (put_world w d)"
  by (simp add: cmd_frame_def put_world_def put_tx_def)

lemma wp_sim_attempts_logged:
  "wp (sim_attempts (logged e) n)
     (\<lambda>ready d'. cmd_frame d d' \<and> (\<exists>k \<le> n. (ready \<longrightarrow> 0 < k) \<and> (\<not> ready \<longrightarrow> k = n)
        \<and> sent (dev_world d') = sent (dev_world d) @ replicate k (Device_Lock GetPinStatus)))
     (\<lambda>_ _. False) d"
proof (induction n arbitrary: d)
  case 0
  then show ?case by (simp add: cmd_frame.R_refl)
next
  case (Suc n)
  let ?Q = "\<lambda>ready d'. cmd_frame d d' \<and> (\<exists>k \<le> Suc n. (ready \<longrightarrow> 0 < k) \<and> (\<not> ready \<longrightarrow> k = Suc n)
        \<and> sent (dev_world d') = sent (dev_world d) @ replicate k (Device_Lock GetPinStatus))"
  have later: "wp (sim_attempts (logged e) n) ?Q (\<lambda>_ _. False) d2"
    if "cmd_frame d d2" "sent (dev_world d2) = sent (dev_world d) @ [Device_Lock GetPinStatus]" for d2
  proof (rule wp_mono [OF Suc.IH])
    fix ready d'
    assume "cmd_frame d2 d' \<and> (\<exists>k \<le> n. (ready \<longrightarrow> 0 < k) \<and> (\<not> ready \<longrightarrow> k = n)
        \<and> sent (dev_world d') = sent (dev_world d2) @ replicate k (Device_Lock GetPinStatus))"
    then obtain k where k: "cmd_frame d2 d'" "k \<le> n" "ready \<longrightarrow> 0 < k" "\<not> ready \<longrightarrow> k = n"
      "sent (dev_world d') = sent (dev_world d2) @ replicate k (Device_Lock GetPinStatus)" by auto
    from k that show "?Q ready d'"
      by (intro conjI cmd_frame.R_trans [OF that(1) k(1)] exI [of _ "Suc k"]) auto
  qed simp
  have wait: "wp (wait_for (logged e) t) (\<lambda>_. wp (sim_attempts (logged e) n) ?Q (\<lambda>_ _. False))
      (\<lambda>_ _. False) d2"
    if "cmd_frame d d2" "sent (dev_world d2) = sent (dev_world d) @ [Device_Lock GetPinStatus]" for d2 t
    using that cmd_frame.R_trans [OF that(1) cmd_frame_put_world]
    by (intro wp_wait_for_logged later) simp_all
  show ?case
    by (auto intro!: wp_dev_send_logged wait exI [of _ "Suc 0"] simp: cmd_frame.R_refl)
qed

lemma wp_rf_reset_logged:
  assumes "\<And>d'. cmd_frame d d' \<Longrightarrow> sent (dev_world d') = sent (dev_world d) @
      [Mobile_Control (SetModuleFunctionality functionality.Minimum (min_reset_mode e)),
       Mobile_Control (SetModuleFunctionality functionality.Full (Some DontReset))] \<Longrightarrow> Q () d'"
    and "\<And>x d' qs. cmd_frame d d' \<Longrightarrow> sent (dev_world d') = sent (dev_world d) @ qs \<Longrightarrow>
      qs \<in> {[Mobile_Control (SetModuleFunctionality functionality.Minimum (min_reset_mode e))],
       [Mobile_Control (SetModuleFunctionality functionality.Minimum (min_reset_mode e)),
        Mobile_Control (SetModuleFunctionality functionality.Full (Some DontReset))]} \<Longrightarrow>
      x \<noteq> Busy \<Longrightarrow> E x d'"
  shows "wp (dev_rf_reset (logged e)) Q E d"
  using assms
  by (auto simp: dev_rf_reset_def rf_reset_def set_functionality_def wp_on_net cmd_frame_def
      min_reset_mode_def device_of_network_def intro!: wp_send_internal_logged)

lemma wp_select_sim_card_logged:
  assumes "\<And>d' k. cmd_frame d d' \<Longrightarrow> k = 1 \<or> k = 2 \<Longrightarrow>
      sent (dev_world d') = sent (dev_world d) @ replicate k (Device_Lock GetPinStatus) \<Longrightarrow> Q () d'"
    and "\<And>x d'. E x d'"
  shows "wp (select_sim_card (logged e)) Q E d"
  unfolding select_sim_card_def wp_bindP
proof (rule wp_mono [OF wp_sim_attempts_logged])
  fix ready d1
  assume "cmd_frame d d1 \<and> (\<exists>k \<le> 2. (ready \<longrightarrow> 0 < k) \<and> (\<not> ready \<longrightarrow> k = 2)
        \<and> sent (dev_world d1) = sent (dev_world d) @ replicate k (Device_Lock GetPinStatus))"
  then obtain k where k: "cmd_frame d d1" "k \<le> 2" "ready \<longrightarrow> 0 < k"
    "sent (dev_world d1) = sent (dev_world d) @ replicate k (Device_Lock GetPinStatus)" by auto
  from k(2,3) have "ready \<longrightarrow> k = 1 \<or> k = 2" by auto
  with k assms show "wp (if ready then okP () else thenP (dev_rf_reset (logged e)) (errP Busy)) Q E d1"
    by (auto intro!: wp_rf_reset_logged)
qed simp

text \<open>The commands of \<open>setup_at_commands\<close> before and after the choice of the SIM card.\<close>

definition setup_head :: "'w env \<Rightarrow> at_req list" where
  "setup_head e =
     [Mobile_Control (SetReportMobileTerminationError termination_error_mode.Enabled),
      Gpio (SetGpioConfiguration 25 (gpio_mode.Output gpio_out_value.High))]
     @ (if variant e = Lara_R6 then [Gpio (SetGpioConfiguration 42 (gpio_mode.Input NoPull))] else [])
     @ [General GetModelId, General GetFirmwareVersion]"

definition setup_tail :: "'w env \<Rightarrow> at_req list" where
  "setup_tail e =
     [General GetCCID, Control (SetCircuit109Behaviour ChangesWithCarrier),
      Control (SetCircuit108Behaviour circuit108_behaviour.Ignore),
      System_Features (SetPowerSavingControl power_saving_mode.Disabled None),
      Socket (SetHexMode (hex_mode_setting e)),
      Control (SetFlowControl (flow_control_setting e))]"

lemma wp_setup_commands_logged:
  "wp (setup_commands (logged e))
    (\<lambda>_ d'. dev_state d' = AtInitialized \<and> 
       (sent (dev_world d') = sent (dev_world d) @ setup_head e
          @ [Device_Lock GetPinStatus] @ setup_tail e
        \<or> sent (dev_world d') = sent (dev_world d) @ setup_head e
          @ [Device_Lock GetPinStatus, Device_Lock GetPinStatus] @ setup_tail e))
    (\<lambda>_ _. True) d"
  unfolding setup_commands_def setup_head_def setup_tail_def
  by (cases "variant e = Lara_R6")
    (auto intro!: wp_dev_cmd_logged wp_select_sim_card_logged
      simp: hex_mode_setting_def flow_control_setting_def numeral_2_eq_2)

section \<open>Success of the initialization\<close>

text \<open>What \<open>power_on\<close> may do to the record of the power: nothing with a \<open>PWR_ON\<close> pin.\<close>

definition power_kept :: "'w env \<Rightarrow> ('w, 's) device \<Rightarrow> ('w, 's) device \<Rightarrow> bool" where
  "power_kept e d d' \<longleftrightarrow> (cfg_power_pin (config e) \<longrightarrow> dev_power d' = dev_power d)"

interpretation power_kept: power_relation "power_kept e" e "\<lambda>_. True" for e
  by unfold_locales (auto simp: power_kept_def put_world_def put_tx_def)

lemma power_kept_power_on: "keeps (power_kept e) (power_on e)"
proof (cases "cfg_power_pin (config e)")
  case True
  have "keeps (power_kept e) (power_pulse_on e)"
    unfolding power_pulse_on_def
    by (intro power_kept.power_rules power_kept.wait_power_state) simp_all
  then show ?thesis
    unfolding power_on_with_pin [OF True]
    by (intro power_kept.rules power_kept.power_state) simp_all
next
  case False
  then show ?thesis by (simp add: keeps_def power_kept_def)
qed

lemma wp_any: "(\<And>r d'. Q r d') \<Longrightarrow> (\<And>x d'. E x d') \<Longrightarrow> wp m Q E d"
  by (rule wpI) simp_all

lemma wp_dev_cmd:
  assumes "\<And>d'. cmd_frame d d' \<Longrightarrow> Q () d'" "\<And>x d'. cmd_frame d d' \<Longrightarrow> E x d'"
  shows "wp (dev_cmd e c b) Q E d"
  using assms by (intro wp_keeps [OF cmd_frame_cmd]) simp_all

lemma wp_select_sim_card:
  assumes "\<And>d'. cmd_frame d d' \<Longrightarrow> Q () d'" "\<And>x d'. cmd_frame d d' \<Longrightarrow> E x d'"
  shows "wp (select_sim_card e) Q E d"
  using assms by (intro wp_keeps [OF cmd_frame_sim]) simp_all

lemma wp_power_on:
  assumes "\<And>r d'. power_frame d d' \<Longrightarrow> power_kept e d d' \<Longrightarrow> Q r d'"
    and "\<And>x d'. power_frame d d' \<Longrightarrow> power_kept e d d' \<Longrightarrow> E x d'"
  shows "wp (power_on e) Q E d"
  using assms by (intro wpI) (auto dest: keepsD [OF power_kept_power_on] keepsD [OF power_frame.power_on])

lemma wp_is_alive:
  assumes "\<And>d'. cmd_frame d d' \<Longrightarrow> Q () d'" "\<And>x d'. cmd_frame d d' \<Longrightarrow> E x d'"
  shows "wp (is_alive e a) Q E d"
  using assms by (intro wp_keeps [OF cmd_frame.is_alive]) simp_all

lemma wp_setup_commands:
  "wp (setup_commands e)
    (\<lambda>_ d'. dev_state d' = AtInitialized \<and> dev_power d' = dev_power d
       \<and> net_status (dev_network d') = net_status (dev_network d)) (\<lambda>_ _. True) d"
  unfolding setup_commands_def whenP_def
  by (auto intro!: wp_dev_cmd wp_select_sim_card simp: cmd_frame_def)

lemma wp_if_err:
  "wp (bindP (attempt m) (\<lambda>r. if is_err r then f r else g)) Q E d \<longleftrightarrow>
     wp m (\<lambda>_. wp g Q E) (\<lambda>x. wp (f (Inl x)) Q E) d"
  by simp

lemma wp_setup_at_commands:
  "wp (setup_at_commands e k)
    (\<lambda>_ d'. dev_state d' = AtInitialized \<and> power_kept e d d') (\<lambda>_ _. True) d"
proof -
  have cmds: "wp (setup_commands e) (\<lambda>_ d'. dev_state d' = AtInitialized \<and> power_kept e d d')
      (\<lambda>_ _. True) d1" if "power_kept e d d1" for d1
    by (rule wp_mono [OF wp_setup_commands]) (use that in \<open>simp_all add: power_kept_def\<close>)
  have fail: "wp (bindP (attempt m) (\<lambda>res. thenP (f res) (errP x))) Q (\<lambda>_ _. True) d1"
    for m :: "(('a, 'b) device, device_error, unit) prog" and f x Q and d1 :: "('a, 'b) device"
    unfolding wp_bindP wp_attempt wp_thenP wp_errP by (intro wp_any TrueI)
  have alive: "wp (bindP (attempt (is_alive e 5)) (\<lambda>alive.
       if is_err alive then
         bindP (attempt (hard_reset e)) (\<lambda>res.
           thenP (whenP (is_err res) (thenP (hard_power_off e) (wait_for e (from_secs 1))))
                 (errP BaudDetection))
       else setup_commands e))
     (\<lambda>_ d'. dev_state d' = AtInitialized \<and> power_kept e d d') (\<lambda>_ _. True) d1"
    if "power_kept e d d1" for d1
    unfolding wp_if_err
    using that by (intro wp_is_alive fail cmds) (simp_all add: cmd_frame_def power_kept_def)
  show ?thesis
    unfolding setup_at_commands_def clear_buffers_def wp_thenP
      wp_modifyP wp_set_context
    by (intro wp_power_on alive TrueI) (simp add: power_kept_def)
qed

text \<open>The rest of \<open>initialize\<close>.\<close>

lemma wp_reset_reg_time:
  "wp (reset_reg_time e) (\<lambda>_ n'. conn_state (net_status n') = conn_state (net_status n)
      \<and> (\<exists>t. reg_start_time (net_status n') = Some t \<and> reg_check_time (net_status n') = Some t))
    E n"
  by (auto simp: reset_reg_time_def intro!: wp_net_clock)

lemma wp_enable_registration_urcs:
  assumes "\<And>d'. cmd_frame d d' \<Longrightarrow> Q () d'" "\<And>x d'. E x d'"
  shows "wp (enable_registration_urcs e) Q E d"
  using assms
  by (auto simp: enable_registration_urcs_def cmd_frame_def intro!: wp_dev_cmd)

lemma wp_dev_send:
  assumes "\<And>r d'. cmd_frame d d' \<Longrightarrow> Q r d'" "\<And>x d'. cmd_frame d d' \<Longrightarrow> E x d'"
  shows "wp (dev_send e c b) Q E d"
  using assms by (intro wp_keeps [OF cmd_frame_send]) simp_all

text \<open>The registration is under way: the module is to connect, from the time on its record.\<close>

definition registering :: "registration_state \<Rightarrow> bool" where
  "registering r \<longleftrightarrow> conn_state r = Connecting
     \<and> (\<exists>t. reg_start_time r = Some t \<and> reg_check_time r = Some t)"

lemma wp_register:
  assumes "conn_state (net_status (dev_network d)) = Connecting" "power_kept e d0 d"
  shows "wp (thenP (map_errP device_of_network (on_net (update_registration e)))
      (thenP (map_errP device_of_network (on_net (reset_reg_time e))) (set_state FullyInitialized)))
    (\<lambda>_ d'. dev_state d' = FullyInitialized \<and> power_kept e d0 d'
       \<and> registering (net_status (dev_network d'))) (\<lambda>_ _. True) d"
proof -
  have "wp (reset_reg_time e) (\<lambda>_ n'. registering (net_status n')) (\<lambda>_ _. True) n"
    if "conn_state (net_status n) = Connecting" for n :: "'a network"
    by (rule wp_mono [OF wp_reset_reg_time]) (use that in \<open>auto simp: registering_def\<close>)
  with assms show ?thesis
    by (auto simp: wp_on_net power_kept_def steady_def intro!: wp_update_registration)
qed

lemma wp_kept_then:
  assumes "keeps (power_kept e) m" "power_kept e d0 d"
    "\<And>d1. power_kept e d0 d1 \<Longrightarrow> wp k Q (\<lambda>_ _. True) d1"
  shows "wp (thenP m k) Q (\<lambda>_ _. True) d"
  unfolding wp_thenP
  by (rule wp_keeps [OF assms(1)]) (use assms(3) power_kept.R_trans [OF assms(2)] in simp_all)

lemma power_kept_frame: "cmd_frame d d' \<Longrightarrow> power_kept e d d'"
  by (simp add: cmd_frame_def power_kept_def)

lemmas power_kept_cmd = keeps_mono [OF cmd_frame_cmd power_kept_frame]

lemmas power_kept_sim = keeps_mono [OF cmd_frame_sim power_kept_frame]

lemma power_kept_reset: "keeps (power_kept e) (on_net (on_status (registration_reset e)))"
  by (auto simp: keeps_def on_net_def zoom_def power_kept_def split: option.splits)

lemma wp_configure:
  "wp (configure e k)
    (\<lambda>_ d'. dev_state d' = FullyInitialized \<and> power_kept e d d'
       \<and> registering (net_status (dev_network d'))) (\<lambda>_ _. True) d"
proof -
  have select: "wp (bindP (dev_send e get_operator_selection True) (\<lambda>sel.
       thenP (whenP (c sel) (dev_cmd e p True)) m))
      Q (\<lambda>_ _. True) d1"
    if "\<And>d2. cmd_frame d1 d2 \<Longrightarrow> wp m Q (\<lambda>_ _. True) d2" for m c p Q
      and d1 :: "('a, 'b) device"
    using that by (auto simp: whenP_def cmd_frame_def intro!: wp_dev_send wp_dev_cmd)
  let ?register = "thenP (map_errP device_of_network (on_net (update_registration e)))
      (thenP (map_errP device_of_network (on_net (reset_reg_time e))) (set_state FullyInitialized))"
  let ?Q = "\<lambda>_ d'. dev_state d' = FullyInitialized \<and> power_kept e d d'
       \<and> registering (net_status (dev_network d'))"
  have connect: "wp (thenP (on_net (modify_status (set_connection_state Connecting)))
      (thenP (enable_registration_urcs e)
      (bindP (dev_send e get_operator_selection True) (\<lambda>sel.
       thenP (whenP (c sel) (dev_cmd e p True)) ?register)))) ?Q (\<lambda>_ _. True) d1"
    if "power_kept e d d1" for d1 c p
    unfolding wp_thenP [of "on_net m" for m] wp_thenP [of "enable_registration_urcs e"]
    unfolding wp_on_net wp_modifyP
    using that
    by (intro wp_enable_registration_urcs select wp_register)
      (simp_all add: cmd_frame_def power_kept_def set_connection_state_eq)
  show ?thesis
    unfolding configure_def wp_thenP [of "setup_at_commands e k"]
    by (rule wp_mono [OF wp_setup_at_commands],
        intro wp_kept_then [OF power_kept_sim] wp_kept_then [OF power_kept_cmd]
          wp_kept_then [OF power_kept.whenP [OF power_kept_cmd]] wp_kept_then [OF power_kept_reset]
          connect) simp_all
qed

lemma wp_initialize:
  assumes "\<not> (dev_power d = On \<and> dev_state d = FullyInitialized)"
  shows "wp (initialize e k) (\<lambda>_ d'. dev_state d' = FullyInitialized
      \<and> registering (net_status (dev_network d'))
      \<and> (cfg_power_pin (config e) \<longrightarrow> dev_power d' = On)) (\<lambda>_ _. True) d"
proof -
  have last: "wp (configure e k) (\<lambda>_ d'. dev_state d' = FullyInitialized
      \<and> registering (net_status (dev_network d'))
      \<and> (cfg_power_pin (config e) \<longrightarrow> dev_power d' = On)) (\<lambda>_ _. True) d1" if "dev_power d1 = On" for d1
    by (rule wp_mono [OF wp_configure]) (use that in \<open>simp_all add: power_kept_def\<close>)
  from assms show ?thesis
    by (auto simp: initialize_def whenP_def intro!: last
        wp_any [where m = "power_on e"] wp_any [where m = "hard_reset e"])
qed

lemma initialize_done:
  assumes "dev_power d = On" "dev_state d = FullyInitialized"
  shows "initialize e k d = Some (Inr (), d)"
  using assms by (simp add: initialize_def bindP_def getsP_def okP_def)

lemma wp_dev_process_events:
  assumes "dev_power d = On"
  shows "wp (dev_process_events e k)
     (\<lambda>_ d2. dev_state d2 = dev_state d \<and> dev_power d2 = On)
     (\<lambda>x d2. dev_state d2 = dev_state d \<and> (x = Dev_Generic Timeout \<longrightarrow> dev_power d2 = Off)) d"
proof -
  have urc: "wp (handle_urc_internal e k) (\<lambda>_ d1. dev_state d1 = dev_state d \<and> dev_power d1 = dev_power d)
      (\<lambda>_ _. False) d"
    by (auto simp: handle_urc_internal_def wp_def bindP_def getsP_def okP_def on_dev_world_run
        try_next_message_def modifyP_def put_world_def put_tx_def split: option.splits prod.splits)
  have reset: "wp (hard_reset e)
      (\<lambda>_ d2. dev_state d2 = dev_state d1 \<and> dev_power d2 = Off)
      (\<lambda>_ d2. dev_state d2 = dev_state d1 \<and> dev_power d2 = Off) d1" for d1
    by (rule wp_hard_reset) (simp_all add: power_frame_def)
  have generic: "x = Generic Timeout" if "device_of_network x = Dev_Generic Timeout" for x
    using that by (cases x) (simp_all add: device_of_network_def)
  have "wp (bindP (attempt (on_net (net_process_events e))) (\<lambda>res.
           if res = Inl (Generic Timeout) then
             thenP (hard_reset e) (errP (Dev_Generic Timeout))
           else (case res of Inl x \<Rightarrow> errP (device_of_network x) | Inr r \<Rightarrow> okP r)))
     (\<lambda>_ d2. dev_state d2 = dev_state d \<and> dev_power d2 = On)
     (\<lambda>x d2. dev_state d2 = dev_state d \<and> (x = Dev_Generic Timeout \<longrightarrow> dev_power d2 = Off)) d1"
    if "dev_state d1 = dev_state d" "dev_power d1 = On" for d1
    using that
    by (auto simp: wp_on_net dest: generic
        intro!: wp_any [where m = "net_process_events e"] wp_mono [OF reset])
  with assms show ?thesis
    by (simp add: dev_process_events_def del: wp_bindP) (auto intro!: wp_mono [OF urc])
qed

lemma dev_process_events_off:
  "dev_power d \<noteq> On \<Longrightarrow> dev_process_events e k d = Some (Inl Uninitialized, d)"
  by (simp add: dev_process_events_def bindP_def getsP_def errP_def)

section \<open>The pins\<close>

text \<open>The environment over a world that records what the driver makes of its pins, and sockets over a
  world with a record.\<close>

definition wired :: "'w env \<Rightarrow> ('w \<times> (pin \<times> bool) list) env" where
  "wired e =
     \<lparr>now = (\<lambda>(w, l). case now e w of (t, w') \<Rightarrow> (t, w', l)),
      send_raw = (\<lambda>q (w, l). case send_raw e q w of (r, w') \<Rightarrow> (r, w', l)),
      next_urc = (\<lambda>s (w, l). case next_urc e s w of (u, w') \<Rightarrow> (u, w', l)),
      set_pin = (\<lambda>p b (w, l). (set_pin e p b w, l @ [(p, b)])),
      vint_is_high = (\<lambda>(w, l). case vint_is_high e w of (b, w') \<Rightarrow> (b, w', l)),
      default_attempts = default_attempts e,
      config = config e,
      variant = variant e\<rparr>"

definition logged_sockets :: "('w, 's) socket_api \<Rightarrow> ('w \<times> 'l, 's) socket_api" where
  "logged_sockets k =
     \<lparr>sk_prune = sk_prune k,
      sk_closed_by_remote = (\<lambda>s (w, l). case sk_closed_by_remote k s w of (s', w') \<Rightarrow> (s', w', l)),
      sk_should_update = (\<lambda>s (w, l). case sk_should_update k s w of (r, w') \<Rightarrow> (r, w', l)),
      sk_set_available = sk_set_available k, sk_available = sk_available k,
      sk_can_recv = sk_can_recv k, sk_rx_window = sk_rx_window k, sk_type = sk_type k,
      sk_rx_enqueue = sk_rx_enqueue k\<rparr>"

text \<open>What has been driven so far.\<close>

abbreviation driven :: "('w \<times> (pin \<times> bool) list, 's) device \<Rightarrow> (pin \<times> bool) list" where
  "driven d \<equiv> snd (dev_world d)"

lemma wired_simps [simp]:
  "config (wired e) = config e" "variant (wired e) = variant e" "default_attempts (wired e) = default_attempts e"
  "set_pin (wired e) p b w = (set_pin e p b (fst w), snd w @ [(p, b)])"
  by (simp_all add: wired_def split_beta)

lemma wired_quiet:
  "now (wired e) w = (t, w') \<Longrightarrow> snd w' = snd w" "send_raw (wired e) q w = (x, w') \<Longrightarrow> snd w' = snd w"
  "next_urc (wired e) s w = (u, w') \<Longrightarrow> snd w' = snd w" "vint_is_high (wired e) w = (v, w') \<Longrightarrow> snd w' = snd w"
  by (auto simp: wired_def split: prod.splits)

lemma socket_urc_wired: "socket_urc (logged_sockets k) u socks w = (socks', w') \<Longrightarrow> snd w' = snd w"
  by (auto simp: socket_urc_def on_socket_def logged_sockets_def split: urc.splits option.splits prod.splits)

text \<open>The network drives no pin, and the power operations only add to what has been driven.\<close>

definition undriven :: "('w \<times> (pin \<times> bool) list) network \<Rightarrow> ('w \<times> (pin \<times> bool) list) network \<Rightarrow> bool" where
  "undriven n n' \<longleftrightarrow> snd (net_world n') = snd (net_world n)"

interpretation undriven: net_frame undriven "wired e" "\<lambda>_. True" for e
  by unfold_locales (auto simp: undriven_def dest: wired_quiet)

definition drives_on :: "('w \<times> (pin \<times> bool) list, 's) device \<Rightarrow> ('w \<times> (pin \<times> bool) list, 's) device \<Rightarrow> bool" where
  "drives_on d d' \<longleftrightarrow> (\<exists>l. driven d' = driven d @ l)"

interpretation drives_on: switch_relation drives_on "wired e" "\<lambda>_. True" for e
  by unfold_locales (auto simp: drives_on_def dest: wired_quiet)

lemma timer_wait_wired:
  assumes "timer_wait (wired e) t w = Some y"
  shows "snd (snd y) = snd w"
proof -
  have "\<forall>e. e' = wired e \<longrightarrow> snd (snd y) = snd w" if "timer_wait e' t w = Some y" for e' :: "('a \<times> (pin \<times> bool) list) env"
    by (rule timer_wait.raw_induct [where P = "\<lambda>e' t w y. \<forall>e. e' = wired e \<longrightarrow> snd (snd y) = snd w", OF _ that])
      (fastforce dest: wired_quiet split: prod.splits if_splits)
  with assms show ?thesis by blast
qed

lemma wp_wait_wired:
  assumes "\<And>w. snd w = driven d \<Longrightarrow> Q () (put_world w d)"
  shows "wp (wait_for (wired e) t) Q E d"
proof (rule wpI)
  fix r d' assume run: "wait_for (wired e) t d = Some (Inr r, d')"
  obtain s v where now: "now (wired e) (dev_world d) = (s, v)"
    by (cases "now (wired e) (dev_world d)")
  with run obtain w where w: "timer_wait (wired e) (s + t) v = Some (Inr (), w)" "d' = put_world w d"
    by (auto simp: on_dev_world_run timer_after_def bindP_def clock_def split: option.splits sum.splits)
  from timer_wait_wired [OF w(1)] wired_quiet(1) [OF now] have "snd w = driven d" by simp
  with assms w(2) show "Q r d'" by simp
qed (auto simp: on_dev_world_run dest: timer_after_ok split: option.splits)

definition reset_drives :: "'w env \<Rightarrow> (pin \<times> bool) list" where
  "reset_drives e = (if cfg_reset_pin (config e) then [(Reset_Pin, False), (Reset_Pin, True)] else [])"

lemma wp_drive_wired:
  "Q () (put_world (set_pin e p b (fst (dev_world d)), driven d @ [(p, b)]) d) \<Longrightarrow> wp (drive (wired e) p b) Q E d"
  by (simp add: drive_def on_dev_world_run wp_def modifyP_def)

lemma hard_reset_wired:
  assumes "hard_reset (wired e) d = Some (r, d')"
  shows "\<exists>l. driven d' = driven d @ reset_drives e @ l"
proof -
  have pulse: "wp (reset_pulse (wired e)) (\<lambda>_ d1. driven d1 = driven d @ reset_drives e) (\<lambda>_ _. False) d"
    by (auto simp: reset_pulse_def whenP_def reset_drives_def intro!: wp_wait_wired wp_drive_wired)
  from assms have "wp (hard_reset (wired e)) (\<lambda>_ d'. \<exists>l. driven d' = driven d @ reset_drives e @ l)
      (\<lambda>_ d'. \<exists>l. driven d' = driven d @ reset_drives e @ l) d"
    unfolding hard_reset_def hard_reset_with_def wp_thenP
    by (intro wp_mono [OF pulse] wp_keeps [OF drives_on.power_on] conjI)
      (auto simp: set_power_def drives_on_def intro!: wp_keeps [OF drives_on.power_on])
  with assms show ?thesis by (cases r) (auto simp: wp_def)
qed

lemma urcs_wired:
  "wp (handle_urc_internal (wired e) (logged_sockets k)) (\<lambda>_ d1. driven d1 = driven d \<and> dev_power d1 = dev_power d
     \<and> dev_state d1 = dev_state d \<and> tx_timeouts (net_tx (dev_network d1)) = tx_timeouts (net_tx (dev_network d)))
   (\<lambda>_ _. False) d"
  by (auto simp: handle_urc_internal_def wp_def bindP_def getsP_def okP_def on_dev_world_run
      try_next_message_def modifyP_def put_world_def put_tx_def dest!: wired_quiet(3) socket_urc_wired
      split: option.splits prod.splits)

lemma wired_in_time:
  "ticking e clk \<Longrightarrow> ticking (wired e) (clk \<circ> fst)"
  "monotone_world e clk \<Longrightarrow> monotone_world (wired e) (clk \<circ> fst)"
  by (auto simp: ticking_def monotone_world_def wired_def split: prod.split) (metis fst_conv snd_conv)+

section \<open>Properties\<close>

text \<open>C8: what an \<open>initialize\<close> that succeeds leaves behind: the device fully initialized; if it was
  so already and on, nothing else has happened, otherwise the registration has been started over,
  with its timers at the same instant; and with a \<open>PWR_ON\<close> pin the module is recorded as on.\<close>

theorem initialize_establishes:
  assumes "initialize e k d = Some (Inr (), d')"
  shows "dev_state d' = FullyInitialized
    \<and> (if dev_power d = On \<and> dev_state d = FullyInitialized then d' = d
        else registering (net_status (dev_network d')))
    \<and> (cfg_power_pin (config e) \<longrightarrow> dev_power d' = On)"
proof (cases "dev_power d = On \<and> dev_state d = FullyInitialized")
  case True
  then show ?thesis using assms by (simp add: initialize_done)
next
  case False
  from wpD_Inr [OF wp_initialize [OF this] assms] False show ?thesis by auto
qed

theorem initialize_establishes_witness:
  "\<exists>d'. initialize (obliging_env Toby_R2 pins) dull_sockets (device_new 0) = Some (Inr (), d')
     \<and> dev_state d' = FullyInitialized \<and> registering (net_status (dev_network d'))
     \<and> dev_power d' = On"
proof -
  let ?e = "obliging_env Toby_R2 pins"
  obtain d' where run: "initialize ?e dull_sockets (device_new 0) = Some (Inr (), d')"
    using initialize_obliging [OF calm_new, of pins] by (auto simp: device_new_def)
  from initialize_establishes [OF run] have
    "dev_state d' = FullyInitialized" "registering (net_status (dev_network d'))" "dev_power d' = On"
    by (simp_all add: device_new_def)
  with run show ?thesis by blast
qed


text \<open>C24: \<open>process_events\<close> of the device. With the module recorded as off it refuses and does nothing. With
  the module on it either leaves it on, with every pin as it was, or has hard reset it: then \<open>RESET_N\<close>, where there is such
  a pin, was driven low and high again before anything else was driven, the module is recorded as off and the call fails.
  More than ten consecutive timeouts on record have it reset, and a timeout error says that it was. In no case does the state of
  the configuration change.\<close>

theorem dev_process_events_outcome:
  assumes "dev_process_events (wired e) (logged_sockets k) d = Some (r, d')"
  shows "dev_state d' = dev_state d
    \<and> (if dev_power d \<noteq> On then r = Inl Uninitialized \<and> d' = d
       else if dev_power d' \<noteq> On then
         dev_power d' = Off \<and> is_err r
         \<and> (\<exists>l. driven d' = driven d @ (if cfg_reset_pin (config e) then [(Reset_Pin, False), (Reset_Pin, True)] else []) @ l)
       else driven d' = driven d \<and> r \<noteq> Inl (Dev_Generic Timeout)
         \<and> tx_timeouts (net_tx (dev_network d)) \<le> 10)"
proof (cases "dev_power d = On")
  case True
  let ?e = "wired e" and ?k = "logged_sockets k :: ('a \<times> (pin \<times> bool) list, 'b) socket_api"
  obtain u d1 where "handle_urc_internal ?e ?k d = Some (u, d1)"
    using assms True by (auto simp: dev_process_events_def thenP_def bindP_def getsP_def split: option.splits)
  with urcs_wired [of e k d] have urcs: "handle_urc_internal ?e ?k d = Some (Inr (), d1)"
    and d1: "driven d1 = driven d" "dev_power d1 = dev_power d" "dev_state d1 = dev_state d"
      "tx_timeouts (net_tx (dev_network d1)) = tx_timeouts (net_tx (dev_network d))"
    by (auto simp: wp_def split: sum.splits)
  obtain q n2 where net: "net_process_events ?e (dev_network d1) = Some (q, n2)"
    using haltsD [OF halts_net_process_events] by blast
  have quiet: "snd (net_world n2) = driven d"
    using keepsD [OF undriven.process_events net] d1(1) by (simp add: undriven_def)
  let ?d2 = "d1\<lparr>dev_network := n2\<rparr>"
  show ?thesis
  proof (cases "q = Inl (Generic Timeout)")
    case timeout: True
    with assms True urcs net obtain rr where reset: "hard_reset ?e ?d2 = Some (rr, d')" and "is_err r"
      by (auto simp: dev_process_events_def thenP_def bindP_def getsP_def attempt_def on_net_def zoom_def errP_def is_err_def
          split: option.splits sum.splits)
    have "wp (hard_reset ?e) (\<lambda>_ d'. dev_state d' = dev_state ?d2 \<and> dev_power d' = Off)
      (\<lambda>_ d'. dev_state d' = dev_state ?d2 \<and> dev_power d' = Off) ?d2"
      by (rule wp_hard_reset) (simp_all add: power_frame_def)
    with reset have "dev_state d' = dev_state d" "dev_power d' = Off"
      using d1 by (auto simp: wp_def split: sum.splits)
    with hard_reset_wired [OF reset] True quiet \<open>is_err r\<close> show ?thesis by (simp add: reset_drives_def)
  next
    case False
    have "tx_timeouts (net_tx (dev_network d1)) \<le> 10"
      using False net by (auto simp: net_process_events_def bindP_def getsP_def thenP_def errP_def modifyP_def split: if_splits)
    moreover have "d' = ?d2" "r = map_sum device_of_network id q"
      using assms True urcs net False
      by (auto simp: dev_process_events_def thenP_def bindP_def getsP_def attempt_def on_net_def zoom_def errP_def okP_def
          split: sum.splits)
    moreover have "map_sum device_of_network id q \<noteq> Inl (Dev_Generic Timeout)"
      using False by (cases q; cases "projl q") (auto simp: device_of_network_def)
    ultimately show ?thesis using True d1 quiet by simp
  qed
next
  case False
  with assms show ?thesis by (simp add: dev_process_events_off)
qed

theorem dev_process_events_outcome_witness:
  "\<exists>r d' l. dev_process_events (wired (obliging_env Toby_R2 (pins\<lparr>cfg_reset_pin := True, cfg_power_pin := True\<rparr>)))
       (logged_sockets dull_sockets)
       ((device_new (0, []))\<lparr>dev_power := On, dev_network := network_new \<lparr>tx_timeouts = 11, tx_world = (0, [])\<rparr>\<rparr>)
     = Some (r, d') \<and> is_err r \<and> dev_power d' = Off \<and> driven d' = (Reset_Pin, False) # (Reset_Pin, True) # l"
proof -
  let ?e = "wired (obliging_env Toby_R2 (pins\<lparr>cfg_reset_pin := True, cfg_power_pin := True\<rparr>))"
  let ?d = "(device_new (0, []))\<lparr>dev_power := On, dev_network := network_new \<lparr>tx_timeouts = 11, tx_world = (0, [])\<rparr>\<rparr>
    :: (instant \<times> (pin \<times> bool) list, unit) device"
  have "halts (hard_reset ?e :: ((instant \<times> (pin \<times> bool) list, unit) device, device_error, unit) prog)"
    by (rule halts_hard_reset [where clk = "id \<circ> fst", OF wired_in_time(1) [OF obliging_ticking] wired_in_time(2)])
      (simp_all add: monotone_world_def obliging_env_def)
  note reset = haltsD [OF this]
  have "\<exists>r d'. dev_process_events ?e (logged_sockets dull_sockets) ?d = Some (r, d')"
    using reset [of "?d\<lparr>dev_network := network_new \<lparr>tx_timeouts = 0, tx_world = (0, [])\<rparr>\<rparr>"]
    by (auto simp: dev_process_events_def handle_urc_internal_def net_process_events_def device_new_def
        network_new_def thenP_def bindP_def getsP_def okP_def errP_def attempt_def on_net_def zoom_def
        modifyP_def split: sum.split option.split)
  then obtain r d' where run: "dev_process_events ?e (logged_sockets dull_sockets) ?d = Some (r, d')" by blast
  from dev_process_events_outcome [OF run] run show ?thesis
    by (auto simp: device_new_def network_new_def obliging_env_def split: if_splits)
qed

text \<open>One round of \<open>spin\<close>, after its two calls.\<close>

lemma spin_run:
  assumes "initialize e k d = Some (ri, d1)" "dev_process_events e k d1 = Some (rp, d2)"
  shows "spin e k d =
     (case rp of
        Inl x \<Rightarrow> Some (Inl (Other x), d2)
      | Inr _ \<Rightarrow>
          (case ri of
             Inl x \<Rightarrow> Some (Inl (Other x), d2)
           | Inr _ \<Rightarrow>
               if is_connected (dev_network d2) \<and> dev_state d2 = FullyInitialized then Some (Inr (), d2)
               else Some (Inl WouldBlock,
                 if net_context (dev_network d2) = Active
                 then d2\<lparr>dev_network := (dev_network d2)\<lparr>net_context := Activating\<rparr>\<rparr> else d2)))"
  using assms
  by (cases rp; cases ri)
    (simp_all add: spin_def bindP_def attempt_def thenP_def map_errP_def getsP_def okP_def errP_def
      set_context_def on_net_def zoom_def modifyP_def)

text \<open>C15: what a round of \<open>spin\<close> says. In success the module is on, configured and registered on
  the network. \<open>WouldBlock\<close> says that it is on and configured but not registered, and a data
  context that was active is then no longer taken for active. When the configuration leaves the
  module recorded as off the error is \<open>Uninitialized\<close> whatever made it fail; any other error is
  that of \<open>process_events\<close> or, when there is none, of the configuration.\<close>

theorem spin_outcome:
  assumes "spin e k d = Some (r, d')"
  shows "\<exists>ri d1. initialize e k d = Some (ri, d1) \<and>
    (case r of
       Inr _ \<Rightarrow> dev_power d' = On \<and> dev_state d' = FullyInitialized \<and> is_connected (dev_network d')
     | Inl WouldBlock \<Rightarrow> dev_power d' = On \<and> dev_state d' = FullyInitialized
         \<and> \<not> is_connected (dev_network d') \<and> net_context (dev_network d') \<noteq> Active
     | Inl (Other x) \<Rightarrow>
         if dev_power d1 \<noteq> On then x = Uninitialized \<and> d' = d1
         else dev_process_events e k d1 = Some (Inl x, d')
           \<or> ri = Inl x \<and> dev_process_events e k d1 = Some (Inr (), d'))"
proof -
  obtain ri d1 where init: "initialize e k d = Some (ri, d1)"
    using assms by (auto simp: spin_def bindP_def attempt_def split: option.splits)
  have full: "dev_state d1 = FullyInitialized" if "ri = Inr ()"
    using wpD_Inr [OF wp_initialize] init that by (metis initialize_done option.inject prod.inject)
  obtain rp d2 where events: "dev_process_events e k d1 = Some (rp, d2)"
    using assms init
    by (auto simp: spin_def bindP_def attempt_def thenP_def map_errP_def split: option.splits)
  have on: "dev_power d2 = On \<and> dev_state d2 = dev_state d1" if "rp = Inr ()"
    using events that dev_process_events_off [of d1 e k] wpD_Inr [OF wp_dev_process_events]
    by (cases "dev_power d1 = On") auto
  note spin = spin_run [OF init events]
  have r: "r = Inl (Other x) \<and> d' = d2" if "rp = Inl x \<or> rp = Inr () \<and> ri = Inl x" for x
    using that assms spin by auto
  show ?thesis
  proof (intro exI, rule conjI, rule init)
    have off: "rp = Inl Uninitialized \<and> d2 = d1" if "dev_power d1 \<noteq> On"
      using events dev_process_events_off [OF that, of e k] by simp
    consider x where "rp = Inl x" | x where "rp = Inr ()" "ri = Inl x" | "rp = Inr ()" "ri = Inr ()"
      by (cases rp; cases ri) auto
    then show "case r of
       Inr _ \<Rightarrow> dev_power d' = On \<and> dev_state d' = FullyInitialized \<and> is_connected (dev_network d')
     | Inl WouldBlock \<Rightarrow> dev_power d' = On \<and> dev_state d' = FullyInitialized
         \<and> \<not> is_connected (dev_network d') \<and> net_context (dev_network d') \<noteq> Active
     | Inl (Other x) \<Rightarrow>
         if dev_power d1 \<noteq> On then x = Uninitialized \<and> d' = d1
         else dev_process_events e k d1 = Some (Inl x, d')
           \<or> ri = Inl x \<and> dev_process_events e k d1 = Some (Inr (), d')"
    proof cases
      case 1
      with r off events show ?thesis by simp
    next
      case 2
      with r off events show ?thesis by (cases "dev_power d1 = On") simp_all
    next
      case 3
      with on full have "dev_power d2 = On" "dev_state d2 = FullyInitialized" by simp_all
      note d2 = this
      show ?thesis
      proof (cases "is_connected (dev_network d2)")
        case True
        with 3 d2 assms spin have "r = Inr ()" "d' = d2" by simp_all
        with True d2 show ?thesis by simp
      next
        case False
        with 3 d2 assms spin have r: "r = Inl WouldBlock" and
          d': "d' = (if net_context (dev_network d2) = Active
             then d2\<lparr>dev_network := (dev_network d2)\<lparr>net_context := Activating\<rparr>\<rparr> else d2)" by simp_all
        from False d2 show ?thesis unfolding r d' by (simp add: is_connected_def)
      qed
    qed
  qed
qed

theorem spin_outcome_witness:
  "\<exists>d'. spin (obliging_env Toby_R2 pins) dull_sockets (device_new 0) = Some (Inr (), d')
     \<and> dev_power d' = On \<and> dev_state d' = FullyInitialized \<and> is_connected (dev_network d')"
proof -
  obtain d' where run: "spin (obliging_env Toby_R2 pins) dull_sockets (device_new 0) = Some (Inr (), d')"
    using spin_obliging [OF calm_new [of 0], of pins Toby_R2 dull_sockets]
    by (auto simp: device_new_def)
  from spin_outcome [OF run] run show ?thesis by auto
qed


text \<open>The commands that configure the module, in order, when none fails: those before the SIM
  card, one or two enquiries for it, and those after it; the device is then ready for commands.\<close>

theorem setup_commands_order:
  assumes "setup_commands (logged e) d = Some (Inr (), d')"
  shows "dev_state d' = AtInitialized \<and>
    (\<exists>n. (n = 1 \<or> n = 2) \<and> sent (dev_world d') = sent (dev_world d) @ setup_head e
        @ replicate n (Device_Lock GetPinStatus) @ setup_tail e)"
  using wpD_Inr [OF wp_setup_commands_logged assms]
  by (auto simp: numeral_2_eq_2)

theorem setup_commands_order_witness:
  "\<exists>d'. setup_commands (logged (script_env Toby_R2 pins))
       (device_new (script_start\<lparr>sw_answers := setup_answers\<rparr>, []) :: (script_world \<times> at_req list, unit) device)
     = Some (Inr (), d') \<and> dev_state d' = AtInitialized"
proof -
  let ?e = "logged (script_env Toby_R2 pins)"
  let ?d = "device_new (script_start\<lparr>sw_answers := setup_answers\<rparr>, []) :: (script_world \<times> at_req list, unit) device"
  have "case setup_commands ?e ?d of Some (Inr _, _) \<Rightarrow> True | _ \<Rightarrow> False"
    by code_simp
  then obtain d' where run: "setup_commands ?e ?d = Some (Inr (), d')"
    by (auto split: option.splits sum.splits)
  from setup_commands_order [OF run] run show ?thesis by auto
qed


text \<open>The choice of the SIM card: it succeeds on the first or the second enquiry; after two that
  did not find the SIM ready the radio is cycled and the call says \<open>Busy\<close>, or passes on the error
  of the cycle. Nothing else of the device changes.\<close>

theorem select_sim_card_outcome:
  assumes "select_sim_card (logged e) d = Some (r, d')"
  shows "cmd_frame d d' \<and>
    (\<exists>n qs. (n = 1 \<or> n = 2)
       \<and> sent (dev_world d') = sent (dev_world d) @ replicate n (Device_Lock GetPinStatus) @ qs
       \<and> (case r of
            Inr _ \<Rightarrow> qs = []
          | Inl x \<Rightarrow> n = 2 \<and>
              (qs = [Mobile_Control (SetModuleFunctionality functionality.Minimum (min_reset_mode e)),
                     Mobile_Control (SetModuleFunctionality functionality.Full (Some DontReset))]
               \<or> qs = [Mobile_Control (SetModuleFunctionality functionality.Minimum (min_reset_mode e))]
                  \<and> x \<noteq> Busy)))"
proof -
  let ?P = "Device_Lock GetPinStatus"
  let ?min = "Mobile_Control (SetModuleFunctionality functionality.Minimum (min_reset_mode e))"
  let ?full = "Mobile_Control (SetModuleFunctionality functionality.Full (Some DontReset))"
  have "wp (select_sim_card (logged e))
    (\<lambda>_ d'. cmd_frame d d' \<and> (\<exists>n. (n = 1 \<or> n = 2)
        \<and> sent (dev_world d') = sent (dev_world d) @ replicate n ?P))
    (\<lambda>x d'. cmd_frame d d' \<and> (\<exists>qs. sent (dev_world d') = sent (dev_world d) @ replicate 2 ?P @ qs
        \<and> (qs = [?min, ?full] \<or> qs = [?min] \<and> x \<noteq> Busy))) d"
    unfolding select_sim_card_def wp_bindP
  proof (rule wp_mono [OF wp_sim_attempts_logged])
    fix ready d1
    assume "cmd_frame d d1 \<and> (\<exists>k \<le> 2. (ready \<longrightarrow> 0 < k) \<and> (\<not> ready \<longrightarrow> k = 2)
        \<and> sent (dev_world d1) = sent (dev_world d) @ replicate k ?P)"
    then obtain k where k: "cmd_frame d d1" "k \<le> 2" "ready \<longrightarrow> 0 < k" "\<not> ready \<longrightarrow> k = 2"
      "sent (dev_world d1) = sent (dev_world d) @ replicate k ?P" by auto
    show "wp (if ready then okP () else thenP (dev_rf_reset (logged e)) (errP Busy))
      (\<lambda>_ d'. cmd_frame d d' \<and> (\<exists>n. (n = 1 \<or> n = 2)
          \<and> sent (dev_world d') = sent (dev_world d) @ replicate n ?P))
      (\<lambda>x d'. cmd_frame d d' \<and> (\<exists>qs. sent (dev_world d') = sent (dev_world d) @ replicate 2 ?P @ qs
          \<and> (qs = [?min, ?full] \<or> qs = [?min] \<and> x \<noteq> Busy))) d1"
    proof (cases ready)
      case True
      with k have "k = 1 \<or> k = 2" by auto
      with True k show ?thesis by auto
    next
      case False
      with k show ?thesis
        by (auto intro!: wp_rf_reset_logged intro: cmd_frame.R_trans [OF k(1)])
    qed
  qed simp
  note main = this
  show ?thesis
  proof (cases r)
    case (Inl x)
    from wpD_Inl [OF main assms [unfolded Inl]] Inl show ?thesis by fastforce
  next
    case (Inr u)
    with wpD_Inr [OF main, of "()" d'] assms obtain n where
      "cmd_frame d d'" "n = 1 \<or> n = 2" "sent (dev_world d') = sent (dev_world d) @ replicate n ?P"
      by auto
    with Inr show ?thesis by (intro conjI exI [of _ n] exI [of _ "[]"]) simp_all
  qed
qed

theorem select_sim_card_outcome_witness:
  "\<exists>d'. select_sim_card (logged (script_env Toby_R2 pins))
       (device_new (script_start\<lparr>sw_answers := [Inr (R_Pin_Status Ready)]\<rparr>, [])
         :: (script_world \<times> at_req list, unit) device)
     = Some (Inr (), d') \<and> dev_state d' = State_Off"
proof -
  let ?e = "logged (script_env Toby_R2 pins)"
  let ?d = "device_new (script_start\<lparr>sw_answers := [Inr (R_Pin_Status Ready)]\<rparr>, [])
    :: (script_world \<times> at_req list, unit) device"
  have "case dev_send ?e get_pin_status True ?d of Some (Inr r, _) \<Rightarrow> r = Ready | _ \<Rightarrow> False"
    by code_simp
  then obtain d' where send: "dev_send ?e get_pin_status True ?d = Some (Inr Ready, d')"
    by (auto split: option.splits sum.splits)
  then have run: "select_sim_card ?e ?d = Some (Inr (), d')"
    by (simp add: select_sim_card_def numeral_2_eq_2 bindP_def attempt_def okP_def)
  from select_sim_card_outcome [OF run] run show ?thesis
    by (auto simp: cmd_frame_def device_new_def)
qed


text \<open>A URC for a socket reaches that socket only, keeps the set as it is, and does nothing when
  the socket is not in the set.\<close>

theorem socket_urc_reaches_one_socket:
  "map fst (fst (socket_urc k u socks w)) = map fst socks
   \<and> map_of (fst (socket_urc k u socks w)) h =
      (case u of
         SocketClosed s \<Rightarrow>
           if h = s then map_option (\<lambda>x. fst (sk_closed_by_remote k x w)) (map_of socks h) else map_of socks h
       | SocketDataAvailable s n \<Rightarrow>
           if h = s then map_option (sk_set_available k n) (map_of socks h) else map_of socks h
       | SocketDataAvailableUDP s n \<Rightarrow>
           if h = s then map_option (sk_set_available k n) (map_of socks h) else map_of socks h
       | _ \<Rightarrow> map_of socks h)"
  by (auto simp: socket_urc_def on_socket_def map_of_update_first split: urc.splits option.splits prod.splits)

end
