(* ===== verification/Data_Proofs.thy ===== *)
theory Data_Proofs
  imports Data_Service Device_Proofs
begin

text \<open>
  What holds of \<open>Data_Service\<close>: which commands define and activate the context and in which order,
  that a service that is handed out has an active context on a registered network, that reading for
  the sockets asks for no more than fits, delivers what the module sent and lets no socket disturb
  another.
\<close>

section \<open>Runs\<close>

lemma wp_net_send:
  assumes "\<And>r n'. net_status n' = net_status n \<Longrightarrow> Q r n'"
    and "\<And>x n'. net_status n' = net_status n \<Longrightarrow> E (Data_Network (Err_AT x)) n'"
  shows "wp (net_send e c b) Q E n"
  using assms by (auto simp: net_send_def data_of_network_def intro!: wp_send_internal)

lemma wp_net_cmd:
  assumes "\<And>n'. net_status n' = net_status n \<Longrightarrow> Q () n'"
    and "\<And>x n'. net_status n' = net_status n \<Longrightarrow> E (Data_Network (Err_AT x)) n'"
  shows "wp (net_cmd e c b) Q E n"
  using assms by (simp add: net_cmd_def wp_net_send)

lemma wp_net_send_logged:
  assumes "\<And>r n'. net_status n' = net_status n \<Longrightarrow>
      sent (net_world n') = sent (net_world n) @ [cmd_req c] \<Longrightarrow> Q r n'"
    and "\<And>x n'. net_status n' = net_status n \<Longrightarrow>
      sent (net_world n') = sent (net_world n) @ [cmd_req c] \<Longrightarrow> E (Data_Network (Err_AT x)) n'"
  shows "wp (net_send (logged e) c b) Q E n"
  using assms by (auto simp: net_send_def data_of_network_def intro!: wp_send_internal_logged)

lemma wp_net_cmd_logged:
  assumes "\<And>n'. net_status n' = net_status n \<Longrightarrow>
      sent (net_world n') = sent (net_world n) @ [cmd_req c] \<Longrightarrow> Q () n'"
    and "\<And>x n'. net_status n' = net_status n \<Longrightarrow>
      sent (net_world n') = sent (net_world n) @ [cmd_req c] \<Longrightarrow> E (Data_Network (Err_AT x)) n'"
  shows "wp (net_cmd (logged e) c b) Q E n"
  using assms by (simp add: net_cmd_def wp_net_send_logged)

text \<open>Whenever the module answers the command, it reports \<open>x\<close>.\<close>

definition reports :: "'w env \<Rightarrow> 'r at_cmd \<Rightarrow> 'r \<Rightarrow> bool" where
  "reports e c x \<longleftrightarrow>
     (\<forall>w resp y. fst (send_raw e (cmd_req c) w) = Inr resp \<longrightarrow> cmd_parse c resp = Some y \<longrightarrow> y = x)"

lemma map_sum_Inr [simp]: "map_sum f id x = Inr r \<longleftrightarrow> x = Inr r"
  by (cases x) simp_all

lemma send_internal_reported:
  assumes "reports e c x" "send_internal (logged e) c b n = Some (Inr r, n')"
  shows "r = x"
proof -
  obtain t t' where "at_send (logged e) c t = Some (Inr r, t')"
    using assms(2) by (auto simp: send_internal_def thenP_def bindP_def zoom_def
        split: option.splits sum.splits prod.splits)
  then obtain w w' where "send_retry (logged e) c w = Some (Inr r, w')"
    by (cases "tx_world t") (auto simp: at_send_run split: option.splits sum.splits)
  then obtain resp where "fst (send_raw e (cmd_req c) (fst w)) = Inr resp" "cmd_parse c resp = Some r"
    by (cases w) (auto simp: send_retry_def logged_def split: prod.splits sum.splits option.splits)
  with assms(1) show ?thesis by (auto simp: reports_def)
qed

lemma wp_net_send_reported:
  assumes "reports e c x"
    and "\<And>n'. net_status n' = net_status n \<Longrightarrow>
      sent (net_world n') = sent (net_world n) @ [cmd_req c] \<Longrightarrow> Q x n'"
    and "\<And>y n'. net_status n' = net_status n \<Longrightarrow>
      sent (net_world n') = sent (net_world n) @ [cmd_req c] \<Longrightarrow> E (Data_Network (Err_AT y)) n'"
  shows "wp (net_send (logged e) c b) Q E n"
proof -
  have reported: "r = x" if "net_send (logged e) c b n = Some (Inr r, n')" for r n'
    using that by (auto simp: net_send_def map_errP_def split: option.splits dest: send_internal_reported [OF assms(1)])
  have "wp (net_send (logged e) c b)
      (\<lambda>r n'. net_status n' = net_status n \<and> sent (net_world n') = sent (net_world n) @ [cmd_req c])
      E n"
    using assms(3) by (intro wp_net_send_logged) simp_all
  with assms(2) reported show ?thesis by (auto simp: wp_def split: option.splits sum.splits)
qed

lemma wp_net_wait:
  assumes "\<And>w. Q () (n\<lparr>net_tx := (net_tx n)\<lparr>tx_world := w\<rparr>\<rparr>)"
  shows "wp (net_wait e t) Q E n"
  using assms by (auto simp: net_wait_def intro!: wp_any)

lemma wp_net_wait_logged:
  assumes "\<And>w. sent w = sent (net_world n) \<Longrightarrow> Q () (n\<lparr>net_tx := (net_tx n)\<lparr>tx_world := w\<rparr>\<rparr>)"
  shows "wp (net_wait (logged e) t) Q E n"
proof -
  have timer: "wp (timer_after (logged e) t) (\<lambda>_ w'. sent w' = sent w) (\<lambda>_ w'. sent w' = sent w) w" for w
    by (intro wpI) (auto dest: timer_after_logged)
  show ?thesis
    using assms by (auto simp: net_wait_def intro!: wp_mono [OF timer])
qed

lemma halts_net_send [halting, simp]: "halts (net_send e c b)"
  by (simp add: net_send_def halts_map_errP)

lemma halts_net_cmd [halting, simp]: "halts (net_cmd e c b)"
  by (simp add: net_cmd_def halts_bindP)

lemma halts_net_wait [halting]: "ticking e clk \<Longrightarrow> halts (net_wait e t)"
  unfolding net_wait_def
  by (intro halting haltsI) (metis option.distinct(1) timer_after_returns)

section \<open>Attaching\<close>

lemma wp_attach_logged:
  "wp (attach_attempts (logged e) k)
     (\<lambda>_ n'. net_status n' = net_status n \<and> (\<exists>j. 0 < j \<and> j \<le> k
        \<and> sent (net_world n') = sent (net_world n) @ replicate j (Psn_Context GetGPRSAttached)))
     (\<lambda>x n'. net_status n' = net_status n \<and> (\<exists>j. j \<le> k \<and> (x = WouldBlock \<longrightarrow> j = k)
        \<and> sent (net_world n') = sent (net_world n) @ replicate j (Psn_Context GetGPRSAttached))) n"
proof (induction k arbitrary: n)
  case 0
  show ?case by simp
next
  case (Suc k)
  let ?q = "Psn_Context GetGPRSAttached"
  let ?Q = "\<lambda>_ n'. net_status n' = net_status n \<and> (\<exists>j. 0 < j \<and> j \<le> Suc k
        \<and> sent (net_world n') = sent (net_world n) @ replicate j ?q)"
  let ?E = "\<lambda>x n'. net_status n' = net_status n \<and> (\<exists>j. j \<le> Suc k \<and> (x = WouldBlock \<longrightarrow> j = Suc k)
        \<and> sent (net_world n') = sent (net_world n) @ replicate j ?q)"
  have more: "wp (thenP (net_wait (logged e) t) (attach_attempts (logged e) k)) ?Q ?E m"
    if m: "net_status m = net_status n" "sent (net_world m) = sent (net_world n) @ [?q]" for m :: "('a \<times> at_req list) network" and t
    unfolding wp_thenP
  proof (rule wp_net_wait_logged)
    fix w :: "'a \<times> at_req list" assume w: "sent w = sent (net_world m)"
    show "wp (attach_attempts (logged e) k) ?Q ?E (m\<lparr>net_tx := (net_tx m)\<lparr>tx_world := w\<rparr>\<rparr>)"
    proof (rule wp_mono [OF Suc.IH], goal_cases)
      case (1 u n')
      then obtain j where "net_status n' = net_status m" "0 < j" "j \<le> k"
        "sent (net_world n') = sent (net_world m) @ replicate j ?q" using w by auto
      with m show ?case by (intro conjI exI [of _ "Suc j"]) auto
    next
      case (2 x n')
      then obtain j where "net_status n' = net_status m" "j \<le> k" "x = WouldBlock \<longrightarrow> j = k"
        "sent (net_world n') = sent (net_world m) @ replicate j ?q" using w by auto
      with m show ?case by (intro conjI exI [of _ "Suc j"]) auto
    qed
  qed
  show ?case
    by (auto intro!: wp_net_send_logged more [unfolded wp_thenP] exI [of _ "Suc 0"])
qed


text \<open>
  What a relation of the network is kept by when it is kept by every contact with the outside, by a
  wait and by a change of the context: defining and activating a context, whose requests are those of
  \<open>context_request\<close>.
\<close>

fun context_request :: "at_req \<Rightarrow> bool" where
  "context_request (Mobile_Control _) \<longleftrightarrow> True"
| "context_request (Psn_Context _) \<longleftrightarrow> True"
| "context_request _ \<longleftrightarrow> False"

locale context_relation = net_relation R e allowed
  for R :: "'w network \<Rightarrow> 'w network \<Rightarrow> bool" and e :: "'w env" and allowed :: "at_req \<Rightarrow> bool" +
  assumes R_wait: "keeps R (net_wait e t :: ('w network, data_error nb, unit) prog)"
    and R_context: "R n (n\<lparr>net_context := c\<rparr>)"
    and allowed_context: "context_request q \<Longrightarrow> allowed q"
begin

lemma net_send: "allowed (cmd_req c) \<Longrightarrow> keeps R (net_send e c b)"
  unfolding net_send_def by (intro net_rules)

lemma net_cmd: "allowed (cmd_req c) \<Longrightarrow> keeps R (net_cmd e c b)"
  unfolding net_cmd_def by (intro net_rules net_send)

lemma context_send:
  "context_request (cmd_req c) \<Longrightarrow> keeps R (net_send e c b)"
  "context_request (cmd_req c) \<Longrightarrow> keeps R (net_cmd e c b)"
  by (intro net_send net_cmd allowed_context; assumption)+

lemma put_ctx: "keeps R (put_context c)"
  by (rule modifyP) (rule R_context)

lemmas context_rules = net_rules R_wait context_send put_ctx

lemma attach: "keeps R (attach_network e)"
proof -
  have "keeps R (attach_attempts e k)" for k
  proof (induction k)
    case 0
    show ?case by (simp add: errP)
  next
    case (Suc k)
    then show ?case unfolding attach_attempts.simps by (intro context_rules) simp_all
  qed
  then show ?thesis by (simp add: attach_network_def)
qed

lemma config: "keeps R (set_config e p x)"
proof (rule keepsI)
  fix n r n'
  assume "set_config e p x n = Some (r, n')"
  then have "net_cmd e (plain (Psn_Context (SetPacketSwitchedConfig p x))) True n = Some (r, n')"
    by (simp add: set_config_def split: if_splits)
  then show "R n n'" by (rule keepsD [OF context_send(2), rotated]) simp
qed

lemma configs: "keeps R (set_configs e p xs)"
  by (induction xs) (simp_all add: okP thenP config)

lemma profile: "keeps R (activate_profile e cid p)"
  unfolding activate_profile_def
  by (intro context_rules) (auto intro!: context_rules split: packet_switched_param.split)

lemma connect: "keeps R (service_connect e info)"
  unfolding service_connect_def activate_context_def activate_context_upsd_def
  by (intro context_rules)
    (auto intro!: context_rules attach configs profile split: context_state.split)

lemma define_ctx: "keeps R (define_context e cid info)"
  unfolding define_context_def
  by (intro context_rules) (auto intro!: context_rules split: apn.split)

end

text \<open>Commands and waits leave the registration alone.\<close>

definition status_kept :: "'w network \<Rightarrow> 'w network \<Rightarrow> bool" where
  "status_kept n n' \<longleftrightarrow> net_status n' = net_status n"

interpretation status_kept: context_relation status_kept e "\<lambda>_. True" for e
proof
  show "keeps status_kept (net_wait e t :: ('a network, data_error nb, unit) prog)" for t
    by (auto simp: keeps_def net_wait_def bindP_def attempt_def okP_def zoom_def status_kept_def
        split: option.splits sum.splits)
qed (auto simp: status_kept_def)

lemmas status_kept_send = status_kept.net_send [OF TrueI]

lemmas status_kept_cmd = status_kept.net_cmd [OF TrueI]

lemmas status_kept_connect = status_kept.connect

lemmas status_kept_define = status_kept.define_ctx

lemmas status_rules = status_kept.net_rules status_kept_send status_kept_cmd

text \<open>They send what belongs to a context only.\<close>

lemma sends_only_context:
  assumes "{q. context_request q} \<subseteq> Q"
  shows "context_relation (sends_only Q) (logged e) (\<lambda>q. q \<in> Q)"
proof
  show "keeps (sends_only Q) (net_wait (logged e) t :: (('a \<times> at_req list) network, data_error nb, unit) prog)" for t
  proof (rule keepsI)
    fix n n' :: "('a \<times> at_req list) network" and r :: "data_error nb + unit"
    assume run: "net_wait (logged e) t n = Some (r, n')"
    have "wp (net_wait (logged e) t :: (('a \<times> at_req list) network, data_error nb, unit) prog)
        (\<lambda>_. sends_only Q n) (\<lambda>_ _. False) n"
      by (rule wp_net_wait_logged) (simp add: sends_only_def)
    with run show "sends_only Q n n'" by (cases r) (simp_all add: wp_def)
  qed
qed (use assms in \<open>auto simp: sends_only_def\<close>)

section \<open>The context\<close>

text \<open>What the last step of a sequence establishes, whatever comes before it.\<close>

lemma wp_last:
  assumes "\<And>a t. wp (f a) Q (\<lambda>_ _. True) t"
  shows "wp (bindP m f) Q (\<lambda>_ _. True) s" "wp (thenP m (f a)) Q (\<lambda>_ _. True) s"
    "wp (map_errP g (f a)) Q (\<lambda>_ _. True) s"
  unfolding wp_bindP wp_thenP wp_map_errP
  by (rule wp_any; rule assms TrueI)+ (rule assms)

lemma wp_activate:
  "wp (activate_context_upsd e p info) (\<lambda>_ n'. net_context n' = Active) (\<lambda>_ _. True) n"
  "wp (activate_context e cid p) (\<lambda>_ n'. net_context n' = Active) (\<lambda>_ _. True) n"
proof -
  have fin: "wp (thenP m (put_context Active)) (\<lambda>_ n'. net_context n' = Active) (\<lambda>_ _. True) n"
    for m :: "('a network, 'e, unit) prog" and n
    by (rule wp_last) simp
  have block: "wp (thenP m (errP x)) Q (\<lambda>_ _. True) n"
    for m :: "('a network, 'e, unit) prog" and n x Q
    by (rule wp_last) simp
  have guard: "wp (bindP (getsP net_context) (\<lambda>c. if c = Active then okP () else m))
      (\<lambda>_ n'. net_context n' = Active) (\<lambda>_ _. True) n"
    if "wp m (\<lambda>_ n'. net_context n' = Active) (\<lambda>_ _. True) n"
    for m :: "('a network, 'e, unit) prog" and n
    using that by simp
  show "wp (activate_context_upsd e p info) (\<lambda>_ n'. net_context n' = Active) (\<lambda>_ _. True) n"
    unfolding activate_context_upsd_def by (intro guard wp_last(3) wp_last(1) fin)
  show "wp (activate_context e cid p) (\<lambda>_ n'. net_context n' = Active) (\<lambda>_ _. True) n"
    unfolding activate_context_def by (intro guard wp_last(1)) (simp add: fin block del: wp_thenP)
qed

lemma wp_service_connect:
  "wp (service_connect e info)
    (\<lambda>_ n'. net_context n' = Active \<and> net_status n' = net_status n) (\<lambda>_ n'. net_status n' = net_status n) n"
proof -
  have activated: "wp (if upsd_context_activation (variant e) then activate_context_upsd e PROFILE_ID info
      else activate_context e CONTEXT_ID PROFILE_ID)
      (\<lambda>_ n'. net_context n' = Active) (\<lambda>_ _. True) t" for t
    by (simp add: wp_activate)
  have "wp (service_connect e info) (\<lambda>_ n'. net_context n' = Active) (\<lambda>_ _. True) n"
    unfolding service_connect_def
    by (cases "net_context n") (simp_all add: wp_last(2) [OF activated] del: wp_thenP)
  moreover have "wp (service_connect e info) (\<lambda>_. status_kept n) (\<lambda>_. status_kept n) n"
    by (rule keeps_wp [OF status_kept_connect])
  ultimately show ?thesis
    by (auto simp: wp_def status_kept_def split: option.splits sum.splits)
qed


section \<open>Reading for the sockets\<close>

text \<open>Reading leaves the registration and the context alone: it handles no URC.\<close>

definition quiet :: "'s \<times> 'w network \<Rightarrow> 's \<times> 'w network \<Rightarrow> bool" where
  "quiet x y \<longleftrightarrow> net_status (snd y) = net_status (snd x) \<and> net_context (snd y) = net_context (snd x)"

interpretation quiet: step_relation quiet
  by unfold_locales (auto simp: quiet_def)

lemma quiet_send: "keeps quiet (beside_sock (net_send e c False))"
proof -
  have "send_internal e c False = on_tx (at_send e c)"
    by (rule ext) (simp add: send_internal_def thenP_def whenP_def)
  then show ?thesis
    by (auto simp: keeps_def zoom_def net_send_def map_errP_def quiet_def split: option.splits)
qed

lemma beside_bindP: "beside_sock (bindP m f) = bindP (beside_sock m) (\<lambda>a. beside_sock (f a))"
  by (rule ext) (auto simp: zoom_def bindP_def split: option.splits sum.splits prod.splits)

lemma quiet_request: "keeps quiet (beside_sock (request_data e ty h n))"
proof -
  have "keeps quiet (beside_sock (okP a))" "keeps quiet (beside_sock (errP x))" for a x
    by (auto simp: keeps_def zoom_def okP_def errP_def quiet_def)
  then show ?thesis
    by (cases ty) (auto simp: request_data_def beside_bindP intro!: quiet.bindP quiet_send)
qed

lemma quiet_sock [simp]:
  "keeps quiet (on_sock f)" "keeps quiet (sock_should_update k)" "keeps quiet (sock_closed_by_remote k)"
  by (auto simp: keeps_def modifyP_def sock_should_update_def sock_closed_by_remote_def quiet_def
      split: prod.splits)

lemma quiet_take: "keeps quiet (take_data k len d)"
  by (auto simp: take_data_def Let_def quiet.okP quiet.errP split: option.split sum.split)

lemma quiet_ingress: "keeps quiet (ingress_socket e k h)"
  unfolding ingress_socket_def Let_def
  by (intro quiet.rules quiet_sock quiet_send)
    (auto intro!: quiet.rules quiet_request quiet_take simp: quiet_def split: prod.split sum.split)

lemma ingress_loop_frame:
  assumes "ingress_loop e k socks n = Some (socks', n')"
  shows "map fst socks' = map fst socks \<and> net_status n' = net_status n \<and> net_context n' = net_context n"
  using assms
proof (induction e k socks n arbitrary: socks' n' rule: ingress_loop.induct)
  case (2 e k h s socks n)
  obtain r s1 n1 where one: "ingress_socket e k h (s, n) = Some (r, s1, n1)"
    using 2(2) by (simp split: option.splits) (metis surj_pair)
  obtain socks1 where rest: "ingress_loop e k socks n1 = Some (socks1, n')"
    and socks': "socks' = (h, s1) # socks1"
    using 2(2) one by (auto split: option.splits)
  from one have "quiet (s, n) (s1, n1)" by (rule keepsD [OF quiet_ingress])
  with 2(1) [OF one refl refl rest] socks' show ?case by (simp add: quiet_def)
qed simp

lemma halts_take_data [halting, simp]: "halts (take_data k len d)"
  by (auto simp: take_data_def Let_def split: option.split sum.split)

lemma halts_ingress_socket [halting, simp]: "halts (ingress_socket e k h)"
proof -
  have "halts (sock_should_update k)" "halts (sock_closed_by_remote k)"
    by (auto simp: halts_def sock_should_update_def sock_closed_by_remote_def split: prod.split)
  then show ?thesis
    by (auto simp: ingress_socket_def Let_def request_data_def
        intro!: halts_bindP halts_whenP halts_attempt halts_zoom halts_thenP halts_if
        split: socket_type.split prod.split sum.split)
qed

lemma ingress_loop_returns: "\<exists>socks' n'. ingress_loop e k socks n = Some (socks', n')"
proof (induction e k socks n rule: ingress_loop.induct)
  case (2 e k h s socks n)
  obtain r s1 n1 where "ingress_socket e k h (s, n) = Some (r, s1, n1)"
    using haltsD [OF halts_ingress_socket [of e k h], of "(s, n)"] by auto
  with 2 show ?case by fastforce
qed simp

lemma wp_try_new:
  "wp (try_new e k info)
    (\<lambda>_ s'. net_context (ds_network s') = Active \<and> net_status (ds_network s') = net_status (ds_network s))
    (\<lambda>_ _. True) s"
proof -
  have read: "wp (socket_ingress_all e k) (\<lambda>_ s'. net_context (ds_network s') = net_context (ds_network t)
      \<and> net_status (ds_network s') = net_status (ds_network t)) (\<lambda>_ _. True) t" for t
    by (auto simp: wp_def socket_ingress_all_def dest: ingress_loop_frame split: option.split)
  show ?thesis
    by (auto simp: try_new_def on_ds_net_def whenP_def intro!: wp_mono [OF wp_service_connect] wp_mono [OF read])
qed


section \<open>The order of the commands\<close>

lemma logged_params [simp]: "upsd_params (logged e) info = upsd_params e info"
  by (simp add: upsd_params_def)

lemma logged_reset_mode [simp]: "min_reset_mode (logged e) = min_reset_mode e"
  by (simp add: min_reset_mode_def)

abbreviation config_req :: "profile_id \<Rightarrow> packet_switched_param \<Rightarrow> at_req" where
  "config_req p x \<equiv> Psn_Context (SetPacketSwitchedConfig p x)"

lemma wp_set_configs_logged:
  "wp (set_configs (logged e) p xs)
    (\<lambda>_ n'. sent (net_world n') = sent (net_world n) @ map (config_req p) xs)
    (\<lambda>_ n'. \<exists>j. sent (net_world n') = sent (net_world n) @ take j (map (config_req p) xs)) n"
proof (induction xs arbitrary: n)
  case Nil
  show ?case by simp
next
  case (Cons x xs)
  have one: "wp (set_config (logged e) p x)
      (\<lambda>_ n'. sent (net_world n') = sent (net_world n) @ [config_req p x])
      (\<lambda>_ n'. sent (net_world n') = sent (net_world n) @ [config_req p x]) n"
  proof (cases "param_fits x")
    case True
    have "wp (net_cmd (logged e) (plain (config_req p x)) True)
      (\<lambda>_ n'. sent (net_world n') = sent (net_world n) @ [config_req p x])
      (\<lambda>_ n'. sent (net_world n') = sent (net_world n) @ [config_req p x]) n"
      by (auto intro!: wp_net_cmd_logged)
    with True show ?thesis by (simp add: wp_def set_config_def)
  next
    case False
    then show ?thesis by (simp add: wp_def set_config_def)
  qed
  show ?case
    unfolding set_configs.simps wp_thenP
  proof (rule wp_mono [OF one], goal_cases)
    case (1 u n1)
    show ?case
    proof (rule wp_mono [OF Cons.IH], goal_cases)
      case (2 x' n2)
      then obtain j where "sent (net_world n2) = sent (net_world n1) @ take j (map (config_req p) xs)"
        by blast
      with 1 show ?case by (intro exI [of _ "Suc j"]) simp
    qed (use 1 in simp)
  next
    case (2 x' n1)
    then show ?case by (intro exI [of _ "Suc 0"]) simp
  qed
qed

text \<open>What \<open>activate_context_upsd\<close> sends to a profile that is not active.\<close>

definition upsd_sequence :: "'w env \<Rightarrow> profile_id \<Rightarrow> apn_info \<Rightarrow> at_req list" where
  "upsd_sequence e p info = map (config_req p) (upsd_params e info)
     @ [Psn_Context (SetPacketSwitchedAction p packet_switched_action.Activate)]"

abbreviation profile_query :: "profile_id \<Rightarrow> at_req" where
  "profile_query p \<equiv> Psn_Context (GetPacketSwitchedNetworkData p
     packet_switched_network_data_param.PsdProfileStatus)"

text \<open>The first of a list of commands.\<close>

lemma initial: "\<exists>rest. seq = qs @ rest \<Longrightarrow> \<exists>j. qs = take j seq"
  by (auto intro: exI [of _ "length qs"])

text \<open>All of \<open>activate_context_upsd\<close>, given the status the module reports of the profile.\<close>

definition upsd_commands :: "'w env \<Rightarrow> profile_id \<Rightarrow> apn_info \<Rightarrow> packet_switched_network_data \<Rightarrow> at_req list" where
  "upsd_commands e p info status =
     profile_query p # (if psnd_param_tag status = 0 then upsd_sequence e p info else [])"

lemma wp_upsd_logged:
  assumes "net_context n \<noteq> Active"
    and "reports e (get_packet_switched_network_data p packet_switched_network_data_param.PsdProfileStatus) status"
  shows "wp (activate_context_upsd (logged e) p info)
    (\<lambda>_ n'. sent (net_world n') = sent (net_world n) @ upsd_commands e p info status)
    (\<lambda>_ n'. \<exists>j. sent (net_world n') = sent (net_world n) @ take j (upsd_commands e p info status)) n"
proof -
  have configure: "wp (set_configs (logged e) p (upsd_params e info))
      (\<lambda>_. wp (net_cmd (logged e) (plain (Psn_Context (SetPacketSwitchedAction p packet_switched_action.Activate))) True)
        (\<lambda>_ n'. sent (net_world n') = sent (net_world n) @ profile_query p # upsd_sequence e p info)
        (\<lambda>_ n'. \<exists>j. sent (net_world n') = sent (net_world n) @ take j (profile_query p # upsd_sequence e p info)))
      (\<lambda>_ n'. \<exists>j. sent (net_world n') = sent (net_world n) @ take j (profile_query p # upsd_sequence e p info)) m"
    if m: "sent (net_world m) = sent (net_world n) @ [profile_query p]" for m
  proof (rule wp_mono [OF wp_set_configs_logged], goal_cases)
    case (1 u m1)
    then show ?case
      by (intro wp_net_cmd_logged) (auto simp: m upsd_sequence_def intro!: exI [of _ "Suc (Suc (length (upsd_params e info)))"])
  next
    case (2 x m1)
    then obtain j where "sent (net_world m1) = sent (net_world m) @ take j (map (config_req p) (upsd_params e info))"
      by blast
    then show ?case
      by (intro exI [of _ "Suc (min j (length (upsd_params e info)))"])
        (auto simp: m upsd_sequence_def take_map min_def)
  qed
  show ?thesis
    using assms(1)
    by (auto simp: activate_context_upsd_def whenP_def upsd_commands_def
        intro!: wp_net_send_reported [OF assms(2)] wp_mono [OF configure] initial)
      (erule wp_mono; force)
qed

text \<open>What \<open>activate_context\<close> sends to the profile of an active context: \<open>remap\<close> when the profile is
  mapped to another context, \<open>activate\<close> when it is not active.\<close>

definition profile_sequence :: "context_id \<Rightarrow> profile_id \<Rightarrow> bool \<Rightarrow> bool \<Rightarrow> at_req list" where
  "profile_sequence cid p remap activate =
     [Psn_Context (GetPacketSwitchedConfig p packet_switched_param_req.MapProfile)]
     @ (if remap then [config_req p (packet_switched_param.MapProfile cid), profile_query p] else [])
     @ [profile_query p]
     @ (if activate then [Psn_Context (SetPacketSwitchedAction p packet_switched_action.Activate)] else [])"

definition mapped_elsewhere :: "context_id \<Rightarrow> packet_switched_config \<Rightarrow> bool" where
  "mapped_elsewhere cid cf \<longleftrightarrow> (\<exists>other. psc_param cf = packet_switched_param.MapProfile other \<and> other \<noteq> cid)"

lemma wp_profile_logged:
  assumes "reports e (get_packet_switched_config p packet_switched_param_req.MapProfile) cf"
    and "reports e (get_packet_switched_network_data p packet_switched_network_data_param.PsdProfileStatus) status"
  shows "wp (activate_profile (logged e) cid p)
    (\<lambda>_ n'. sent (net_world n') = sent (net_world n)
        @ profile_sequence cid p (mapped_elsewhere cid cf) (psnd_param_tag status = 0))
    (\<lambda>_ n'. \<exists>j. sent (net_world n') = sent (net_world n)
        @ take j (profile_sequence cid p (mapped_elsewhere cid cf) (psnd_param_tag status = 0))) n"
proof -
  have skip: "(case psc_param cf of packet_switched_param.MapProfile ctx \<Rightarrow> whenP (ctx \<noteq> cid) (f ctx)
        | _ \<Rightarrow> okP ()) = okP ()" if "\<not> mapped_elsewhere cid cf"
      for f :: "context_id \<Rightarrow> (('a \<times> at_req list) network, data_error, unit) prog"
    using that by (cases "psc_param cf") (auto simp: mapped_elsewhere_def whenP_def)
  show ?thesis
    unfolding activate_profile_def wp_bindP wp_thenP
  proof (rule wp_net_send_reported [OF assms(1)], goal_cases)
    case (1 n1)
    show ?case
    proof (cases "mapped_elsewhere cid cf")
      case True
      with 1 show ?thesis
        by (auto simp: mapped_elsewhere_def whenP_def profile_sequence_def
            intro!: wp_net_cmd_logged wp_net_send_reported [OF assms(2)] initial)
    next
      case False
      show ?thesis
        unfolding skip [OF False] wp_okP
        using 1 False
        by (auto simp: whenP_def profile_sequence_def
            intro!: wp_net_cmd_logged wp_net_send_reported [OF assms(2)] initial)
    qed
  next
    case (2 x n1)
    then show ?case by (auto simp: profile_sequence_def intro!: initial)
  qed
qed

text \<open>What \<open>define_context\<close> sends when the context is to be set up.\<close>

definition define_sequence :: "'w env \<Rightarrow> context_id \<Rightarrow> apn_info \<Rightarrow> at_req list" where
  "define_sequence e cid info =
     [Mobile_Control (SetModuleFunctionality functionality.Minimum (min_reset_mode e))]
     @ (case api_apn info of
          Given a \<Rightarrow> [Psn_Context (SetPDPContextDefinition cid ''IP'' a)]
        | apn.Automatic \<Rightarrow> [])
     @ [Mobile_Control (SetModuleFunctionality functionality.Full (Some DontReset))]"

lemma wp_define_logged:
  assumes "net_context n = Setup"
  shows "wp (define_context (logged e) cid info)
    (\<lambda>_ n'. sent (net_world n') = sent (net_world n) @ define_sequence e cid info
        \<and> net_context n' = Activating)
    (\<lambda>_ n'. \<exists>j. sent (net_world n') = sent (net_world n) @ take j (define_sequence e cid info)) n"
proof (cases "api_apn info")
  case (Given a)
  with assms show ?thesis
    by (auto simp: define_context_def define_sequence_def intro!: wp_net_cmd_logged)
      (auto intro: exI [of _ 1] exI [of _ 2] exI [of _ 3])
next
  case Automatic
  with assms show ?thesis
    by (auto simp: define_context_def define_sequence_def intro!: wp_net_cmd_logged)
      (auto intro: exI [of _ 1] exI [of _ 2])
qed


text \<open>All of \<open>activate_context\<close>, given what the module reports of the contexts and of the profile.\<close>

definition reported_active :: "context_id \<Rightarrow> pdp_context_state list \<Rightarrow> bool" where
  "reported_active cid states \<longleftrightarrow>
     map_of (map (\<lambda>s. (pcs_cid s, pcs_status s)) states) cid = Some pdp_context_status.Activated"

definition context_commands ::
    "'w env \<Rightarrow> context_id \<Rightarrow> profile_id \<Rightarrow> pdp_context_state list \<Rightarrow> packet_switched_config
     \<Rightarrow> packet_switched_network_data \<Rightarrow> at_req list" where
  "context_commands e cid p states cf status =
     Psn_Context GetPDPContextState #
     (if \<not> reported_active cid states then
        [Psn_Context (SetPDPContextState pdp_context_status.Activated (Some cid))]
      else if variant e = Lara_R6 then []
      else profile_sequence cid p (mapped_elsewhere cid cf) (psnd_param_tag status = 0))"

lemma context_activated_reported: "context_activated cid states = reported_active cid states"
  by (induction states) (auto simp: context_activated_def reported_active_def)

lemma wp_context_logged:
  assumes "net_context n \<noteq> Active"
    and "reports e get_pdp_context_state states"
    and "reports e (get_packet_switched_config p packet_switched_param_req.MapProfile) cf"
    and "reports e (get_packet_switched_network_data p packet_switched_network_data_param.PsdProfileStatus) status"
  shows "wp (activate_context (logged e) cid p)
    (\<lambda>_ n'. reported_active cid states
        \<and> sent (net_world n') = sent (net_world n) @ context_commands e cid p states cf status)
    (\<lambda>x n'. if x = WouldBlock
       then \<not> reported_active cid states
        \<and> sent (net_world n') = sent (net_world n) @ context_commands e cid p states cf status
       else \<exists>j. sent (net_world n') = sent (net_world n) @ take j (context_commands e cid p states cf status)) n"
proof -
  have profile: "wp (activate_profile (logged e) cid p)
    (\<lambda>_ n'. sent (net_world n') = sent (net_world n) @ Psn_Context GetPDPContextState #
          profile_sequence cid p (mapped_elsewhere cid cf) (psnd_param_tag status = 0))
    (\<lambda>_ n'. \<exists>j. sent (net_world n') = sent (net_world n) @ take j (Psn_Context GetPDPContextState #
          profile_sequence cid p (mapped_elsewhere cid cf) (psnd_param_tag status = 0))) m"
    if "sent (net_world m) = sent (net_world n) @ [Psn_Context GetPDPContextState]" for m
    by (rule wp_mono [OF wp_profile_logged [OF assms(3,4)]]) (auto simp: that intro: exI [of _ "Suc _"])
  show ?thesis
    using assms(1)
    by (auto simp: activate_context_def context_activated_reported context_commands_def whenP_def
        intro!: wp_net_send_reported [OF assms(2)] wp_net_cmd_logged wp_mono [OF profile] initial)
qed

section \<open>Bounds\<close>

lemma logged_sockets_simps [simp]:
  "sk_set_available (logged_sockets k) = sk_set_available k"
  "sk_available (logged_sockets k) = sk_available k"
  "sk_can_recv (logged_sockets k) = sk_can_recv k"
  "sk_rx_window (logged_sockets k) = sk_rx_window k"
  "sk_type (logged_sockets k) = sk_type k"
  "sk_rx_enqueue (logged_sockets k) = sk_rx_enqueue k"
  by (simp_all add: logged_sockets_def)

lemma wp_sock_clock_logged:
  assumes "\<And>b s' n'. sent (net_world n') = sent (net_world n) \<Longrightarrow> Q b (s', n')"
  shows "wp (sock_should_update (logged_sockets k)) Q E (s, n)"
  using assms
  by (simp add: wp_def sock_should_update_def logged_sockets_def split: prod.split)

lemma wp_sock_closed_logged:
  assumes "\<And>s' n'. sent (net_world n') = sent (net_world n) \<Longrightarrow> Q () (s', n')"
  shows "wp (sock_closed_by_remote (logged_sockets k)) Q E (s, n)"
  using assms
  by (simp add: wp_def sock_closed_by_remote_def logged_sockets_def split: prod.split)

lemma wp_take_data:
  assumes "\<And>r s'. Q r (s', n)" "\<And>x. E x (s, n)"
  shows "wp (take_data k len d) Q E (s, n)"
  using assms by (auto simp: take_data_def Let_def split: option.split sum.split)

text \<open>The requests \<open>ingress_socket\<close> may send to a socket: an empty one to learn what is available, or
  one for as much as is available, fits into a response and fits into the buffer.\<close>

definition data_request :: "('w, 's) socket_api \<Rightarrow> socket_handle \<Rightarrow> 's \<Rightarrow> at_req" where
  "data_request k h s =
     (let len = min (min (sk_available k s) INGRESS_CHUNK_SIZE) (sk_rx_window k s) in
      Socket_Data (if sk_type k s = Udp \<and> 0 < sk_available k s then ReadUDPSocketData h len
                   else ReadSocketData h len))"

lemma wp_ingress_logged:
  "wp (ingress_socket (logged e) (logged_sockets k) h)
    (\<lambda>_ (s', n'). sent (net_world n') \<in> {sent (net_world n), sent (net_world n) @ [data_request k h s]})
    (\<lambda>_ (s', n'). sent (net_world n') \<in> {sent (net_world n), sent (net_world n) @ [data_request k h s]}) (s, n)"
  by (cases "sk_type k s")
    (auto simp: ingress_socket_def request_data_def data_request_def Let_def whenP_def
      intro!: wp_sock_clock_logged wp_net_send_logged wp_sock_closed_logged wp_take_data)


text \<open>What is asked for a socket: if the module has data for it and its buffer has room, the data; if the module
  is not known to have any, at most how much there is.\<close>

definition due :: "('w, 's) socket_api \<Rightarrow> socket_handle \<Rightarrow> 's \<Rightarrow> at_req list \<Rightarrow> bool" where
  "due k h s qs \<longleftrightarrow>
     (if 0 < sk_available k s then
        qs = (if sk_can_recv k s \<and> sk_type k s \<noteq> Other_Type then [data_request k h s] else [])
      else qs \<in> {[], [Socket_Data (ReadSocketData h 0)]})"

lemma ingress_due:
  assumes "ingress_socket (logged e) (logged_sockets k) h (s, n) = Some (r, s', n')"
  shows "\<exists>qs. sent (net_world n') = sent (net_world n) @ qs \<and> due k h s qs"
proof -
  let ?P = "\<lambda>_ (s', n'). \<exists>qs. sent (net_world n') = sent (net_world n) @ qs \<and> due k h s qs"
  have "wp (ingress_socket (logged e) (logged_sockets k) h) ?P ?P (s, n)"
    by (cases "sk_type k s")
      (auto simp: ingress_socket_def request_data_def data_request_def Let_def whenP_def due_def
        intro!: wp_sock_clock_logged wp_net_send_logged wp_sock_closed_logged wp_take_data)
  with assms show ?thesis by (cases r) (auto simp: wp_def)
qed

lemma ingress_loop_due:
  assumes "ingress_loop (logged e) (logged_sockets k) socks n = Some (socks', n')"
  shows "\<exists>reqs. sent (net_world n') = sent (net_world n) @ concat reqs \<and> list_all2 (\<lambda>(h, s). due k h s) socks reqs"
  using assms
proof (induction socks arbitrary: n socks')
  case Nil
  then show ?case by (intro exI [of _ "[]"]) simp
next
  case (Cons x socks)
  obtain h s where x: "x = (h, s)" by fastforce
  obtain r s1 n1 where one: "ingress_socket (logged e) (logged_sockets k) h (s, n) = Some (r, s1, n1)"
    using haltsD [OF halts_ingress_socket [of "logged e" "logged_sockets k" h], of "(s, n)"] by auto
  obtain socks1 where rest: "ingress_loop (logged e) (logged_sockets k) socks n1 = Some (socks1, n')"
    using Cons.prems one x by (auto split: option.splits)
  obtain qs where "sent (net_world n1) = sent (net_world n) @ qs" "due k h s qs" using ingress_due [OF one] by blast
  moreover obtain reqs where "sent (net_world n') = sent (net_world n1) @ concat reqs"
    "list_all2 (\<lambda>(h, s). due k h s) socks reqs" using Cons.IH [OF rest] by blast
  ultimately show ?case by (intro exI [of _ "qs # reqs"]) (simp add: x)
qed

lemma logged_ticking: "ticking e clk \<Longrightarrow> ticking (logged e) (clk \<circ> fst)"
  by (auto simp: ticking_def logged_def split: prod.split) (metis fst_conv, metis snd_conv)

lemma halts_attach: "ticking e clk \<Longrightarrow> halts (attach_network e)"
proof -
  assume "ticking e clk"
  then have "halts (attach_attempts e k)" for k
  proof (induction k)
    case (Suc k)
    with \<open>ticking e clk\<close> show ?case
      unfolding attach_attempts.simps
      by (intro halts_bindP halts_map_errP halts_net_send halts_if halts_okP halts_thenP)
        (rule halts_net_wait)
  qed simp
  then show ?thesis by (simp add: attach_network_def)
qed

section \<open>A service that is handed out\<close>

lemma wp_spin:
  "wp (spin e k) (\<lambda>_ d'. dev_power d' = On \<and> dev_state d' = FullyInitialized
      \<and> is_connected (dev_network d')) (\<lambda>_ _. True) d"
proof -
  have init: "wp (initialize e k) (\<lambda>_ d1. dev_state d1 = FullyInitialized) (\<lambda>_ _. True) d"
  proof (cases "dev_power d = On \<and> dev_state d = FullyInitialized")
    case True
    then show ?thesis by (simp add: wp_def initialize_done)
  next
    case False
    then show ?thesis by (rule wp_mono [OF wp_initialize]) simp_all
  qed
  have events: "wp (dev_process_events e k)
      (\<lambda>_ d2. dev_state d2 = dev_state d1 \<and> dev_power d2 = On) (\<lambda>_ _. True) d1" for d1
  proof (cases "dev_power d1 = On")
    case True
    show ?thesis by (rule wp_mono [OF wp_dev_process_events [OF True]]) simp_all
  next
    case False
    then show ?thesis by (simp add: wp_def dev_process_events_off)
  qed
  have fails: "wp (thenP m (errP x)) Q (\<lambda>_ _. True) d1"
    for m :: "(('a, 'b) device, 'e, unit) prog" and x Q and d1 :: "('a, 'b) device"
    by (rule wp_last) simp
  show ?thesis
    unfolding spin_def wp_bindP [of "attempt m" for m] wp_attempt
    by (rule wp_mono [OF init])
      (auto intro!: wp_mono [OF events] fails [unfolded wp_thenP] wp_any [where m = "errP x" for x])
qed

lemma wp_data_service:
  "wp (data_service e k info)
    (\<lambda>_ d'. (dev_power d' = On \<and> dev_state d' = FullyInitialized \<and> is_connected (dev_network d'))
       \<and> net_context (dev_network d') = Active) (\<lambda>_ _. True) d"
proof -
  let ?up = "\<lambda>d. dev_power d = On \<and> dev_state d = FullyInitialized \<and> is_connected (dev_network d)"
  have define_ctx: "wp (define_device_context e info) (\<lambda>_. ?up) (\<lambda>_ _. True) d1" if "?up d1" for d1
    using that keeps_wp [OF status_kept_define, of e CONTEXT_ID info "dev_network d1"]
    by (auto simp: define_device_context_def whenP_def wp_on_net is_connected_def status_kept_def
        elim!: wp_mono)
  have serve: "wp (on_service (try_new e k info)) (\<lambda>_ d2. ?up d2 \<and> net_context (dev_network d2) = Active)
      (\<lambda>_ _. True) d1" if "?up d1" for d1
    using that by (auto simp: on_service_def is_connected_def intro!: wp_mono [OF wp_try_new])
  show ?thesis
    unfolding data_service_def wp_bindP wp_attempt
  proof (rule wp_mono [OF wp_spin], goal_cases)
    case (1 u d1)
    show ?case
      unfolding sum.case wp_thenP wp_map_errP
      by (rule wp_mono [OF define_ctx]) (use 1 serve in auto)
  next
    case (2 x d1)
    have "wp (thenP m (errP y)) Q (\<lambda>_ _. True) d1" for m :: "(('a, 'b) device, device_error nb, unit) prog" and y Q
      by (rule wp_last) simp
    then show ?case by (cases x) (simp_all del: wp_thenP)
  qed
qed

section \<open>Runs in a closed world\<close>

text \<open>A network with a scripted modem that has these answers.\<close>

abbreviation scripted :: "(at_error + at_resp) list \<Rightarrow> (script_world \<times> at_req list) network" where
  "scripted as \<equiv> network_new (at_tx_new (script_start\<lparr>sw_answers := as\<rparr>, []))"

lemma net_send_obliging:
  assumes "cmd_parse c (obliging (cmd_req c)) = Some r"
  shows "net_send (obliging_env m cfg) c b n =
    Some (Inr r, n\<lparr>net_tx := \<lparr>tx_timeouts = 0, tx_world = net_world n\<rparr>\<rparr>)"
  using assms
  by (cases n; cases "net_tx n"; cases b)
    (simp_all add: net_send_def map_errP_def send_internal_def thenP_def bindP_def attempt_def
      okP_def zoom_def handle_urc_run at_send_run send_retry_obliging)

lemma obliging_psn [simp]:
  "cmd_parse get_gprs_attached (obliging (Psn_Context GetGPRSAttached)) = Some gprs_attached_state.Attached"
  "cmd_parse get_pdp_context_state (obliging (Psn_Context GetPDPContextState)) =
     Some [\<lparr>pcs_cid = 1, pcs_status = pdp_context_status.Activated\<rparr>]"
  "cmd_parse (get_packet_switched_network_data p k) (obliging (Psn_Context (GetPacketSwitchedNetworkData p k))) =
     Some \<lparr>psnd_profile = p, psnd_param = k, psnd_param_tag = 1\<rparr>"
  by (simp_all add: typed_cmd_defs typed_cmd_def obliging_def)

lemma connect_obliging:
  "\<exists>n'. service_connect (obliging_env Sara_R5 cfg) info n = Some (Inr (), n')"
  by (cases "net_context n")
   (simp_all add: service_connect_def attach_network_def numeral_eq_Suc activate_context_upsd_def upsd_context_activation_def
      bindP_def thenP_def getsP_def map_errP_def okP_def modifyP_def net_send_obliging)


lemma try_new_obliging:
  "\<exists>s'. try_new (obliging_env Sara_R5 cfg) k info s = Some (Inr (), s')"
proof -
  obtain n where n: "service_connect (obliging_env Sara_R5 cfg) info (ds_network s) = Some (Inr (), n)"
    using connect_obliging by blast
  have "\<exists>s'. socket_ingress_all (obliging_env Sara_R5 cfg) k t = Some (Inr (), s')"
    if "ds_sockets t \<noteq> None" for t
    using that ingress_loop_returns [of "obliging_env Sara_R5 cfg" k "the (ds_sockets t)" "ds_network t"]
    by (auto simp: socket_ingress_all_def)
  from this [of "s\<lparr>ds_network := n\<rparr>"] n show ?thesis
    by (cases "ds_sockets s")
      (auto simp: try_new_def thenP_def bindP_def on_ds_net_def zoom_def getsP_def okP_def map_errP_def whenP_def)
qed

definition run_ok :: "(('e + 'a) \<times> 's) option \<Rightarrow> bool" where
  "run_ok r = (case r of Some (Inr _, _) \<Rightarrow> True | _ \<Rightarrow> False)"

lemma run_okD: "run_ok r \<Longrightarrow> \<exists>a s. r = Some (Inr a, s)"
  by (auto simp: run_ok_def split: option.splits sum.splits)

abbreviation profile_data :: "u8 \<Rightarrow> at_error + at_resp" where
  "profile_data tag \<equiv> Inr (R_Psn (R_PacketSwitchedNetworkData
     \<lparr>psnd_profile = 0, psnd_param = packet_switched_network_data_param.PsdProfileStatus, psnd_param_tag = tag\<rparr>))"

text \<open>A socket as a counter of the bytes the module has for it and the bytes it was given.\<close>

definition counting_sockets :: "socket_type \<Rightarrow> ('w, nat \<times> bytes) socket_api" where
  "counting_sockets ty =
     \<lparr>sk_prune = (\<lambda>_. []), sk_closed_by_remote = (\<lambda>s w. (s, w)),
      sk_should_update = (\<lambda>s w. ((True, s), w)), sk_set_available = (\<lambda>n (_, b). (n, b)),
      sk_available = fst, sk_can_recv = (\<lambda>_. True), sk_rx_window = (\<lambda>(_, b). 2048 - length b),
      sk_type = (\<lambda>_. ty), sk_rx_enqueue = (\<lambda>d (n, b). (length d, n - length d, b @ d))\<rparr>"

definition hello :: at_resp where
  "hello = R_Socket (R_SocketData \<lparr>sd_socket = 3, sd_length = 2, sd_data = Some (hex_encode True [104, 105])\<rparr>)"

lemma data_service_obliging:
  "\<exists>d'. data_service (obliging_env Sara_R5 pins) dull_sockets apn_info_default (device_new 0) = Some (Inr (), d')"
proof -
  let ?e = "obliging_env Sara_R5 pins" and ?d = "device_new 0 :: (instant, unit) device"
  obtain d1 where spin: "spin ?e dull_sockets ?d = Some (Inr (), d1)"
    using spin_obliging [OF calm_new [of 0], of pins Sara_R5 dull_sockets]
    by (auto simp: device_new_def default_config_def)
  obtain s where new: "try_new ?e dull_sockets apn_info_default
      \<lparr>ds_network = dev_network d1, ds_sockets = dev_sockets d1\<rparr> = Some (Inr (), s)"
    using try_new_obliging by blast
  show ?thesis
    using spin new
    by (simp add: data_service_def bindP_def attempt_def define_device_context_def
        upsd_context_activation_def thenP_def okP_def map_errP_def on_service_def zoom_def)
qed

text \<open>A modem that reports context 1 active, with the profile mapped to a context and in a status.\<close>

definition asked :: "context_id \<Rightarrow> u8 \<Rightarrow> at_req \<Rightarrow> at_resp" where
  "asked mapped tag q = (case q of
      Psn_Context (GetPacketSwitchedConfig p _) \<Rightarrow>
        R_Psn (R_PacketSwitchedConfig \<lparr>psc_profile_id = p, psc_param = packet_switched_param.MapProfile mapped\<rparr>)
    | Psn_Context (GetPacketSwitchedNetworkData p k) \<Rightarrow>
        R_Psn (R_PacketSwitchedNetworkData \<lparr>psnd_profile = p, psnd_param = k, psnd_param_tag = tag\<rparr>)
    | _ \<Rightarrow> obliging q)"

definition asked_env :: "context_id \<Rightarrow> u8 \<Rightarrow> instant env" where
  "asked_env mapped tag = (obliging_env Toby_R2 pins)\<lparr>send_raw := \<lambda>q t. (Inr (asked mapped tag q), t)\<rparr>"

lemma net_send_asked:
  assumes "cmd_parse c (asked mapped tag (cmd_req c)) = Some r"
  shows "net_send (logged (asked_env mapped tag)) c b n =
    Some (Inr r, n\<lparr>net_tx := \<lparr>tx_timeouts = 0, tx_world = (fst (net_world n), sent (net_world n) @ [cmd_req c])\<rparr>\<rparr>)"
  using assms
  by (cases n; cases "net_tx n"; cases b)
    (simp_all add: net_send_def map_errP_def send_internal_def thenP_def bindP_def attempt_def logged_def asked_env_def
      okP_def zoom_def handle_urc_run at_send_run send_retry_def obliging_env_def split: prod.split)

lemma asked_psn [simp]:
  "cmd_parse get_pdp_context_state (asked mapped tag (Psn_Context GetPDPContextState)) =
     Some [\<lparr>pcs_cid = 1, pcs_status = pdp_context_status.Activated\<rparr>]"
  "cmd_parse (get_packet_switched_network_data p k) (asked mapped tag (Psn_Context (GetPacketSwitchedNetworkData p k))) =
     Some \<lparr>psnd_profile = p, psnd_param = k, psnd_param_tag = tag\<rparr>"
  "cmd_parse (get_packet_switched_config p x) (asked mapped tag (Psn_Context (GetPacketSwitchedConfig p x))) =
     Some \<lparr>psc_profile_id = p, psc_param = packet_switched_param.MapProfile mapped\<rparr>"
  "asked mapped tag (Psn_Context (SetPacketSwitchedConfig p y)) = R_NoResponse"
  "asked mapped tag (Psn_Context (SetPacketSwitchedAction p z)) = R_NoResponse"
  "variant (asked_env mapped tag) = Toby_R2"
  by (simp_all add: typed_cmd_defs typed_cmd_def asked_def asked_env_def obliging_def obliging_env_def)

lemma reports_asked:
  "reports (asked_env mapped tag) get_pdp_context_state
     [\<lparr>pcs_cid = 1, pcs_status = pdp_context_status.Activated\<rparr>]"
  "reports (asked_env mapped tag) (get_packet_switched_config p packet_switched_param_req.MapProfile)
     \<lparr>psc_profile_id = p, psc_param = packet_switched_param.MapProfile mapped\<rparr>"
  "reports (asked_env mapped tag) (get_packet_switched_network_data p packet_switched_network_data_param.PsdProfileStatus)
     \<lparr>psnd_profile = p, psnd_param = packet_switched_network_data_param.PsdProfileStatus, psnd_param_tag = tag\<rparr>"
  by (simp_all add: reports_def asked_env_def)

section \<open>Properties\<close>

text \<open>On a clock that moves, waiting to be attached ends: it sends at most ten enquiries and
  nothing else, and it says \<open>WouldBlock\<close> only after all ten.\<close>

theorem attach_network_asks_ten_times:
  assumes "ticking e clk"
  shows "\<exists>r n' j. attach_network (logged e) n = Some (r, n') \<and> j \<le> 10
    \<and> sent (net_world n') = sent (net_world n) @ replicate j (Psn_Context GetGPRSAttached)
    \<and> (r = Inl WouldBlock \<longrightarrow> j = 10) \<and> (r = Inr () \<longrightarrow> 0 < j)"
proof -
  obtain r n' where run: "attach_network (logged e) n = Some (r, n')"
    using haltsD [OF halts_attach [OF logged_ticking [OF assms]], of n] by blast
  then have attach: "attach_attempts (logged e) 10 n = Some (r, n')" by (simp add: attach_network_def)
  obtain j where "j \<le> 10" "r = Inl WouldBlock \<longrightarrow> j = 10" "r = Inr () \<longrightarrow> 0 < j"
    "sent (net_world n') = sent (net_world n) @ replicate j (Psn_Context GetGPRSAttached)"
  proof (cases r)
    case (Inl x)
    with wpD_Inl [OF wp_attach_logged attach [unfolded Inl]] that show ?thesis by auto
  next
    case (Inr u)
    with wpD_Inr [OF wp_attach_logged attach [unfolded Inr]] that show ?thesis by auto
  qed
  with run show ?thesis by blast
qed

theorem attach_network_asks_ten_times_witness:
  "ticking (obliging_env Toby_R2 pins) id \<and>
   (\<exists>r n' j. attach_network (logged (obliging_env Toby_R2 pins)) (network_new (at_tx_new (0, []))) = Some (r, n')
      \<and> j \<le> 10 \<and> sent (net_world n') = replicate j (Psn_Context GetGPRSAttached)
      \<and> (r = Inl WouldBlock \<longrightarrow> j = 10) \<and> (r = Inr () \<longrightarrow> 0 < j))"
  using attach_network_asks_ten_times [OF obliging_ticking [of Toby_R2 pins], of "network_new (at_tx_new (0, []))"]
  by (simp add: obliging_ticking network_new_def at_tx_new_def)

text \<open>Connecting the data service: at once when the context is active, otherwise a success
  leaves the context active; the registration is as before in every case.\<close>

theorem service_connect_activates:
  assumes "service_connect e info n = Some (r, n')"
  shows "net_status n' = net_status n \<and> (r = Inr () \<longrightarrow> net_context n' = Active)
    \<and> (net_context n = Active \<longrightarrow> r = Inr () \<and> n' = n)"
proof -
  have "net_context n = Active \<longrightarrow> r = Inr () \<and> n' = n"
    using assms by (auto simp: service_connect_def bindP_def getsP_def okP_def)
  with assms wp_service_connect [of e info n] show ?thesis by (cases r) (auto simp: wp_def)
qed

theorem service_connect_activates_witness:
  "\<exists>n'. service_connect (obliging_env Sara_R5 pins) apn_info_default (network_new (at_tx_new 0)) = Some (Inr (), n')
     \<and> net_context n' = Active"
proof -
  obtain n' where run: "service_connect (obliging_env Sara_R5 pins) apn_info_default
      (network_new (at_tx_new 0)) = Some (Inr (), n')"
    using connect_obliging by blast
  with service_connect_activates [OF run] show ?thesis by blast
qed

text \<open>C21: activating the context, given what the module reports when it is asked. If the context is reported active
  it is used: the profile is mapped to it if it is reported mapped to another one, and activated if it is reported not active,
  on the modules that have these commands, and the context is recorded as active. If it is reported inactive or not at all, the one
  command to activate it is sent and the call says \<open>WouldBlock\<close>. On any other error the first of these commands have been sent.\<close>

theorem activate_context_order:
  assumes "activate_context (logged e) cid p n = Some (r, n')" "net_context n \<noteq> Active"
    and "reports e get_pdp_context_state states"
    and "reports e (get_packet_switched_config p packet_switched_param_req.MapProfile) cf"
    and "reports e (get_packet_switched_network_data p packet_switched_network_data_param.PsdProfileStatus) status"
  defines "active \<equiv> map_of (map (\<lambda>s. (pcs_cid s, pcs_status s)) states) cid = Some pdp_context_status.Activated"
  defines "commands \<equiv> Psn_Context GetPDPContextState #
    (if \<not> active then [Psn_Context (SetPDPContextState pdp_context_status.Activated (Some cid))]
     else if variant e = Lara_R6 then []
     else [Psn_Context (GetPacketSwitchedConfig p packet_switched_param_req.MapProfile)]
       @ (if \<exists>other. psc_param cf = packet_switched_param.MapProfile other \<and> other \<noteq> cid
          then [Psn_Context (SetPacketSwitchedConfig p (packet_switched_param.MapProfile cid)), profile_query p] else [])
       @ [profile_query p]
       @ (if psnd_param_tag status = 0
          then [Psn_Context (SetPacketSwitchedAction p packet_switched_action.Activate)] else []))"
  shows "case r of
      Inr _ \<Rightarrow> active \<and> net_context n' = Active \<and> sent (net_world n') = sent (net_world n) @ commands
    | Inl WouldBlock \<Rightarrow> \<not> active \<and> sent (net_world n') = sent (net_world n) @ commands
    | Inl (Other x) \<Rightarrow> \<exists>j. sent (net_world n') = sent (net_world n) @ take j commands"
proof -
  have eqs: "active = reported_active cid states" "commands = context_commands e cid p states cf status"
    by (simp_all add: active_def commands_def reported_active_def context_commands_def profile_sequence_def
        mapped_elsewhere_def)
  show ?thesis
  proof (cases r)
    case (Inl x)
    from wpD_Inl [OF wp_context_logged [OF assms(2-5)] assms(1) [unfolded Inl]] show ?thesis
      unfolding eqs Inl by (cases x) simp_all
  next
    case (Inr u)
    from wpD_Inr [OF wp_context_logged [OF assms(2-5)] assms(1) [unfolded Inr]]
      wpD_Inr [OF wp_activate(2) assms(1) [unfolded Inr]]
    show ?thesis unfolding eqs Inr by simp
  qed
qed

theorem activate_context_order_witness:
  "\<exists>n'. activate_context (logged (asked_env 2 0)) 1 0 ((network_new (at_tx_new (0, [])))) = Some (Inr (), n')
     \<and> net_context n' = Active
     \<and> sent (net_world n') = [Psn_Context GetPDPContextState,
         Psn_Context (GetPacketSwitchedConfig 0 packet_switched_param_req.MapProfile),
         Psn_Context (SetPacketSwitchedConfig 0 (packet_switched_param.MapProfile 1)), profile_query 0, profile_query 0,
         Psn_Context (SetPacketSwitchedAction 0 packet_switched_action.Activate)]"
  (is "\<exists>n'. activate_context ?e 1 0 ?n = _ \<and> _")
proof -
  obtain n' where run: "activate_context ?e 1 0 ?n = Some (Inr (), n')"
    by (simp add: activate_context_def activate_profile_def net_cmd_def net_send_asked prog_defs whenP_def
        map_errP_def context_activated_def network_new_def at_tx_new_def)
  have "net_context ?n \<noteq> Active" by (simp add: network_new_def)
  from activate_context_order [OF run this reports_asked] run show ?thesis
    by (auto simp: asked_env_def network_new_def at_tx_new_def)
qed

text \<open>C22: on the modules that activate a profile, the profile is asked for. Reported active it is used as it is; reported
  inactive every parameter is set, in order, before it is activated. Then the context is recorded as active; on an error
  the first of these commands have been sent.\<close>

theorem activate_context_upsd_order:
  assumes "activate_context_upsd (logged e) p info n = Some (r, n')" "net_context n \<noteq> Active"
    and "reports e (get_packet_switched_network_data p packet_switched_network_data_param.PsdProfileStatus) status"
  defines "commands \<equiv> profile_query p #
    (if psnd_param_tag status = 0
     then map (\<lambda>x. Psn_Context (SetPacketSwitchedConfig p x)) (upsd_params e info)
       @ [Psn_Context (SetPacketSwitchedAction p packet_switched_action.Activate)]
     else [])"
  shows "case r of
      Inr _ \<Rightarrow> net_context n' = Active \<and> sent (net_world n') = sent (net_world n) @ commands
    | Inl _ \<Rightarrow> \<exists>j. sent (net_world n') = sent (net_world n) @ take j commands"
proof -
  have eq: "commands = upsd_commands e p info status"
    by (simp add: commands_def upsd_commands_def upsd_sequence_def)
  show ?thesis
  proof (cases r)
    case (Inl x)
    from wpD_Inl [OF wp_upsd_logged [OF assms(2,3)] assms(1) [unfolded Inl]] show ?thesis unfolding eq Inl by simp
  next
    case (Inr u)
    from wpD_Inr [OF wp_upsd_logged [OF assms(2,3)] assms(1) [unfolded Inr]]
      wpD_Inr [OF wp_activate(1) assms(1) [unfolded Inr]]
    show ?thesis unfolding eq Inr by simp
  qed
qed

theorem activate_context_upsd_order_witness:
  "\<exists>n'. activate_context_upsd (logged (asked_env 2 0)) 0 (apn_info_new ''internet'')
       (network_new (at_tx_new (0, []))) = Some (Inr (), n')
     \<and> net_context n' = Active
     \<and> sent (net_world n') = [profile_query 0,
         Psn_Context (SetPacketSwitchedConfig 0 (packet_switched_param.APN ''internet'')),
         Psn_Context (SetPacketSwitchedConfig 0 (packet_switched_param.IPAddress ipv4_unspecified)),
         Psn_Context (SetPacketSwitchedConfig 0 (packet_switched_param.Authentication authentication_type.Auto)),
         Psn_Context (SetPacketSwitchedConfig 0 (packet_switched_param.IPAddress ipv4_unspecified)),
         Psn_Context (SetPacketSwitchedAction 0 packet_switched_action.Activate)]"
  (is "\<exists>n'. activate_context_upsd ?e 0 ?i ?n = _ \<and> _")
proof -
  obtain n' where run: "activate_context_upsd ?e 0 ?i ?n = Some (Inr (), n')"
    by (simp add: activate_context_upsd_def net_cmd_def set_config_def upsd_params_def apn_info_new_def net_send_asked
        prog_defs whenP_def map_errP_def network_new_def at_tx_new_def)
  have "net_context ?n \<noteq> Active" by (simp add: network_new_def)
  from activate_context_upsd_order [OF run this reports_asked(3)] run show ?thesis
    by (auto simp: upsd_params_def apn_info_new_def asked_env_def network_new_def at_tx_new_def)
qed

text \<open>An access point name of more than 99 characters panics, once the profile is found inactive.\<close>

theorem activate_context_upsd_panics:
  assumes "api_apn info = Given a" "99 < length a" "net_context n \<noteq> Active"
    and "net_send e (get_packet_switched_network_data p
      packet_switched_network_data_param.PsdProfileStatus) True n = Some (Inr d, n1)"
    and "psnd_param_tag d = 0"
  shows "activate_context_upsd e p info n = None"
proof -
  obtain xs where "upsd_params e info = packet_switched_param.APN a # xs"
    using assms(1) by (simp add: upsd_params_def)
  then have "set_configs e p (upsd_params e info) m = None" for m
    using assms(2) by (simp add: thenP_def bindP_def set_config_def)
  with assms show ?thesis
    by (simp add: activate_context_upsd_def bindP_def thenP_def getsP_def map_errP_def modifyP_def)
qed

theorem activate_context_upsd_panics_witness:
  "activate_context_upsd (logged (script_env Sara_R5 pins)) 0 (apn_info_new (replicate 100 CHR ''a''))
     (scripted [profile_data 0]) = None"
  (is "activate_context_upsd ?e 0 ?i ?n = None")
proof -
  let ?c = "get_packet_switched_network_data 0 packet_switched_network_data_param.PsdProfileStatus"
  have "case net_send ?e ?c True ?n of Some (Inr d, _) \<Rightarrow> psnd_param_tag d = 0 | _ \<Rightarrow> False"
    by code_simp
  then obtain d n1 where "net_send ?e ?c True ?n = Some (Inr d, n1)" "psnd_param_tag d = 0"
    by (auto split: option.splits sum.splits)
  then show ?thesis
    by (intro activate_context_upsd_panics [where a = "replicate 100 CHR ''a''"])
      (simp_all add: apn_info_new_def network_new_def)
qed

text \<open>C23: the context is defined once: only while it is to be set up, with the radio off, by the
  commands in their order, after which it is to be activated; otherwise nothing is sent.\<close>

theorem define_context_once:
  assumes "define_context (logged e) cid info n = Some (r, n')"
  shows "if net_context n \<noteq> Setup then r = Inr () \<and> n' = n
    else case r of
      Inr _ \<Rightarrow> sent (net_world n') = sent (net_world n) @ define_sequence e cid info
        \<and> net_context n' = Activating
    | Inl _ \<Rightarrow> \<exists>j. sent (net_world n') = sent (net_world n) @ take j (define_sequence e cid info)"
proof (cases "net_context n = Setup")
  case True
  with assms wp_define_logged [OF True, of e cid info] show ?thesis
    by (auto simp: wp_def split: sum.split)
next
  case False
  with assms show ?thesis by (auto simp: define_context_def bindP_def getsP_def okP_def)
qed

theorem define_context_once_witness:
  "\<exists>n'. define_context (logged (script_env Sara_R5 pins)) 1 (apn_info_new ''internet'')
       (scripted (replicate 3 (Inr R_NoResponse))) = Some (Inr (), n')
     \<and> sent (net_world n') = define_sequence (script_env Sara_R5 pins) 1 (apn_info_new ''internet'')
     \<and> net_context n' = Activating"
  (is "\<exists>n'. define_context ?e 1 ?i ?n = _ \<and> _")
proof -
  have "run_ok (define_context ?e 1 ?i ?n)" by code_simp
  then obtain n' where run: "define_context ?e 1 ?i ?n = Some (Inr (), n')" by (auto dest: run_okD)
  from define_context_once [OF run] run show ?thesis
    by (auto simp: network_new_def at_tx_new_def split: if_splits)
qed

text \<open>C29: reading for a socket sends at most one request, for that socket, for no more than the module
  has, than a response holds and than the buffer has room for.\<close>

theorem ingress_requests_bounded:
  assumes "ingress_socket (logged e) (logged_sockets k) h (s, n) = Some (r, s', n')"
  shows "sent (net_world n') = sent (net_world n)
    \<or> (\<exists>len. len \<le> sk_available k s \<and> len \<le> INGRESS_CHUNK_SIZE \<and> len \<le> sk_rx_window k s
        \<and> (sent (net_world n') = sent (net_world n) @ [Socket_Data (ReadSocketData h len)]
          \<or> sent (net_world n') = sent (net_world n) @ [Socket_Data (ReadUDPSocketData h len)]))"
proof -
  let ?len = "min (min (sk_available k s) INGRESS_CHUNK_SIZE) (sk_rx_window k s)"
  have "sent (net_world n') \<in> {sent (net_world n), sent (net_world n) @ [data_request k h s]}"
    using assms wp_ingress_logged [where e = e and k = k and h = h and s = s and n = n]
    by (cases r) (simp_all add: wp_def)
  then show ?thesis
    by (auto simp: data_request_def Let_def intro!: exI [of _ ?len] split: if_splits)
qed

theorem ingress_requests_bounded_witness:
  "\<exists>r s' n' len. ingress_socket (logged (script_env Toby_R2 pins)) (logged_sockets (counting_sockets Tcp)) 3
       ((2, []), scripted [Inr hello]) = Some (r, s', n')
     \<and> sent (net_world n') = [Socket_Data (ReadSocketData 3 len)] \<and> len \<le> 2"
  (is "\<exists>r s' n' len. ingress_socket ?e ?k 3 ((2, []), ?n) = _ \<and> _")
proof -
  have "case ingress_socket ?e ?k 3 ((2, []), ?n) of
      Some (_, _, n') \<Rightarrow> (case sent (net_world n') of
        [Socket_Data (ReadSocketData _ _)] \<Rightarrow> True | _ \<Rightarrow> False)
    | None \<Rightarrow> False"
    by code_simp
  then obtain r s' n' where run: "ingress_socket ?e ?k 3 ((2, []), ?n) = Some (r, s', n')"
    and one: "case sent (net_world n') of [Socket_Data (ReadSocketData _ _)] \<Rightarrow> True | _ \<Rightarrow> False"
    by (auto split: option.splits prod.splits)
  from ingress_requests_bounded [OF run] one run show ?thesis
    by (auto simp: network_new_def at_tx_new_def counting_sockets_def)
qed


text \<open>C3: a data service is handed out only when the module is on, configured and registered on the
  network, with an active data context.\<close>

theorem data_service_ready:
  assumes "data_service e k info d = Some (Inr (), d')"
  shows "dev_power d' = On \<and> dev_state d' = FullyInitialized \<and> is_connected (dev_network d')
    \<and> net_context (dev_network d') = Active"
  using wpD_Inr [OF wp_data_service assms] by simp

theorem data_service_ready_witness:
  "\<exists>d'. data_service (obliging_env Sara_R5 pins) dull_sockets apn_info_default (device_new 0)
        = Some (Inr (), d')
     \<and> dev_power d' = On \<and> dev_state d' = FullyInitialized \<and> net_context (dev_network d') = Active"
  using data_service_obliging data_service_ready by blast

text \<open>C19: reading for all sockets always returns, keeps the set of sockets, the registration and the context, and has
  no error of its own but the missing storage. What goes wrong with one socket does not keep the others from being
  read: whatever the module answers, for every socket that has data waiting and room for it exactly one request goes out, in
  the order of the sockets, for as much as is waiting, fits into a response and fits into the buffer; for one that has data but
  no room none does; and for one without data at most the question how much there is.\<close>

theorem socket_ingress_all_returns:
  "(\<exists>s'. socket_ingress_all e k s = Some (if ds_sockets s = None then Inl SocketMemory else Inr (), s')
     \<and> map_option (map fst) (ds_sockets s') = map_option (map fst) (ds_sockets s)
     \<and> net_status (ds_network s') = net_status (ds_network s)
     \<and> net_context (ds_network s') = net_context (ds_network s))
   \<and> (\<forall>t socks. ds_sockets t = Some socks \<longrightarrow>
       (\<exists>t' reqs. socket_ingress_all (logged e) (logged_sockets k) t = Some (Inr (), t')
         \<and> sent (ds_world t') = sent (ds_world t) @ concat reqs
         \<and> list_all2 (\<lambda>(h, x) qs.
             let len = min (min (sk_available k x) INGRESS_CHUNK_SIZE) (sk_rx_window k x) in
             if sk_available k x = 0 then qs = [] \<or> qs = [Socket_Data (ReadSocketData h 0)]
             else if \<not> sk_can_recv k x then qs = []
             else qs = (case sk_type k x of
                 Tcp \<Rightarrow> [Socket_Data (ReadSocketData h len)]
               | Udp \<Rightarrow> [Socket_Data (ReadUDPSocketData h len)]
               | Other_Type \<Rightarrow> [])) socks reqs))"
proof (intro conjI allI impI)
  show "\<exists>s'. socket_ingress_all e k s = Some (if ds_sockets s = None then Inl SocketMemory else Inr (), s')
     \<and> map_option (map fst) (ds_sockets s') = map_option (map fst) (ds_sockets s)
     \<and> net_status (ds_network s') = net_status (ds_network s)
     \<and> net_context (ds_network s') = net_context (ds_network s)"
  proof (cases "ds_sockets s")
    case None
    then show ?thesis by (simp add: socket_ingress_all_def)
  next
    case (Some socks)
    obtain socks' n' where run: "ingress_loop e k socks (ds_network s) = Some (socks', n')"
      using ingress_loop_returns by blast
    from ingress_loop_frame [OF run] Some run show ?thesis by (simp add: socket_ingress_all_def)
  qed
next
  fix t :: "('a \<times> at_req list, 'b) service" and socks
  assume socks: "ds_sockets t = Some socks"
  obtain socks' n' where run: "ingress_loop (logged e) (logged_sockets k) socks (ds_network t) = Some (socks', n')"
    using ingress_loop_returns by blast
  obtain reqs where reqs: "sent (net_world n') = sent (ds_world t) @ concat reqs"
    "list_all2 (\<lambda>(h, s). due k h s) socks reqs" using ingress_loop_due [OF run] by blast
  from reqs(2) show "\<exists>t' reqs. socket_ingress_all (logged e) (logged_sockets k) t = Some (Inr (), t')
         \<and> sent (ds_world t') = sent (ds_world t) @ concat reqs
         \<and> list_all2 (\<lambda>(h, x) qs.
             let len = min (min (sk_available k x) INGRESS_CHUNK_SIZE) (sk_rx_window k x) in
             if sk_available k x = 0 then qs = [] \<or> qs = [Socket_Data (ReadSocketData h 0)]
             else if \<not> sk_can_recv k x then qs = []
             else qs = (case sk_type k x of
                 Tcp \<Rightarrow> [Socket_Data (ReadSocketData h len)]
               | Udp \<Rightarrow> [Socket_Data (ReadUDPSocketData h len)]
               | Other_Type \<Rightarrow> [])) socks reqs"
    by (intro exI [of _ "t\<lparr>ds_sockets := Some socks', ds_network := n'\<rparr>"] exI [of _ reqs])
      (auto simp: socket_ingress_all_def socks run reqs(1) due_def data_request_def Let_def
        split: socket_type.split elim!: list_all2_mono)
qed

text \<open>The module answers nothing for the first socket, and the second is read all the same.\<close>

theorem socket_ingress_all_returns_witness:
  "\<exists>t' :: (script_world \<times> at_req list, nat \<times> bytes) service.
     socket_ingress_all (logged (script_env Toby_R2 pins)) (logged_sockets (counting_sockets Tcp))
       \<lparr>ds_network = scripted [], ds_sockets = Some [(3, 5, []), (4, 2000, [])]\<rparr> = Some (Inr (), t')
     \<and> sent (ds_world t') = [Socket_Data (ReadSocketData 3 5), Socket_Data (ReadSocketData 4 INGRESS_CHUNK_SIZE)]"
proof -
  let ?t = "\<lparr>ds_network = scripted [], ds_sockets = Some [(3, 5, []), (4, 2000, [])]\<rparr>
    :: (script_world \<times> at_req list, nat \<times> bytes) service"
  from socket_ingress_all_returns [of "script_env Toby_R2 pins" "counting_sockets Tcp"
      "\<lparr>ds_network = network_new (at_tx_new script_start), ds_sockets = None\<rparr>", THEN conjunct2, rule_format, of ?t]
  obtain t' reqs where "socket_ingress_all (logged (script_env Toby_R2 pins)) (logged_sockets (counting_sockets Tcp)) ?t
      = Some (Inr (), t')" "sent (ds_world t') = concat reqs"
    "list_all2 (\<lambda>(h, x) qs.
       let len = min (min (sk_available (counting_sockets Tcp :: (script_world, nat \<times> bytes) socket_api) x) INGRESS_CHUNK_SIZE)
         (sk_rx_window (counting_sockets Tcp :: (script_world, nat \<times> bytes) socket_api) x) in
       if sk_available (counting_sockets Tcp :: (script_world, nat \<times> bytes) socket_api) x = 0
       then qs = [] \<or> qs = [Socket_Data (ReadSocketData h 0)]
       else if \<not> sk_can_recv (counting_sockets Tcp :: (script_world, nat \<times> bytes) socket_api) x then qs = []
       else qs = (case sk_type (counting_sockets Tcp :: (script_world, nat \<times> bytes) socket_api) x of
           Tcp \<Rightarrow> [Socket_Data (ReadSocketData h len)]
         | Udp \<Rightarrow> [Socket_Data (ReadUDPSocketData h len)]
         | Other_Type \<Rightarrow> [])) [(3, 5, []), (4, 2000, [])] reqs"
    by (auto simp: network_new_def at_tx_new_def)
  then show ?thesis
    by (auto simp: counting_sockets_def list_all2_Cons1 INGRESS_CHUNK_SIZE_def)
qed

lemma net_send_run:
  "net_send e c False n =
     (case at_send e c (net_tx n) of
        None \<Rightarrow> None
      | Some (r, t) \<Rightarrow> Some (map_sum data_of_network id r, n\<lparr>net_tx := t\<rparr>))"
  by (simp add: net_send_def map_errP_def send_internal_def thenP_def whenP_def zoom_def split: option.split)

text \<open>C11: what the module sends is what the socket gets: the bytes whose hexadecimal form, in upper or
  lower case, is the payload of the response are put into the buffer of the socket they are for.\<close>

theorem ingress_delivers:
  assumes "0 < sk_available k s" "sk_can_recv k s" "length bs \<le> INGRESS_CHUNK_SIZE"
    and "len = min (min (sk_available k s) INGRESS_CHUNK_SIZE) (sk_rx_window k s)"
    and "sk_type k s = Tcp \<and> send_raw e (Socket_Data (ReadSocketData h len)) (net_world n) =
        (Inr (R_Socket (R_SocketData
           \<lparr>sd_socket = h, sd_length = length bs, sd_data = Some (hex_encode upper bs)\<rparr>)), w)
      \<or> sk_type k s = Udp \<and> send_raw e (Socket_Data (ReadUDPSocketData h len)) (net_world n) =
        (Inr (R_Socket (R_UDPSocketData
           \<lparr>ud_socket = h, ud_remote_addr = a, ud_remote_port = p, ud_length = length bs,
            ud_data = Some (hex_encode upper bs)\<rparr>)), w)"
  shows "ingress_socket e k h (s, n) =
    Some (Inr (), snd (sk_rx_enqueue k bs (if bs = [] then sk_set_available k 0 s else s)),
      n\<lparr>net_tx := \<lparr>tx_timeouts = 0, tx_world = w\<rparr>\<rparr>)"
proof -
  let ?d = "(h, Some (hex_encode upper bs), length bs)"
  let ?n = "n\<lparr>net_tx := \<lparr>tx_timeouts = 0, tx_world = w\<rparr>\<rparr>"
  have request: "request_data e (sk_type k s) h len n = Some (Inr ?d, ?n)"
    using assms(3,5)
    by (auto simp: request_data_def bindP_def net_send_run at_send_run send_retry_def okP_def
        read_socket_data_parse read_udp_socket_data_parse opt_fits_def split: option.splits)
  have hex: "fst (from_hex (hex_encode upper bs)) = Inr bs"
    by (simp add: from_hex_pairs hex_pairs_encode)
  show ?thesis
    using assms(1,2) request hex
    by (simp add: ingress_socket_def bindP_def getsP_def Let_def zoom_def thenP_def whenP_def okP_def
        modifyP_def take_data_def flip: assms(4))
qed

theorem ingress_delivers_witness:
  "\<exists>n'. ingress_socket (script_env Toby_R2 pins) (counting_sockets Tcp) 3
       ((2, []), network_new (at_tx_new (script_start\<lparr>sw_answers := [Inr hello]\<rparr>))) = Some (Inr (), (0, [104, 105]), n')"
proof -
  have "length [104, 105 :: u8] \<le> INGRESS_CHUNK_SIZE"
    by (simp add: INGRESS_CHUNK_SIZE_def)
  then show ?thesis
    by (intro exI, subst ingress_delivers [where bs = "[104, 105]" and len = 2 and upper = True
        and w = script_start and a = undefined and p = undefined])
      (auto simp: counting_sockets_def INGRESS_CHUNK_SIZE_def script_env_def hello_def network_new_def
        at_tx_new_def script_start_def)
qed

end
