(* ===== verification/Stack_Proofs.thy ===== *)
theory Stack_Proofs
  imports Socket_Stacks Secure_Services Data_Proofs
begin

text \<open>
  What holds of \<open>Socket_Stacks\<close> and \<open>Secure_Services\<close>: what a stack sends is what the caller gave it,
  chunk by chunk, on the stream of its socket; a TCP connection is made after its security profile is
  set; the set of sockets does not grow beyond its capacity; certificates and profiles are set up in
  order.
\<close>

section \<open>Runs\<close>

lemma wp_stack_send:
  assumes "\<And>r s'. ds_sockets s' = ds_sockets s \<Longrightarrow> Q r s'"
    and "\<And>s'. ds_sockets s' = ds_sockets s \<Longrightarrow> E Unaddressable s'"
  shows "wp (stack_send e c b) Q E s"
  using assms by (auto simp: stack_send_def on_ds_net_def intro!: wp_send_internal)

lemma wp_stack_send_logged:
  assumes "\<And>r s'. ds_sockets s' = ds_sockets s \<Longrightarrow> sent (ds_world s') = sent (ds_world s) @ [cmd_req c] \<Longrightarrow> Q r s'"
    and "\<And>s'. ds_sockets s' = ds_sockets s \<Longrightarrow> sent (ds_world s') = sent (ds_world s) @ [cmd_req c] \<Longrightarrow>
      E Unaddressable s'"
  shows "wp (stack_send (logged e) c b) Q E s"
  using assms by (auto simp: stack_send_def on_ds_net_def intro!: wp_send_internal_logged)

lemma wp_stack_send_reported:
  assumes "reports e c x"
    and "\<And>s'. ds_sockets s' = ds_sockets s \<Longrightarrow> sent (ds_world s') = sent (ds_world s) @ [cmd_req c] \<Longrightarrow> Q x s'"
    and "\<And>s'. ds_sockets s' = ds_sockets s \<Longrightarrow> sent (ds_world s') = sent (ds_world s) @ [cmd_req c] \<Longrightarrow>
      E Unaddressable s'"
  shows "wp (stack_send (logged e) c b) Q E s"
proof -
  have reported: "r = x" if "stack_send (logged e) c b s = Some (Inr r, s')" for r s'
  proof -
    have "\<exists>n'. send_internal (logged e) c b (ds_network s) = Some (Inr r, n')"
      using that by (cases "send_internal (logged e) c b (ds_network s)")
        (auto simp: stack_send_def on_ds_net_def map_errP_def zoom_def)
    then obtain n' where "send_internal (logged e) c b (ds_network s) = Some (Inr r, n')" ..
    then show ?thesis by (rule send_internal_reported [OF assms(1)])
  qed
  have "wp (stack_send (logged e) c b)
      (\<lambda>r s'. ds_sockets s' = ds_sockets s \<and> sent (ds_world s') = sent (ds_world s) @ [cmd_req c]) E s"
    using assms(3) by (intro wp_stack_send_logged) simp_all
  with assms(2) reported show ?thesis by (auto simp: wp_def split: option.splits sum.splits)
qed

lemma wp_with_sockets:
  "wp (with_sockets f) Q E s \<longleftrightarrow>
    (case ds_sockets s of None \<Rightarrow> E Illegal s | Some socks \<Rightarrow> wp (f socks) Q E s)"
  by (simp add: with_sockets_def split: option.split)

lemma wp_on_sockets:
  "wp (on_sockets f) Q E s \<longleftrightarrow>
    (case ds_sockets s of
       None \<Rightarrow> E Illegal s
     | Some socks \<Rightarrow>
         (case f socks of
            (Inl x, socks') \<Rightarrow> E x (s\<lparr>ds_sockets := Some socks'\<rparr>)
          | (Inr a, socks') \<Rightarrow> Q a (s\<lparr>ds_sockets := Some socks'\<rparr>)))"
  by (auto simp: wp_def on_sockets_def split: option.split prod.split sum.split)

lemma wp_get_tcp:
  "wp (get_tcp st h) Q E s \<longleftrightarrow>
    (case ds_sockets s of
       None \<Rightarrow> E Illegal s
     | Some socks \<Rightarrow> (case st_tcp st h socks of Inl x \<Rightarrow> E x s | Inr t \<Rightarrow> Q t s))"
  by (simp add: get_tcp_def wp_with_sockets split: option.split sum.split)

lemma wp_get_udp:
  "wp (get_udp st h) Q E s \<longleftrightarrow>
    (case ds_sockets s of
       None \<Rightarrow> E Illegal s
     | Some socks \<Rightarrow> (case st_udp st h socks of Inl x \<Rightarrow> E x s | Inr u \<Rightarrow> Q u s))"
  by (simp add: get_udp_def wp_with_sockets split: option.split sum.split)

text \<open>The first requests of a sequence.\<close>

lemma take_first [simp]:
  "\<exists>j. [] = take j xs" "\<exists>j. take j xs = []" "\<exists>j. [a] = take j (a # xs)" "\<exists>j. [a, b] = take j (a # b # xs)"
  "\<exists>j. [a, b, c] = take j (a # b # c # xs)" "\<exists>j. [a, b, c, d] = take j (a # b # c # d # xs)"
  by (auto intro: exI [of _ 0] exI [of _ "Suc 0"])
    (metis take_Suc_Cons take_0)+

section \<open>Chunks\<close>

lemma concat_chunks: "0 < n \<Longrightarrow> concat (chunks n xs) = xs"
proof (induction n xs rule: chunks.induct)
  case (1 n xs)
  then show ?case by (subst chunks.simps) auto
qed

lemma chunks_size: "c \<in> set (chunks n xs) \<Longrightarrow> 0 < length c \<and> length c \<le> n"
proof (induction n xs rule: chunks.induct)
  case (1 n xs)
  then show ?case by (subst (asm) (2) chunks.simps) (auto split: if_splits)
qed

section \<open>What a TCP socket sends\<close>

definition tcp_requests :: "socket_handle \<Rightarrow> bytes list \<Rightarrow> at_req list" where
  "tcp_requests h cs = concat (map (\<lambda>c.
     [Socket_Data (PrepareWriteSocketDataBinary h (length c)), Socket_Data (WriteSocketDataBinary c)]) cs)"

lemma tcp_requests_simps [simp]:
  "tcp_requests h [] = []"
  "tcp_requests h (c # cs) = Socket_Data (PrepareWriteSocketDataBinary h (length c))
     # Socket_Data (WriteSocketDataBinary c) # tcp_requests h cs"
  by (simp_all add: tcp_requests_def)

lemma wp_tcp_write_logged:
  fixes s :: "('w \<times> at_req list, 's) service"
  shows "wp (tcp_write (logged e) h cs)
    (\<lambda>_ s'. sent (ds_world s') = sent (ds_world s) @ tcp_requests h cs)
    (\<lambda>_ s'. \<exists>j. sent (ds_world s') = sent (ds_world s) @ take j (tcp_requests h cs)) s"
proof (induction cs arbitrary: s)
  case Nil
  show ?case by simp
next
  case (Cons c cs)
  let ?p = "Socket_Data (PrepareWriteSocketDataBinary h (length c))"
  let ?w = "Socket_Data (WriteSocketDataBinary c)"
  have rest: "wp (tcp_write (logged e) h cs)
      (\<lambda>_ s'. sent (ds_world s') = sent (ds_world s) @ tcp_requests h (c # cs))
      (\<lambda>_ s'. \<exists>j. sent (ds_world s') = sent (ds_world s) @ take j (tcp_requests h (c # cs))) t"
    if "sent (ds_world t) = sent (ds_world s) @ [?p, ?w]" for t :: "('w \<times> at_req list, 's) service"
  proof (rule wp_mono [OF Cons.IH], goal_cases)
    case (2 x s')
    then obtain j where "sent (ds_world s') = sent (ds_world t) @ take j (tcp_requests h cs)" by blast
    with that show ?case by (intro exI [of _ "Suc (Suc j)"]) simp
  qed (use that in simp)
  show ?case
    by (auto intro!: wp_stack_send_logged rest [unfolded tcp_requests_simps] split: prod.split)
qed

text \<open>The module as the stream of the bytes each socket was given: a payload is taken for the socket
  and the length that were announced for it.\<close>

type_synonym streams = "(socket_handle \<times> nat) option \<times> (socket_handle \<Rightarrow> bytes)"

fun accept_request :: "at_req \<Rightarrow> streams \<Rightarrow> streams" where
  "accept_request (Socket_Data (PrepareWriteSocketDataBinary h n)) (_, f) = (Some (h, n), f)"
| "accept_request (Socket_Data (WriteSocketDataBinary b)) (Some (h, n), f) =
     (None, if length b = n then f(h := f h @ b) else f)"
| "accept_request _ m = m"

definition stream :: "at_req list \<Rightarrow> socket_handle \<Rightarrow> bytes" where
  "stream qs = snd (fold accept_request qs (None, \<lambda>_. []))"

lemma fold_tcp_requests:
  "\<exists>k \<le> length (concat cs). snd (fold accept_request (take j (tcp_requests h cs)) (p, f))
      = f(h := f h @ take k (concat cs)) \<and> (length (tcp_requests h cs) \<le> j \<longrightarrow> k = length (concat cs))"
proof (induction cs arbitrary: j p f)
  case Nil
  show ?case by simp
next
  case (Cons c cs)
  consider "j = 0" | "j = 1" | i where "j = Suc (Suc i)" by (metis One_nat_def not0_implies_Suc)
  then show ?case
  proof cases
    case (3 i)
    obtain k where k: "k \<le> length (concat cs)"
      "snd (fold accept_request (take i (tcp_requests h cs)) (None, f(h := f h @ c)))
        = (f(h := f h @ c))(h := (f(h := f h @ c)) h @ take k (concat cs))"
      "length (tcp_requests h cs) \<le> i \<longrightarrow> k = length (concat cs)"
      using Cons.IH by blast
    with 3 show ?thesis by (intro exI [of _ "length c + k"]) simp
  qed (rule exI [of _ 0]; simp add: fun_eq_iff)+
qed

lemma stream_append_requests:
  "\<exists>k \<le> length (concat cs). stream (qs @ take j (tcp_requests h cs)) = (stream qs)(h := stream qs h @ take k (concat cs))
     \<and> (length (tcp_requests h cs) \<le> j \<longrightarrow> k = length (concat cs))"
  using fold_tcp_requests [of cs j h "fst (fold accept_request qs (None, \<lambda>_. []))" "stream qs"]
  by (simp add: stream_def)


text \<open>A socket that is not connected is not written to.\<close>

lemma wp_tcp_send_logged:
  "wp (tcp_send (logged e) st h buffer)
    (\<lambda>n s'. n = length buffer \<and> sent (ds_world s') = sent (ds_world s) @ tcp_requests h (chunks EGRESS_CHUNK_SIZE buffer))
    (\<lambda>x s'. \<exists>j y. x = Other y \<and>
       sent (ds_world s') = sent (ds_world s) @ take j (tcp_requests h (chunks EGRESS_CHUNK_SIZE buffer))) s"
  by (auto simp: tcp_send_def tcp_is_connected_def wp_get_tcp intro!: wp_mono [OF wp_tcp_write_logged]
      split: option.split sum.split)

section \<open>Room in the set\<close>

section \<open>What a UDP socket sends\<close>

definition udp_requests :: "socket_handle \<Rightarrow> socket_addr \<Rightarrow> bytes list \<Rightarrow> at_req list" where
  "udp_requests h a cs = concat (map (\<lambda>c.
     [Socket_Data (PrepareUDPSendToDataBinary h (fst a) (snd a) (length c)),
      Socket_Data (UDPSendToDataBinary c)]) cs)"

lemma udp_requests_simps [simp]:
  "udp_requests h a [] = []"
  "udp_requests h a (c # cs) = Socket_Data (PrepareUDPSendToDataBinary h (fst a) (snd a) (length c))
     # Socket_Data (UDPSendToDataBinary c) # udp_requests h a cs"
  by (simp_all add: udp_requests_def)

lemma wp_udp_write_logged:
  fixes s :: "('w \<times> at_req list, 's) service"
  shows "wp (udp_write (logged e) h (Some a) cs)
    (\<lambda>_ s'. sent (ds_world s') = sent (ds_world s) @ udp_requests h a cs)
    (\<lambda>_ s'. \<exists>j. sent (ds_world s') = sent (ds_world s) @ take j (udp_requests h a cs)) s"
proof (induction cs arbitrary: s)
  case Nil
  show ?case by simp
next
  case (Cons c cs)
  let ?p = "Socket_Data (PrepareUDPSendToDataBinary h (fst a) (snd a) (length c))"
  let ?w = "Socket_Data (UDPSendToDataBinary c)"
  have rest: "wp (udp_write (logged e) h (Some a) cs)
      (\<lambda>_ s'. sent (ds_world s') = sent (ds_world s) @ udp_requests h a (c # cs))
      (\<lambda>_ s'. \<exists>j. sent (ds_world s') = sent (ds_world s) @ take j (udp_requests h a (c # cs))) t"
    if "sent (ds_world t) = sent (ds_world s) @ [?p, ?w]" for t :: "('w \<times> at_req list, 's) service"
  proof (rule wp_mono [OF Cons.IH], goal_cases)
    case (2 x s')
    then obtain j where "sent (ds_world s') = sent (ds_world t) @ take j (udp_requests h a cs)" by blast
    with that show ?case by (intro exI [of _ "Suc (Suc j)"]) simp
  qed (use that in simp)
  show ?case
    using rest by (cases a) (auto intro!: wp_stack_send_logged split: prod.split)
qed

lemma wp_udp_send_logged:
  fixes s :: "('w \<times> at_req list, 's) service"
  shows "wp (udp_send (logged e) st h buffer)
    (\<lambda>_ s'. buffer = [] \<and> sent (ds_world s') = sent (ds_world s) \<or>
       (\<exists>socks u a. ds_sockets s = Some socks \<and> st_udp st h socks = Inr u \<and> udp_endpoint st u = Some a
          \<and> sent (ds_world s') = sent (ds_world s) @ udp_requests h a (chunks EGRESS_CHUNK_SIZE buffer)))
    (\<lambda>_ s'. sent (ds_world s') = sent (ds_world s) \<or>
       (\<exists>socks u a j. ds_sockets s = Some socks \<and> st_udp st h socks = Inr u \<and> udp_endpoint st u = Some a
          \<and> sent (ds_world s') = sent (ds_world s) @ take j (udp_requests h a (chunks EGRESS_CHUNK_SIZE buffer)))) s"
    (is "wp _ ?Q ?E s")
proof -
  have "wp (udp_write (logged e) h (udp_endpoint st u) (chunks EGRESS_CHUNK_SIZE buffer)) ?Q (\<lambda>x. ?E (Other x)) s"
    if "ds_sockets s = Some socks" "st_udp st h socks = Inr u" for socks u
  proof (cases "udp_endpoint st u")
    case None
    then show ?thesis
      using concat_chunks [of EGRESS_CHUNK_SIZE buffer]
      by (cases "chunks EGRESS_CHUNK_SIZE buffer") (auto simp: EGRESS_CHUNK_SIZE_def)
  next
    case (Some a)
    with that show ?thesis by (cases a) (auto intro!: wp_mono [OF wp_udp_write_logged])
  qed
  then show ?thesis
    by (simp add: udp_send_def wp_get_udp split: option.split sum.split)
qed

section \<open>The set of sockets\<close>

text \<open>The sockets over a world that records what is sent.\<close>

definition logged_stack :: "('w, 's) stack_api \<Rightarrow> ('w \<times> at_req list, 's) stack_api" where
  "logged_stack st =
     \<lparr>st_len = st_len st, st_capacity = st_capacity st,
      st_recycle = (\<lambda>socks (w, l). case st_recycle st socks w of (r, w') \<Rightarrow> (r, w', l)),
      st_add = st_add st, st_remove = st_remove st, st_tcp = st_tcp st, st_udp = st_udp st,
      tcp_new = tcp_new st, tcp_created = tcp_created st, tcp_set_connected = tcp_set_connected st,
      tcp_connected = tcp_connected st, tcp_recv_slice = tcp_recv_slice st, udp_new = udp_new st,
      udp_bind = udp_bind st, udp_is_open = udp_is_open st, udp_endpoint = udp_endpoint st,
      udp_recv_slice = udp_recv_slice st\<rparr>"

lemma wp_recycle_logged:
  assumes "ds_sockets s = Some socks"
    and "\<And>b s' socks' w. st_recycle st socks (fst (ds_world s)) = ((b, socks'), w) \<Longrightarrow> ds_sockets s' = Some socks' \<Longrightarrow>
      sent (ds_world s') = sent (ds_world s) \<Longrightarrow> Q b s'"
  shows "wp (recycle_socket (logged_stack st)) Q E s"
  using assms
  by (cases "ds_world s") (simp add: wp_def recycle_socket_def logged_stack_def split: prod.split)

section \<open>Certificates and profiles\<close>

abbreviation profile_req :: "security_profile_id \<Rightarrow> security_profile_operation \<Rightarrow> at_req" where
  "profile_req p x \<equiv> Security (SecurityProfileManager p (Some x))"

lemma wp_set_profile_logged:
  assumes "\<And>n'. operation_fits x \<Longrightarrow> sent (net_world n') = sent (net_world n) @ [profile_req p x] \<Longrightarrow> Q () n'"
    and "\<And>y n'. operation_fits x \<Longrightarrow> sent (net_world n') = sent (net_world n) @ [profile_req p x] \<Longrightarrow> E y n'"
  shows "wp (set_profile (logged e) p x) Q E n"
proof (cases "operation_fits x")
  case True
  with assms have "wp (net_cmd (logged e) (plain (profile_req p x)) True) Q E n"
    by (auto intro!: wp_net_cmd_logged)
  with True show ?thesis by (simp add: wp_def set_profile_def)
next
  case False
  then show ?thesis by (simp add: wp_def set_profile_def)
qed

text \<open>What \<open>import_data\<close> sends.\<close>

definition import_sequence :: "security_data_type \<Rightarrow> security_profile_id \<Rightarrow> string \<Rightarrow> bytes
    \<Rightarrow> string option \<Rightarrow> (string \<Rightarrow> security_profile_operation) \<Rightarrow> at_req list" where
  "import_sequence ty p name data password op =
     [Security (PrepareSecurityDataImport ty name (length data) password),
      Security (SendSecurityDataImport data), profile_req p (op name)]"

lemma wp_import_logged:
  "wp (import_data (logged e) ty p name data password op)
    (\<lambda>_ n'. length name < 200 \<and> sent (net_world n') = sent (net_world n) @ import_sequence ty p name data password op)
    (\<lambda>_ n'. length name < 200 \<and>
       (\<exists>j. sent (net_world n') = sent (net_world n) @ take j (import_sequence ty p name data password op))) n"
proof (cases "length name < 200")
  case True
  have "wp (thenP (net_cmd (logged e) (plain (Security (PrepareSecurityDataImport ty name (length data) password))) True)
       (thenP (net_cmd (logged e) (send_security_data_import data) True)
              (set_profile (logged e) p (op name))))
    (\<lambda>_ n'. sent (net_world n') = sent (net_world n) @ import_sequence ty p name data password op)
    (\<lambda>_ n'. \<exists>j. sent (net_world n') = sent (net_world n) @ take j (import_sequence ty p name data password op)) n"
    by (auto simp: import_sequence_def intro!: wp_net_cmd_logged wp_set_profile_logged)
  with True show ?thesis by (simp add: wp_def import_data_def)
next
  case False
  then show ?thesis by (simp add: wp_def import_data_def)
qed

text \<open>What \<open>enable_ssl\<close> sends.\<close>

definition ssl_sequence :: "security_profile_id \<Rightarrow> string \<Rightarrow> bool \<Rightarrow> at_req list" where
  "ssl_sequence p hostname sni =
     map (profile_req p)
       [security_profile_operation.CertificateValidationLevel RootCertValidationWithValidityDate,
        CipherSuite 0, ExpectedServerHostname hostname, ServerNameIndication (if sni then hostname else [])]"

lemma wp_enable_ssl_logged:
  "wp (enable_ssl (logged e) p hostname sni)
    (\<lambda>_ n'. length hostname \<le> (if sni then 128 else 256)
       \<and> sent (net_world n') = sent (net_world n) @ ssl_sequence p hostname sni)
    (\<lambda>_ n'. \<exists>j. sent (net_world n') = sent (net_world n) @ take j (ssl_sequence p hostname sni)) n"
  by (auto simp: enable_ssl_def ssl_sequence_def intro!: wp_set_profile_logged)

lemma halts_set_profile [halting]: "operation_fits x \<Longrightarrow> halts (set_profile e p x)"
  using haltsD [OF halts_net_cmd] by (fastforce simp: set_profile_def halts_def)

lemma enable_ssl_panic:
  assumes "enable_ssl e p hostname sni n = None"
  shows "(if sni then 128 else 256) < length hostname"
proof (rule ccontr)
  assume "\<not> ?thesis"
  then have "halts (enable_ssl e p hostname sni)"
    unfolding enable_ssl_def by (intro halting) (auto split: if_splits)
  from haltsD [OF this, of n] assms show False by simp
qed

section \<open>A closed world\<close>

text \<open>A set of at most one socket, numbered by the module; a socket is whether it is connected, the
  peer of a datagram socket, and what it has received.\<close>

type_synonym tiny_socket = "bool \<times> socket_addr option \<times> bytes"

definition tiny_get :: "socket_handle \<Rightarrow> (socket_handle \<times> tiny_socket) list \<Rightarrow> socket_error + tiny_socket" where
  "tiny_get h socks = (case map_of socks h of None \<Rightarrow> Inl InvalidSocket | Some x \<Rightarrow> Inr x)"

definition tiny_recv :: "bytes \<Rightarrow> tiny_socket \<Rightarrow> (socket_error + nat) \<times> bytes \<times> tiny_socket" where
  "tiny_recv buf = (\<lambda>(c, a, b).
     (Inr (min (length buf) (length b)), take (length buf) b @ drop (length b) buf, c, a, drop (length buf) b))"

definition tiny_stack :: "('w, tiny_socket) stack_api" where
  "tiny_stack =
     \<lparr>st_len = length, st_capacity = (\<lambda>_. 1), st_recycle = (\<lambda>socks w. ((False, socks), w)),
      st_add = (\<lambda>x socks. (Inr 0, (0, x) # socks)),
      st_remove = (\<lambda>h socks. (Inr (), filter (\<lambda>(k, _). k \<noteq> h) socks)),
      st_tcp = tiny_get, st_udp = tiny_get,
      tcp_new = (\<lambda>_. (False, None, [])), tcp_created = (\<lambda>(c, _). \<not> c),
      tcp_set_connected = (\<lambda>_ (_, a, b). (True, a, b)), tcp_connected = fst, tcp_recv_slice = tiny_recv,
      udp_new = (\<lambda>_. (True, None, [])), udp_bind = (\<lambda>a (c, _, b). (Inr (), c, Some a, b)),
      udp_is_open = fst, udp_endpoint = (\<lambda>(_, a, _). a), udp_recv_slice = tiny_recv\<rparr>"

abbreviation service_with ::
    "(at_error + at_resp) list \<Rightarrow> (socket_handle \<times> 's) list \<Rightarrow> (script_world \<times> at_req list, 's) service" where
  "service_with as socks \<equiv> \<lparr>ds_network = scripted as, ds_sockets = Some socks\<rparr>"

lemma sent_service_with [simp]: "sent (ds_world (service_with as socks)) = []"
  by (simp add: network_new_def at_tx_new_def)

text \<open>A modem that has the socket \<open>h\<close>.\<close>

definition socket_env :: "u8 \<Rightarrow> instant env" where
  "socket_env h = (obliging_env Toby_R2 pins)\<lparr>send_raw := \<lambda>q t. (Inr (case q of
      Socket (CreateSocket _ _) \<Rightarrow> R_Socket (R_CreateSocketResponse h)
    | _ \<Rightarrow> obliging q), t)\<rparr>"

lemma reports_socket: "reports (socket_env h) (create_socket p x) h"
  by (simp add: reports_def socket_env_def create_socket_def typed_cmd_def)

section \<open>Properties\<close>

text \<open>C9: what a TCP socket is given goes to its stream at the module: a success has added the whole
  buffer to it, an error a part of the buffer from its start, and no other stream changes.\<close>

theorem tcp_send_extends_stream:
  assumes "tcp_send (logged e) st h buffer s = Some (r, s')"
  shows "\<exists>k \<le> length buffer.
      stream (sent (ds_world s')) = (stream (sent (ds_world s)))(h := stream (sent (ds_world s)) h @ take k buffer)
      \<and> (case r of Inr n \<Rightarrow> n = length buffer \<and> k = n | Inl x \<Rightarrow> x \<noteq> WouldBlock)"
proof -
  let ?cs = "chunks EGRESS_CHUNK_SIZE buffer"
  have whole: "concat ?cs = buffer" by (simp add: concat_chunks EGRESS_CHUNK_SIZE_def)
  show ?thesis
  proof (cases r)
    case (Inl x)
    from wpD_Inl [OF wp_tcp_send_logged assms [unfolded Inl]] obtain j where
      "x \<noteq> WouldBlock" "sent (ds_world s') = sent (ds_world s) @ take j (tcp_requests h ?cs)" by auto
    with stream_append_requests [of ?cs "sent (ds_world s)" j h] Inl whole show ?thesis by auto
  next
    case (Inr n)
    from wpD_Inr [OF wp_tcp_send_logged assms [unfolded Inr]] have
      "n = length buffer" "sent (ds_world s') = sent (ds_world s) @ tcp_requests h ?cs" by auto
    with stream_append_requests [of ?cs "sent (ds_world s)" "length (tcp_requests h ?cs)" h] Inr whole
    show ?thesis by auto
  qed
qed

theorem tcp_send_extends_stream_witness:
  "\<exists>s'. tcp_send (logged (script_env Toby_R2 pins)) tiny_stack 0 [104, 105]
       (service_with [Inr R_NoResponse, Inr (R_Socket (R_WriteSocketDataResponse 0 2))] [(0, True, None, [])])
       = Some (Inr 2, s')
     \<and> stream (sent (ds_world s')) 0 = [104, 105]"
  (is "\<exists>s'. ?run = _ \<and> _")
proof -
  have "run_ok ?run" by code_simp
  then obtain n s' where run: "?run = Some (Inr n, s')" by (auto dest: run_okD)
  from tcp_send_extends_stream [OF run] run show ?thesis
    unfolding sent_service_with by (auto simp: stream_def)
qed

text \<open>C26: connecting a socket: only one that was just created, and never before the module was told to
  secure it with profile 0; a success leaves it connected.\<close>

theorem tcp_connect_secures_first:
  assumes "tcp_connect (logged e) st h remote s = Some (r, s')"
  shows "\<exists>j. sent (ds_world s') = sent (ds_world s) @ take j
        [Socket (SetSocketSslState h (ssl_tls_status.Enabled 0)),
         Socket (ConnectSocket h (fst remote) (snd remote))]
      \<and> (case r of
           Inr _ \<Rightarrow> j = 2 \<and> (\<exists>socks t. ds_sockets s = Some socks \<and> st_tcp st h socks = Inr t \<and> tcp_created st t
             \<and> ds_sockets s' = Some (update_first h (tcp_set_connected st remote) socks))
         | Inl x \<Rightarrow> x \<noteq> WouldBlock \<and> ds_sockets s' = ds_sockets s)"
proof -
  let ?qs = "[Socket (SetSocketSslState h (ssl_tls_status.Enabled 0)),
         Socket (ConnectSocket h (fst remote) (snd remote))]"
  have "wp (tcp_connect (logged e) st h remote)
    (\<lambda>_ s'. sent (ds_world s') = sent (ds_world s) @ take 2 ?qs
       \<and> (\<exists>socks t. ds_sockets s = Some socks \<and> st_tcp st h socks = Inr t \<and> tcp_created st t
             \<and> ds_sockets s' = Some (update_first h (tcp_set_connected st remote) socks)))
    (\<lambda>x s'. x \<noteq> WouldBlock \<and> ds_sockets s' = ds_sockets s
       \<and> (\<exists>j. sent (ds_world s') = sent (ds_world s) @ take j ?qs)) s"
    by (auto simp: tcp_connect_def wp_get_tcp wp_on_sockets intro!: wp_stack_send_logged
        split: option.split sum.split)
  with assms show ?thesis by (cases r) (auto simp: wp_def)
qed

theorem tcp_connect_secures_first_witness:
  "\<exists>s'. tcp_connect (logged (script_env Toby_R2 pins)) tiny_stack 0 (ipv4_unspecified, 80)
       (service_with [Inr R_NoResponse, Inr R_NoResponse] [(0, False, None, [])]) = Some (Inr (), s')
     \<and> ds_sockets s' = Some [(0, True, None, [])]"
  (is "\<exists>s'. ?run = _ \<and> _")
proof -
  have "run_ok ?run" by code_simp
  then obtain s' where run: "?run = Some (Inr (), s')" by (auto dest: run_okD)
  from tcp_connect_secures_first [OF run] run show ?thesis by (auto simp: tiny_stack_def)
qed

text \<open>C25: a datagram socket sends to its endpoint only: a success has sent the whole buffer, in chunks
  that are not empty and no longer than \<open>EGRESS_CHUNK_SIZE\<close>, each announced with its length; an error
  stops this sequence.\<close>

theorem udp_send_reaches_endpoint:
  assumes "udp_send (logged e) st h buffer s = Some (r, s')"
  shows "sent (ds_world s') = sent (ds_world s) \<and> (is_err r \<or> buffer = []) \<or>
    (\<exists>socks u a cs j. ds_sockets s = Some socks \<and> st_udp st h socks = Inr u \<and> udp_endpoint st u = Some a
       \<and> concat cs = buffer \<and> (\<forall>c \<in> set cs. 0 < length c \<and> length c \<le> EGRESS_CHUNK_SIZE)
       \<and> sent (ds_world s') = sent (ds_world s) @ take j (udp_requests h a cs)
       \<and> (\<not> is_err r \<longrightarrow> j = length (udp_requests h a cs)))"
proof -
  let ?cs = "chunks EGRESS_CHUNK_SIZE buffer"
  have cs: "concat ?cs = buffer" "\<forall>c \<in> set ?cs. 0 < length c \<and> length c \<le> EGRESS_CHUNK_SIZE"
    using chunks_size by (auto simp: concat_chunks EGRESS_CHUNK_SIZE_def)
  show ?thesis
  proof (cases r)
    case (Inl x)
    from wpD_Inl [OF wp_udp_send_logged assms [unfolded Inl]] Inl cs show ?thesis by fastforce
  next
    case (Inr u)
    from wpD_Inr [OF wp_udp_send_logged assms [unfolded Inr]] Inr cs show ?thesis
      by (auto intro!: exI [of _ ?cs])
  qed
qed

theorem udp_send_reaches_endpoint_witness:
  "\<exists>s'. udp_send (logged (script_env Toby_R2 pins)) tiny_stack 0 [104, 105]
       (service_with [Inr R_NoResponse, Inr (R_Socket (R_UDPSendToDataResponse 0 2))]
          [(0, True, Some (ipv4_unspecified, 53), [])]) = Some (Inr (), s')
     \<and> (\<exists>cs. concat cs = [104, 105] \<and> sent (ds_world s') = udp_requests 0 (ipv4_unspecified, 53) cs)"
  (is "\<exists>s'. ?run = _ \<and> _")
proof -
  have "run_ok ?run" by code_simp
  then obtain s' where run: "?run = Some (Inr (), s')" by (auto dest: run_okD)
  from udp_send_reaches_endpoint [OF run] have
    "\<exists>u a cs. tiny_get 0 [(0, True, Some (ipv4_unspecified, 53), [])] = Inr u \<and> udp_endpoint tiny_stack u = Some a
       \<and> concat cs = [104, 105] \<and> sent (ds_world s') = udp_requests 0 a cs"
    unfolding sent_service_with by (simp add: tiny_stack_def) blast
  with run show ?thesis by (auto simp: tiny_stack_def tiny_get_def)
qed

text \<open>C27: a TCP socket is asked of the module only when there is room for it: in a full set that has none
  to recycle the call fails and nothing is sent; otherwise one request is. In success the set has been given a new socket
  with the handle the module named, and the call hands out what the set calls it; on an error the set is as it was, but for what
  was recycled and what it made of the new socket.\<close>

theorem tcp_socket_needs_room:
  assumes "tcp_socket (logged e) (logged_stack st) s = Some (r, s')" "ds_sockets s = Some socks"
    and "reports e (create_socket socket_protocol.TCP None) named"
  defines "recycled \<equiv> fst (st_recycle st socks (fst (ds_world s)))"
  defines "room \<equiv> if st_capacity st socks \<le> st_len st socks then snd recycled else socks"
  shows "if st_capacity st socks \<le> st_len st socks \<and> \<not> fst recycled
    then r = Inl SocketSetFull \<and> sent (ds_world s') = sent (ds_world s) \<and> ds_sockets s' = Some room
    else sent (ds_world s') = sent (ds_world s) @ [Socket (CreateSocket socket_protocol.TCP None)]
      \<and> (case r of
           Inr h \<Rightarrow> \<exists>socks'. st_add st (tcp_new st named) room = (Inr h, socks') \<and> ds_sockets s' = Some socks'
         | Inl x \<Rightarrow> x = Unaddressable \<and> ds_sockets s' = Some room
             \<or> (\<exists>socks'. st_add st (tcp_new st named) room = (Inl x, socks') \<and> ds_sockets s' = Some socks'))"
proof -
  let ?full = "st_capacity st socks \<le> st_len st socks \<and> \<not> fst recycled"
  let ?asked = "\<lambda>s'. sent (ds_world s') = sent (ds_world s) @ [Socket (CreateSocket socket_protocol.TCP None)]"
  let ?Q = "\<lambda>h s'. \<not> ?full \<and> ?asked s'
    \<and> (\<exists>socks'. st_add st (tcp_new st named) room = (Inr h, socks') \<and> ds_sockets s' = Some socks')"
  let ?E = "\<lambda>x s'. if ?full then x = SocketSetFull \<and> sent (ds_world s') = sent (ds_world s) \<and> ds_sockets s' = Some room
    else ?asked s' \<and> (x = Unaddressable \<and> ds_sockets s' = Some room
      \<or> (\<exists>socks'. st_add st (tcp_new st named) room = (Inl x, socks') \<and> ds_sockets s' = Some socks'))"
  have ask: "wp (bindP (stack_send (logged e) (create_socket socket_protocol.TCP None) True)
      (\<lambda>h. on_sockets (st_add st (tcp_new st h))))
      (\<lambda>h s'. ?asked s' \<and> (\<exists>socks'. st_add st (tcp_new st named) space = (Inr h, socks') \<and> ds_sockets s' = Some socks'))
      (\<lambda>x s'. ?asked s' \<and> (x = Unaddressable \<and> ds_sockets s' = Some space
        \<or> (\<exists>socks'. st_add st (tcp_new st named) space = (Inl x, socks') \<and> ds_sockets s' = Some socks'))) t"
    if "sent (ds_world t) = sent (ds_world s)" "ds_sockets t = Some space" for t space
    unfolding wp_bindP wp_on_sockets
    using that by (intro wp_stack_send_reported [OF assms(3)]) (auto split: prod.split sum.split)
  have st: "st_len (logged_stack st) = st_len st" "st_capacity (logged_stack st) = st_capacity st"
    "tcp_new (logged_stack st) = tcp_new st" "st_add (logged_stack st) = st_add st"
    by (simp_all add: logged_stack_def)
  have "wp (tcp_socket (logged e) (logged_stack st)) ?Q ?E s"
  proof (cases "st_capacity st socks \<le> st_len st socks")
    case True
    have "wp (bindP (recycle_socket (logged_stack st)) (\<lambda>ok. if ok then okP () else errP SocketSetFull))
        (\<lambda>_. wp (bindP (stack_send (logged e) (create_socket socket_protocol.TCP None) True)
          (\<lambda>h. on_sockets (st_add st (tcp_new st h)))) ?Q ?E) ?E s"
      unfolding wp_bindP [of "recycle_socket st'" for st']
      using True by (intro wp_recycle_logged [OF assms(2)])
        (auto simp: recycled_def room_def simp del: wp_bindP intro!: ask)
    with True show ?thesis
      unfolding tcp_socket_def open_socket_def wp_with_sockets assms(2) option.case st wp_thenP by simp
  next
    case False
    then show ?thesis
      unfolding tcp_socket_def open_socket_def wp_with_sockets assms(2) option.case st wp_thenP
      by (auto simp: room_def assms(2) simp del: wp_bindP intro!: ask)
  qed
  with assms(1) show ?thesis by (cases r) (auto simp: wp_def split: if_splits)
qed

theorem tcp_socket_needs_room_witness:
  "\<exists>s'. tcp_socket (logged (socket_env 0)) (logged_stack tiny_stack)
       \<lparr>ds_network = network_new (at_tx_new (0, [])), ds_sockets = Some []\<rparr> = Some (Inr 0, s')
     \<and> sent (ds_world s') = [Socket (CreateSocket socket_protocol.TCP None)]
     \<and> ds_sockets s' = Some [(0, tcp_new (tiny_stack :: (instant, tiny_socket) stack_api) 0)]"
proof -
  let ?s = "\<lparr>ds_network = network_new (at_tx_new (0, [])), ds_sockets = Some []\<rparr> :: (instant \<times> at_req list, tiny_socket) service"
  obtain s' where run: "tcp_socket (logged (socket_env 0)) (logged_stack tiny_stack) ?s = Some (Inr 0, s')"
    by (simp add: tcp_socket_def open_socket_def with_sockets_def logged_stack_def tiny_stack_def stack_send_def
        on_ds_net_def send_internal_def socket_env_def logged_def obliging_env_def at_send_run send_retry_def
        handle_urc_run network_new_def at_tx_new_def prog_defs whenP_def on_sockets_def create_socket_def typed_cmd_def)
  from tcp_socket_needs_room [OF run _ reports_socket] run show ?thesis
    by (auto simp: tiny_stack_def network_new_def at_tx_new_def)
qed

text \<open>C28: setting up a security profile: a success has sent the four operations in order, an error
  the first of them; the run panics only for a host name that is too long, and never succeeds with
  one.\<close>

theorem enable_ssl_outcome:
  "case enable_ssl (logged e) p hostname sni n of
     None \<Rightarrow> (if sni then 128 else 256) < length hostname
   | Some (Inl x, n') \<Rightarrow> \<exists>j. sent (net_world n') = sent (net_world n) @ take j (ssl_sequence p hostname sni)
   | Some (Inr _, n') \<Rightarrow> length hostname \<le> (if sni then 128 else 256)
       \<and> sent (net_world n') = sent (net_world n) @ ssl_sequence p hostname sni"
  using wp_enable_ssl_logged [of e p hostname sni n] enable_ssl_panic [of "logged e" p hostname sni n]
  by (auto simp: wp_def split: option.splits sum.splits)

text \<open>An import announces the length of the data, sends the data and then names it in the profile;
  each kind of data goes to its own kind of name, and nothing is sent for a name of 200 characters.\<close>

theorem imports_in_order:
  assumes "import_certificate (logged e) p name data n = Some (Inr (), n1)"
    and "import_root_ca (logged e) p name data n1 = Some (Inr (), n2)"
    and "import_private_key (logged e) p name data password n2 = Some (Inr (), n3)"
  shows "length name < 200 \<and> sent (net_world n3) = sent (net_world n)
     @ import_sequence ClientCertificate p name data None ClientCertificateInternalName
     @ import_sequence TrustedRootCA p name data None TrustedRootCertificateInternalName
     @ import_sequence ClientPrivateKey p name data password ClientPrivateKeyInternalName"
  using assms wpD_Inr [OF wp_import_logged]
  by (force simp: import_certificate_def import_root_ca_def import_private_key_def)

theorem imports_in_order_witness:
  "\<exists>n1 n2 n3. import_certificate (logged (script_env Toby_R2 pins)) 0 ''c'' [1, 2]
       (scripted (concat (replicate 3 [Inr R_NoResponse, Inr (R_Security (R_SecurityDataImport
          \<lparr>sdi_op_code = ImportStream, sdi_data_type = ClientCertificate, sdi_internal_name = [],
           sdi_md5_string = []\<rparr>)), Inr R_NoResponse]))) = Some (Inr (), n1)
     \<and> import_root_ca (logged (script_env Toby_R2 pins)) 0 ''c'' [1, 2] n1 = Some (Inr (), n2)
     \<and> import_private_key (logged (script_env Toby_R2 pins)) 0 ''c'' [1, 2] None n2 = Some (Inr (), n3)
     \<and> length (sent (net_world n3)) = 9"
  (is "\<exists>n1 n2 n3. import_certificate ?e _ _ _ ?n = _ \<and> _")
proof -
  have "run_ok (thenP (import_certificate ?e 0 ''c'' [1, 2])
      (thenP (import_root_ca ?e 0 ''c'' [1, 2]) (import_private_key ?e 0 ''c'' [1, 2] None)) ?n)"
    by code_simp
  then obtain n1 n2 n3 where run: "import_certificate ?e 0 ''c'' [1, 2] ?n = Some (Inr (), n1)"
    "import_root_ca ?e 0 ''c'' [1, 2] n1 = Some (Inr (), n2)"
    "import_private_key ?e 0 ''c'' [1, 2] None n2 = Some (Inr (), n3)"
    by (auto simp: thenP_def bindP_Inr dest!: run_okD)
  from imports_in_order [OF run] run show ?thesis
    by (auto simp: import_sequence_def network_new_def at_tx_new_def)
qed

text \<open>Closing a socket takes it out of the set whatever the module answers: one request is sent, and
  the result is the result of the removal.\<close>

theorem close_socket_frees:
  assumes "close_socket (logged e) st h s = Some (r, s')" "ds_sockets s = Some socks"
  shows "sent (ds_world s') = sent (ds_world s) @ [Socket (CloseSocket h)]
    \<and> r = fst (st_remove st h socks) \<and> ds_sockets s' = Some (snd (st_remove st h socks))"
proof -
  let ?P = "\<lambda>r s'. sent (ds_world s') = sent (ds_world s) @ [Socket (CloseSocket h)]
    \<and> r = fst (st_remove st h socks) \<and> ds_sockets s' = Some (snd (st_remove st h socks))"
  have "wp (close_socket (logged e) st h) (\<lambda>a. ?P (Inr a)) (\<lambda>x. ?P (Inl x)) s"
    by (auto simp: close_socket_def wp_with_sockets wp_on_sockets assms(2) intro!: wp_stack_send_logged
        split: prod.split sum.split)
  with assms(1) show ?thesis by (cases r) (auto simp: wp_def)
qed

theorem close_socket_frees_witness:
  "\<exists>s'. close_socket (logged (script_env Toby_R2 pins)) tiny_stack 0
       (service_with [Inl At_Error] [(0, True, None, [])]) = Some (Inr (), s')
     \<and> ds_sockets s' = Some []"
  (is "\<exists>s'. ?run = _ \<and> _")
proof -
  have "run_ok ?run" by code_simp
  then obtain s' where run: "?run = Some (Inr (), s')" by (auto dest: run_okD)
  from close_socket_frees [OF run] run show ?thesis by (simp add: tiny_stack_def)
qed

end
