(* ===== verification/Lifecycle.thy ===== *)
theory Lifecycle
  imports Stack_Proofs
begin

text \<open>
  The life of a device as a transition system: \<open>dev_step\<close> is one call of an operation of \<open>Device\<close>,
  of the power control or of a \<open>DataService\<close>, with any arguments and whatever the modem and the
  network do; \<open>reachable\<close> is what a sequence of calls can lead to. The locale \<open>life_relation\<close> carries a
  relation through every call; it is interpreted on the registration invariant of \<open>Network_Proofs\<close>, and on the
  relation that says that a fully initialized device looks for its network.
\<close>

section \<open>Calls on a service\<close>

inductive service_step ::
    "'w env \<Rightarrow> ('w, 's) stack_api \<Rightarrow> ('w, 's) service \<Rightarrow> ('w, 's) service \<Rightarrow> bool"
  for e st where
  tcp_socket: "tcp_socket e st s = Some (r, s') \<Longrightarrow> service_step e st s s'"
| tcp_connect: "tcp_connect e st h a s = Some (r, s') \<Longrightarrow> service_step e st s s'"
| tcp_send: "tcp_send e st h b s = Some (r, s') \<Longrightarrow> service_step e st s s'"
| tcp_receive: "tcp_receive st h (b, s) = Some (r, b', s') \<Longrightarrow> service_step e st s s'"
| udp_socket: "udp_socket e st s = Some (r, s') \<Longrightarrow> service_step e st s s'"
| udp_connect: "udp_connect st h a s = Some (r, s') \<Longrightarrow> service_step e st s s'"
| udp_send: "udp_send e st h b s = Some (r, s') \<Longrightarrow> service_step e st s s'"
| udp_receive: "udp_receive st h (b, s) = Some (r, b', s') \<Longrightarrow> service_step e st s s'"
| close: "close_socket e st h s = Some (r, s') \<Longrightarrow> service_step e st s s'"
| by_address: "get_host_by_address e show_ip ip s = Some (r, s') \<Longrightarrow> service_step e st s s'"
| by_name: "get_host_by_name e parse_ip n ty s = Some (r, s') \<Longrightarrow> service_step e st s s'"
| certificate: "on_ds_net (import_certificate e p n b) s = Some (r, s') \<Longrightarrow> service_step e st s s'"
| root_ca: "on_ds_net (import_root_ca e p n b) s = Some (r, s') \<Longrightarrow> service_step e st s s'"
| private_key: "on_ds_net (import_private_key e p n b pw) s = Some (r, s') \<Longrightarrow> service_step e st s s'"
| enable_ssl: "on_ds_net (enable_ssl e p n sni) s = Some (r, s') \<Longrightarrow> service_step e st s s'"
| send_at: "service_send_at e (c :: unit at_cmd) s = Some (r, s') \<Longrightarrow> service_step e st s s'"
| handle_urc: "service_handle_urc e f () s = Some (r, s') \<Longrightarrow> service_step e st s s'"

text \<open>The rules take commands and closures without a value; what they hand out makes no difference to the
  service.\<close>

definition valueless :: "'r at_cmd \<Rightarrow> unit at_cmd" where
  "valueless c = \<lparr>cmd_req = cmd_req c, cmd_parse = (\<lambda>r. map_option (\<lambda>_. ()) (cmd_parse c r))\<rparr>"

lemma send_internal_valueless:
  "send_internal e c b n = Some (r, n') \<Longrightarrow> send_internal e (valueless c) b n = Some (map_sum id (\<lambda>_. ()) r, n')"
  by (auto simp: send_internal_def thenP_def bindP_def zoom_def at_send_run send_retry_def valueless_def
      attempts_def split: option.splits sum.splits prod.splits)

lemma service_step_send_at:
  assumes "service_send_at e c s = Some (r, s')"
  shows "service_step e st s s'"
proof -
  obtain q n' where "send_internal e c True (ds_network s) = Some (q, n')" "s' = s\<lparr>ds_network := n'\<rparr>"
    using assms by (auto simp: service_send_at_def on_ds_net_def zoom_def net_send_def map_errP_def split: option.splits)
  from send_internal_valueless [OF this(1)] this(2)
  show ?thesis
    by (intro service_step.send_at [of e "valueless c" s "map_sum data_of_network id (map_sum id (\<lambda>_. ()) q)"])
      (simp add: service_send_at_def on_ds_net_def zoom_def net_send_def map_errP_def)
qed

lemma service_step_handle_urc:
  assumes "service_handle_urc e f captured s = Some (r, s')"
  shows "service_step e st s s'"
proof (rule service_step.handle_urc)
  show "service_handle_urc e (\<lambda>u _. ((), snd (f u captured))) () s = Some (Inr (), s')"
    using assms by (auto simp: service_handle_urc_def on_ds_net_def zoom_def at_handle_urc_def bindP_def okP_def
        map_errP_def try_next_message_def split: option.splits prod.splits)
qed

text \<open>None of them touches the registration.\<close>

definition untouched :: "('w, 's) service \<Rightarrow> ('w, 's) service \<Rightarrow> bool" where
  "untouched s s' \<longleftrightarrow> net_status (ds_network s') = net_status (ds_network s)"

interpretation untouched: step_relation untouched
  by unfold_locales (auto simp: untouched_def)

lemma untouched_net: "keeps status_kept m \<Longrightarrow> keeps untouched (on_ds_net m)"
  unfolding on_ds_net_def by (erule keeps_zoom) (simp add: untouched_def status_kept_def)

lemma untouched_send: "keeps untouched (stack_send e c b)"
  unfolding stack_send_def by (intro untouched.map_errP untouched_net status_rules) simp

lemma untouched_with_sockets: "(\<And>socks. keeps untouched (f socks)) \<Longrightarrow> keeps untouched (with_sockets f)"
  unfolding with_sockets_def by (intro untouched.bindP untouched.getsP untouched.case_option untouched.errP)

lemma untouched_on_sockets: "keeps untouched (on_sockets f)"
  by (rule keepsI) (auto simp: on_sockets_def untouched_def split: option.splits prod.splits)

lemma untouched_recycle: "keeps untouched (recycle_socket st)"
  by (rule keepsI) (auto simp: recycle_socket_def untouched_def split: option.splits prod.splits)

lemma untouched_get: "keeps untouched (get_tcp st h)" "keeps untouched (get_udp st h)"
  unfolding get_tcp_def get_udp_def
  by (intro untouched_with_sockets untouched.case_sum untouched.rules)+

lemma untouched_profile: "keeps status_kept (set_profile e p x)"
  using keepsD [OF status_kept_cmd] by (auto simp: keeps_def set_profile_def split: if_splits)

lemmas untouched_rules =
  untouched.rules untouched_send untouched_with_sockets untouched_on_sockets untouched_recycle
  untouched_get untouched_net

lemma untouched_open: "keeps untouched (open_socket e st pr b new)"
  unfolding open_socket_def by (intro untouched_rules)

lemma untouched_tcp_write: "keeps untouched (tcp_write e h cs)"
proof (induction cs)
  case (Cons c cs)
  then show ?case by (auto intro!: untouched_rules split: prod.split)
qed (simp add: untouched.okP)

lemma untouched_udp_write: "keeps untouched (udp_write e h a cs)"
proof (induction cs)
  case (Cons c cs)
  then show ?case by (auto intro!: untouched_rules split: prod.split option.split)
qed (simp add: untouched.okP)

lemma untouched_import: "keeps status_kept (import_data e ty p n b pw op)"
proof -
  have "keeps status_kept (thenP (net_cmd e (plain (Security (PrepareSecurityDataImport ty n (length b) pw))) True)
       (thenP (net_cmd e (send_security_data_import b) True) (set_profile e p (op n))))"
    by (intro status_rules untouched_profile)
  then show ?thesis by (auto simp: keeps_def import_data_def split: if_splits)
qed

lemma untouched_enable_ssl: "keeps status_kept (enable_ssl e p n sni)"
  unfolding enable_ssl_def by (intro status_rules untouched_profile)

lemma untouched_receive:
  "tcp_receive st h (b, s) = Some (r, b', s') \<Longrightarrow> untouched s s'"
  "udp_receive st h (b, s) = Some (q, b', s') \<Longrightarrow> untouched s s'"
  by (auto simp: tcp_receive_def udp_receive_def untouched_def dest!: keepsD [OF untouched_get(1)]
      keepsD [OF untouched_get(2)] split: option.splits sum.splits prod.splits)

lemma service_step_untouched: "service_step e st s s' \<Longrightarrow> untouched s s'"
proof (induction rule: service_step.induct)
  case tcp_socket
  then show ?case unfolding tcp_socket_def by (rule keepsD [OF untouched_open])
next
  case tcp_connect
  then show ?case unfolding tcp_connect_def
    by (rule keepsD [rotated]) (intro untouched_rules)
next
  case tcp_send
  then show ?case unfolding tcp_send_def tcp_is_connected_def
    by (rule keepsD [rotated]) (intro untouched_rules untouched_tcp_write)
next
  case tcp_receive
  then show ?case by (rule untouched_receive)
next
  case udp_socket
  then show ?case unfolding udp_socket_def by (rule keepsD [OF untouched_open])
next
  case udp_connect
  then show ?case unfolding udp_connect_def put_socket_def
    by (rule keepsD [rotated]) (auto intro!: untouched_rules split: prod.split sum.split)
next
  case udp_send
  then show ?case unfolding udp_send_def
    by (rule keepsD [rotated]) (intro untouched_rules untouched_udp_write)
next
  case udp_receive
  then show ?case by (rule untouched_receive)
next
  case close
  then show ?case unfolding close_socket_def by (rule keepsD [rotated]) (intro untouched_rules)
next
  case by_address
  then show ?case unfolding get_host_by_address_def
    by (rule keepsD [rotated]) (intro untouched_rules)
next
  case by_name
  then show ?case unfolding get_host_by_name_def
    by (rule keepsD [rotated]) (intro untouched_rules)
next
  case certificate
  then show ?case unfolding import_certificate_def
    by (rule keepsD [OF untouched_net [OF untouched_import]])
next
  case root_ca
  then show ?case unfolding import_root_ca_def
    by (rule keepsD [OF untouched_net [OF untouched_import]])
next
  case private_key
  then show ?case unfolding import_private_key_def
    by (rule keepsD [OF untouched_net [OF untouched_import]])
next
  case enable_ssl
  then show ?case by (rule keepsD [OF untouched_net [OF untouched_enable_ssl]])
next
  case send_at
  then show ?case unfolding service_send_at_def
    by (rule keepsD [OF untouched_net [OF status_kept_send]])
next
  case handle_urc
  then show ?case
    by (auto simp: service_handle_urc_def on_ds_net_def zoom_def at_handle_urc_def bindP_def okP_def map_errP_def
        try_next_message_def untouched_def split: option.splits prod.splits)
qed

lemma untouched_ingress: "keeps untouched (socket_ingress_all e k)"
  by (rule keepsI) (auto simp: socket_ingress_all_def untouched_def dest: ingress_loop_frame split: option.splits)

section \<open>Calls on a device\<close>

inductive dev_step ::
    "'w env \<Rightarrow> ('w, 's) socket_api \<Rightarrow> ('w, 's) stack_api \<Rightarrow> ('w, 's) device \<Rightarrow> ('w, 's) device \<Rightarrow> bool"
  for e k st where
  initialize: "initialize e k d = Some (r, d') \<Longrightarrow> dev_step e k st d d'"
| setup_commands: "setup_at_commands e k d = Some (r, d') \<Longrightarrow> dev_step e k st d d'"
| process_events: "dev_process_events e k d = Some (r, d') \<Longrightarrow> dev_step e k st d d'"
| spin: "spin e k d = Some (r, d') \<Longrightarrow> dev_step e k st d d'"
| send_at: "send_at e (c :: unit at_cmd) d = Some (r, d') \<Longrightarrow> dev_step e k st d d'"
| signal_strength: "signal_strength e d = Some (r, d') \<Longrightarrow> dev_step e k st d d'"
| set_sockets: "set_socket_storage k socks d = Some (Inr () :: device_error + unit, d') \<Longrightarrow> dev_step e k st d d'"
| take_sockets: "take_socket_storage d = Some (Inr socks :: device_error + (socket_handle \<times> 's) list option, d') \<Longrightarrow> dev_step e k st d d'"
| power_on: "power_on e d = Some (r, d') \<Longrightarrow> dev_step e k st d d'"
| hard_reset: "hard_reset e d = Some (r, d') \<Longrightarrow> dev_step e k st d d'"
| factory_reset: "factory_reset e d = Some (r, d') \<Longrightarrow> dev_step e k st d d'"
| soft_power_off: "soft_power_off e d = Some (r, d') \<Longrightarrow> dev_step e k st d d'"
| hard_power_off: "hard_power_off e d = Some (r, d') \<Longrightarrow> dev_step e k st d d'"
| data_service: "data_service e k info d = Some (r, d') \<Longrightarrow> dev_step e k st d d'"
| service: "service_step e st \<lparr>ds_network = dev_network d, ds_sockets = dev_sockets d\<rparr> s \<Longrightarrow>
    dev_step e k st d (d\<lparr>dev_network := ds_network s, dev_sockets := ds_sockets s\<rparr>)"

lemma send_at_on: "dev_state d \<noteq> State_Off \<Longrightarrow> send_at e c d = dev_send e c True d"
  by (cases "dev_state d") (simp_all add: send_at_def bindP_def getsP_def)

lemma dev_step_send_at:
  assumes "send_at e c d = Some (r, d')"
  shows "dev_step e k st d d'"
proof (cases "dev_state d = State_Off")
  case True
  with assms show ?thesis
    by (intro dev_step.send_at [of e "valueless c" d "Inl Uninitialized"])
      (auto simp: send_at_def bindP_def getsP_def errP_def)
next
  case False
  with assms obtain q n' where "send_internal e c True (dev_network d) = Some (q, n')" "d' = d\<lparr>dev_network := n'\<rparr>"
    by (auto simp: send_at_on dev_send_def on_net_def zoom_def map_errP_def split: option.splits)
  from send_internal_valueless [OF this(1)] this(2) False show ?thesis
    by (intro dev_step.send_at [of e "valueless c" d "map_sum device_of_network id (map_sum id (\<lambda>_. ()) q)"])
      (simp add: send_at_on dev_send_def on_net_def zoom_def map_errP_def)
qed

inductive reachable ::
    "'w env \<Rightarrow> ('w, 's) socket_api \<Rightarrow> ('w, 's) stack_api \<Rightarrow> ('w, 's) device \<Rightarrow> bool"
  for e k st where
  new: "reachable e k st (device_new w)"
| step: "reachable e k st d \<Longrightarrow> dev_step e k st d d' \<Longrightarrow> reachable e k st d'"

section \<open>Relations that every call keeps\<close>

text \<open>A relation that ignores the world, the sockets, the power and the context, and any state but
  \<open>FullyInitialized\<close>, is kept by everything but the configuration and the network state machine. Where
  these keep it as well, every call does.\<close>

locale call_relation = step_relation R
  for R :: "('w, 's) device \<Rightarrow> ('w, 's) device \<Rightarrow> bool" +
  assumes R_device: "net_status (dev_network d') = net_status (dev_network d) \<Longrightarrow>
    (dev_state d' = FullyInitialized \<Longrightarrow> dev_state d = FullyInitialized) \<Longrightarrow> R d d'"
begin

lemma frame_call: "keeps cmd_frame m \<Longrightarrow> keeps R m"
  by (erule keeps_mono) (auto simp: cmd_frame_def intro!: R_device)

lemma status_call: "keeps status_kept m \<Longrightarrow> keeps R (on_net m)"
  unfolding on_net_def by (erule keeps_zoom) (auto simp: status_kept_def intro!: R_device)

lemma service_call: "keeps untouched m \<Longrightarrow> keeps R (on_service m)"
  unfolding on_service_def by (erule keeps_zoom) (auto simp: untouched_def intro!: R_device)

lemma simple_calls:
  "s \<noteq> FullyInitialized \<Longrightarrow> keeps R (set_state s)" "keeps R (set_context c)" "keeps R (set_power p)"
  "keeps R (clear_buffers k)"
  by (auto simp: set_state_def set_context_def set_power_def clear_buffers_def on_net_def zoom_def modifyP_def
      keeps_def intro!: R_device)

lemma urc_call: "keeps R (handle_urc_internal e k)"
  by (rule keepsI) (auto simp: handle_urc_internal_def bindP_def getsP_def okP_def on_dev_world_run
      try_next_message_def modifyP_def put_world_def put_tx_def intro!: R_device
      split: option.splits prod.splits)

end

sublocale call_relation \<subseteq> switched: switch_relation R e "\<lambda>_. True" for e
  by unfold_locales (auto simp: put_world_def put_tx_def intro!: R_device)

context call_relation
begin

lemmas call_rules =
  switched.power_rules switched.hard_reset switched.power_on switched.hard_power_off switched.power_state
  switched.soft_reset_allowed simple_calls
  cmd_frame_cmd [THEN frame_call] cmd_frame_send [THEN frame_call] cmd_frame_sim [THEN frame_call]
  cmd_frame.is_alive [THEN frame_call]

lemma setup_call: "keeps R (setup_at_commands e k)"
  unfolding setup_at_commands_def setup_commands_def by (intro call_rules) simp_all

lemma power_calls:
  "keeps R (factory_reset e)" "keeps R (soft_power_off e)" "keeps R (send_at e c)"
  unfolding factory_reset_def soft_power_off_def send_at_def
  by (intro call_rules; simp)+ (auto intro!: call_rules split: state.split)

end

locale life_relation = call_relation R
  for R :: "('w, 's) device \<Rightarrow> ('w, 's) device \<Rightarrow> bool" +
  fixes e :: "'w env" and k :: "('w, 's) socket_api"
  assumes R_events: "keeps R (on_net (net_process_events e))"
    and R_configure: "keeps R (configure e k)"
begin

lemma initialize_call: "keeps R (initialize e k)"
  unfolding initialize_def by (intro call_rules) (auto intro!: call_rules R_configure split: prod.split)

lemma events_call: "keeps R (dev_process_events e k)"
  unfolding dev_process_events_def by (intro call_rules urc_call R_events)

lemma spin_call: "keeps R (spin e k)"
  unfolding spin_def by (intro call_rules initialize_call events_call)

lemma data_call: "keeps R (data_service e k info)"
  unfolding data_service_def define_device_context_def try_new_def
  by (intro call_rules spin_call status_call status_kept_define service_call untouched_rules
      untouched_ingress status_kept_connect)
    (auto intro!: call_rules status_call [OF status_kept_define] split: nb.split)

lemma step_call: "dev_step e k st d d' \<Longrightarrow> R d d'"
proof (induction rule: dev_step.induct)
  case set_sockets
  then show ?case by (auto simp: set_socket_storage_def modifyP_def intro!: R_device)
next
  case take_sockets
  then show ?case by (auto simp: take_socket_storage_def prog_defs intro!: R_device)
next
  case service
  then show ?case by (auto simp: untouched_def intro!: R_device dest!: service_step_untouched)
qed (auto simp: signal_strength_def elim!: keepsD [rotated] intro!: initialize_call setup_call events_call spin_call
    power_calls switched.power_on switched.hard_reset switched.hard_power_off data_call)

end

text \<open>The registration invariant is such a relation.\<close>

definition armed :: "('w, 's) device \<Rightarrow> ('w, 's) device \<Rightarrow> bool" where
  "armed d d' \<longleftrightarrow> keeps_inv (dev_network d) (dev_network d')"

interpretation armed: call_relation armed
  by unfold_locales (auto simp: armed_def keeps_inv_def net_inv_def)

lemma armed_net: "keeps keeps_inv m \<Longrightarrow> keeps armed (on_net m)"
  unfolding on_net_def by (erule keeps_zoom) (simp add: armed_def)

lemma armed_restart:
  assumes "keeps armed m"
  shows "keeps armed (thenP (on_net (on_status (registration_reset e)))
    (thenP (on_net (modify_status (set_connection_state Connecting))) m))"
proof -
  have "keeps armed (thenP (on_net (on_status (registration_reset e)))
      (on_net (modify_status (set_connection_state Connecting)) :: (('a, 'b) device, 'c, unit) prog))"
    by (rule keepsI)
      (auto simp: thenP_def bindP_def on_net_def on_status_def zoom_def modifyP_def registration_reset_run
        set_connection_state_def armed_def keeps_inv_def net_inv_def split: prod.splits)
  from armed.thenP [OF this assms] show ?thesis by (simp add: thenP_def bindP_assoc)
qed

lemma armed_reset_reg_time: "keeps keeps_inv (reset_reg_time e)"
  by (rule keepsI)
    (auto simp: reset_reg_time_def net_clock_def clock_def thenP_def bindP_def zoom_def modifyP_def
      keeps_inv_def net_inv_def split: prod.splits)

lemma armed_complete: "keeps armed (set_state FullyInitialized)"
  by (simp add: set_state_def keeps_def modifyP_def armed_def keeps_inv_def)

interpretation armed: life_relation armed e k for e k
proof
  show "keeps armed (on_net (net_process_events e))"
    by (intro armed_net inv_process_events)
  show "keeps armed (configure e k)"
    unfolding configure_def enable_registration_urcs_def
    by (intro armed_restart armed_complete armed.setup_call armed.call_rules armed_net armed_reset_reg_time
        steady_update_registration [THEN keeps_mono, OF steady_inv])
qed

text \<open>So is this one: a device that looks for a network keeps looking, and \<open>FullyInitialized\<close> is only
  put on record for a device that does.\<close>

definition looks :: "'w network \<Rightarrow> bool" where
  "looks n \<longleftrightarrow> conn_state (net_status n) \<noteq> Disconnected"

definition looking :: "('w, 's) device \<Rightarrow> ('w, 's) device \<Rightarrow> bool" where
  "looking d d' \<longleftrightarrow> (looks (dev_network d) \<longrightarrow> looks (dev_network d'))
     \<and> (dev_state d' = FullyInitialized \<longrightarrow> dev_state d = FullyInitialized \<or> looks (dev_network d'))"

interpretation looking: call_relation looking
  by unfold_locales (auto simp: looking_def looks_def)

definition looks_on :: "'w network \<Rightarrow> 'w network \<Rightarrow> bool" where
  "looks_on n n' \<longleftrightarrow> (looks n \<longrightarrow> looks n')"

interpretation looks_on: step_relation looks_on
  by unfold_locales (auto simp: looks_on_def)

lemma steady_looks: "steady n n' \<Longrightarrow> looks_on n n'"
  by (simp add: steady_def looks_on_def looks_def)

lemma looks_process_events: "keeps looks_on (net_process_events e)"
proof -
  have "keeps looks_on (check_registration_state e)"
    by (rule keepsI) (auto simp: check_registration_state_run Let_def looks_on_def looks_def
        split: if_splits prod.splits)
  then show ?thesis
    unfolding net_process_events_def
    by (intro looks_on.rules steady_rules [THEN keeps_mono, OF steady_looks]) (simp_all add: looks_on_def looks_def)
qed

lemma looking_net: "keeps looks_on m \<Longrightarrow> keeps looking (on_net m)"
  unfolding on_net_def by (erule keeps_zoom) (auto simp: looking_def looks_on_def)

text \<open>From where the registration starts, it is being looked for to the end of the configuration.\<close>

definition keeps_looking :: "('w, 's) device \<Rightarrow> ('w, 's) device \<Rightarrow> bool" where
  "keeps_looking d d' \<longleftrightarrow> looks_on (dev_network d) (dev_network d')"

interpretation keeps_looking: call_relation keeps_looking
  by unfold_locales (auto simp: keeps_looking_def looks_on_def looks_def)

lemma keeps_looking_net: "keeps looks_on m \<Longrightarrow> keeps keeps_looking (on_net m)"
  unfolding on_net_def by (erule keeps_zoom) (simp add: keeps_looking_def)

lemma keeps_looking_complete: "keeps keeps_looking (set_state s)"
  by (simp add: set_state_def keeps_def modifyP_def keeps_looking_def looks_on_def)

lemma looks_reset_reg_time: "keeps looks_on (reset_reg_time e)"
  by (rule keepsI)
    (auto simp: reset_reg_time_def net_clock_def clock_def thenP_def bindP_def zoom_def modifyP_def
      looks_on_def looks_def split: prod.splits)

lemma looking_restart:
  assumes "keeps keeps_looking m"
  shows "keeps looking (thenP (on_net (on_status (registration_reset e)))
    (thenP (on_net (modify_status (set_connection_state Connecting))) m))"
proof (rule keepsI)
  fix d d' r
  assume "thenP (on_net (on_status (registration_reset e)))
    (thenP (on_net (modify_status (set_connection_state Connecting))) m) d = Some (r, d')"
  then obtain d1 where "m d1 = Some (r, d')" "looks (dev_network d1)"
    by (auto simp: thenP_def bindP_def on_net_def on_status_def zoom_def modifyP_def registration_reset_run
        set_connection_state_def looks_def split: prod.splits)
  with keepsD [OF assms] show "looking d d'"
    by (auto simp: looking_def keeps_looking_def looks_on_def)
qed

interpretation looking: life_relation looking e k for e k
proof
  show "keeps looking (on_net (net_process_events e))"
    by (intro looking_net looks_process_events)
  show "keeps looking (configure e k)"
    unfolding configure_def enable_registration_urcs_def
    by (intro looking.setup_call looking.call_rules looking_restart keeps_looking_complete keeps_looking.call_rules
        keeps_looking_net looks_reset_reg_time steady_update_registration [THEN keeps_mono, OF steady_looks])
      simp_all
qed

lemma reachable_looks:
  assumes "reachable e k st d" "dev_state d = FullyInitialized"
  shows "looks (dev_network d)"
proof -
  from assms(1) have "dev_state d = FullyInitialized \<longrightarrow> looks (dev_network d)"
  proof induction
    case new
    then show ?case by (simp add: device_new_def)
  next
    case (step d d')
    from looking.step_call [OF step(2)] step(3) show ?case by (auto simp: looking_def)
  qed
  with assms(2) show ?thesis by simp
qed

section \<open>The order of the states\<close>

text \<open>How far a device has come: \<open>State::Off\<close>, \<open>State::AtInitialized\<close>, \<open>State::FullyInitialized\<close>.\<close>

primrec state_rank :: "state \<Rightarrow> nat" where
  "state_rank State_Off = 0"
| "state_rank AtInitialized = 1"
| "state_rank FullyInitialized = 2"

lemma state_rank_inject: "state_rank a = state_rank b \<Longrightarrow> a = b"
  by (cases a; cases b) simp_all

instantiation state :: linorder
begin

definition less_eq_state :: "state \<Rightarrow> state \<Rightarrow> bool" where
  "less_eq_state a b \<longleftrightarrow> state_rank a \<le> state_rank b"

definition less_state :: "state \<Rightarrow> state \<Rightarrow> bool" where
  "less_state a b \<longleftrightarrow> state_rank a < state_rank b"

instance
  by standard (auto simp: less_eq_state_def less_state_def intro: state_rank_inject)

end

lemma state_order [simp]: "State_Off \<le> s" "s \<le> FullyInitialized" "AtInitialized \<le> FullyInitialized"
  by (cases s; simp add: less_eq_state_def)+

text \<open>A run either leaves the state or brings the device to \<open>AtInitialized\<close> at least.\<close>

definition rises :: "('w, 's) device \<Rightarrow> ('w, 's) device \<Rightarrow> bool" where
  "rises d d' \<longleftrightarrow> dev_state d' = dev_state d \<or> AtInitialized \<le> dev_state d'"

interpretation rises: switch_relation rises e "\<lambda>_. True" for e
  by unfold_locales (auto simp: rises_def put_world_def put_tx_def)

lemma rises_of_frame: "keeps cmd_frame m \<Longrightarrow> keeps rises m"
  by (erule keeps_mono) (auto simp: cmd_frame_def rises_def)

lemma rises_net: "keeps rises (on_net m)"
  by (auto simp: keeps_def on_net_def zoom_def rises_def split: option.splits)

lemma rises_simple:
  "keeps rises (set_state AtInitialized)" "keeps rises (set_state FullyInitialized)"
  "keeps rises (set_context c)" "keeps rises (set_power x)" "keeps rises (clear_buffers k)"
  by (auto simp: set_state_def set_context_def set_power_def clear_buffers_def rises_def
      on_net_def zoom_def modifyP_def keeps_def)

lemmas rises_rules =
  rises.power_rules rises.hard_reset rises.power_on rises.hard_power_off rises.power_state rises_simple rises_net
  cmd_frame_cmd [THEN rises_of_frame] cmd_frame_send [THEN rises_of_frame] cmd_frame_sim [THEN rises_of_frame]
  cmd_frame.is_alive [THEN rises_of_frame]

lemma rises_configure: "keeps rises (configure e k)"
  unfolding configure_def setup_at_commands_def setup_commands_def enable_registration_urcs_def
  by (intro rises_rules) simp_all

section \<open>Properties\<close>

text \<open>C7: whatever is called and whatever the module does, a device that is not disconnected by choice has
  a time its registration started, so that the registration can time out, and its next intervention
  waits.\<close>

theorem reachable_registration_can_time_out:
  assumes "reachable e k st d"
  shows "1 \<le> unat (registration_interventions (net_status (dev_network d)))
    \<and> (conn_state (net_status (dev_network d)) \<noteq> Disconnected \<longrightarrow>
        reg_start_time (net_status (dev_network d)) \<noteq> None)"
proof -
  from assms have "net_inv (dev_network d)"
  proof induction
    case new
    then show ?case by (simp add: device_new_def net_inv_new)
  next
    case (step d d')
    with armed.step_call [OF step(2)] show ?case by (simp add: armed_def keeps_inv_def)
  qed
  then show ?thesis by (simp add: net_inv_def)
qed

theorem reachable_registration_can_time_out_witness:
  "\<forall>st. \<exists>d. reachable (obliging_env Toby_R2 pins) dull_sockets (st :: (instant, unit) stack_api) d \<and> dev_power d = On
     \<and> conn_state (net_status (dev_network d)) = Connecting \<and> reg_start_time (net_status (dev_network d)) \<noteq> None"
proof
  fix st :: "(instant, unit) stack_api"
  let ?e = "obliging_env Toby_R2 pins"
  have "\<exists>d. initialize ?e dull_sockets (device_new 0) = Some (Inr (), d) \<and> dev_power d = On
      \<and> conn_state (net_status (dev_network d)) = Connecting"
    by (subst initialize_obliging [OF calm_new]) (simp_all add: device_new_def configured_status_def)
  then obtain d where d: "initialize ?e dull_sockets (device_new 0) = Some (Inr (), d)" "dev_power d = On"
    "conn_state (net_status (dev_network d)) = Connecting" by blast
  have "reachable ?e dull_sockets st d"
    by (rule reachable.step [OF reachable.new dev_step.initialize [OF d(1)]])
  with reachable_registration_can_time_out [OF this] d
  show "\<exists>d. reachable ?e dull_sockets st d \<and> dev_power d = On
     \<and> conn_state (net_status (dev_network d)) = Connecting \<and> reg_start_time (net_status (dev_network d)) \<noteq> None"
    by auto
qed

text \<open>C39: while the caller uses the service it was handed, the module stays registered for the driver:
  whatever calls are made on the service, the registration is the one it was handed out with.\<close>

theorem session_stays_registered:
  assumes "data_service e k info d = Some (Inr (), d1)"
    and "rtranclp (service_step e st) \<lparr>ds_network = dev_network d1, ds_sockets = dev_sockets d1\<rparr> s"
  shows "is_connected (ds_network s) \<and> net_status (ds_network s) = net_status (dev_network d1)"
proof -
  from assms(2) have "untouched \<lparr>ds_network = dev_network d1, ds_sockets = dev_sockets d1\<rparr> s"
  proof induction
    case base
    show ?case by (rule untouched.R_refl)
  next
    case (step y z)
    from step(3) service_step_untouched [OF step(2)] show ?case by (rule untouched.R_trans)
  qed
  with wpD_Inr [OF wp_data_service assms(1)] show ?thesis
    by (simp add: untouched_def is_connected_def)
qed

theorem session_stays_registered_witness:
  "\<forall>st :: (instant, unit) stack_api. \<exists>d1 r s. data_service (obliging_env Sara_R5 pins) dull_sockets apn_info_default (device_new 0)
       = Some (Inr (), d1)
     \<and> service_send_at (obliging_env Sara_R5 pins) (plain AT)
         \<lparr>ds_network = dev_network d1, ds_sockets = dev_sockets d1\<rparr> = Some (r, s)
     \<and> is_connected (ds_network s)"
proof
  fix st :: "(instant, unit) stack_api"
  let ?e = "obliging_env Sara_R5 pins"
  obtain d1 where d1: "data_service ?e dull_sockets apn_info_default (device_new 0) = Some (Inr (), d1)"
    using data_service_obliging by blast
  let ?s = "\<lparr>ds_network = dev_network d1, ds_sockets = dev_sockets d1\<rparr>"
  have "halts (service_send_at ?e (plain AT) :: ((instant, unit) service, data_error, unit) prog)"
    by (simp add: service_send_at_def on_ds_net_def halts_zoom)
  from haltsD [OF this, of ?s] obtain r s where s: "service_send_at ?e (plain AT) ?s = Some (r, s)"
    by blast
  have "rtranclp (service_step ?e st) ?s s"
    by (rule r_into_rtranclp) (rule service_step.send_at [OF s])
  from session_stays_registered [OF d1 this] have up: "is_connected (ds_network s)" by (rule conjunct1)
  show "\<exists>d1 r s. data_service ?e dull_sockets apn_info_default (device_new 0) = Some (Inr (), d1)
     \<and> service_send_at ?e (plain AT) \<lparr>ds_network = dev_network d1, ds_sockets = dev_sockets d1\<rparr> = Some (r, s)
     \<and> is_connected (ds_network s)"
    by (rule exI [of _ d1], rule exI [of _ r], rule exI [of _ s]) (intro conjI d1 s up)
qed

text \<open>On a module that is on, initializing never sets the device back, not even when it fails half-way:
  what was set up before stays on record, and a device that is fully initialized is not touched.\<close>

theorem initialize_never_sets_back:
  assumes "initialize e k d = Some (r, d')" "dev_power d = On"
  shows "dev_state d \<le> dev_state d' \<and> (dev_state d = FullyInitialized \<longrightarrow> r = Inr () \<and> d' = d)"
proof (cases "dev_state d = FullyInitialized")
  case True
  with assms show ?thesis by (simp add: initialize_done)
next
  case False
  with assms have "configure e k d = Some (r, d')"
    by (simp add: initialize_def bindP_def getsP_def)
  from keepsD [OF rises_configure this] False show ?thesis
    by (cases "dev_state d") (auto simp: rises_def intro: order_trans)
qed

theorem initialize_never_sets_back_witness:
  "\<exists>d'. initialize (obliging_env Toby_R2 pins) dull_sockets ((device_new 0)\<lparr>dev_power := On, dev_state := AtInitialized\<rparr>)
       = Some (Inr (), d') \<and> AtInitialized \<le> dev_state d'"
proof -
  let ?e = "obliging_env Toby_R2 pins"
  let ?d = "(device_new 0 :: (instant, unit) device)\<lparr>dev_power := On, dev_state := AtInitialized\<rparr>"
  have "calm ?d" "dev_sockets ?d = None" using calm_new [of 0] by (simp_all add: device_new_def calm_def)
  then obtain d' where "configure ?e dull_sockets ?d = Some (Inr (), d')"
    using configure_obliging [of ?d pins Toby_R2 dull_sockets] by (auto simp: default_config_def)
  then have run: "initialize ?e dull_sockets ?d = Some (Inr (), d')"
    by (simp add: initialize_def bindP_def getsP_def)
  from initialize_never_sets_back [OF run] run show ?thesis by simp
qed

end
