(* ===== verification/Cooperative_Modem.thy ===== *)
theory Cooperative_Modem
  imports Stack_Proofs
begin

text \<open>
  Liveness against a modem that cooperates: whatever world is behind it and whatever URCs it sends, a
  modem that acknowledges what it is told, has its SIM ready, is registered and is attached gets the
  driver to hand out a data service and its sockets to take what they are given. \<open>succeeds\<close> is total
  correctness of a program: it returns, with a value and not with an error.
\<close>

section \<open>Runs that succeed\<close>

definition succeeds :: "('s, 'e, 'a) prog \<Rightarrow> ('a \<Rightarrow> 's \<Rightarrow> bool) \<Rightarrow> 's \<Rightarrow> bool" where
  "succeeds m Q s \<longleftrightarrow> (case m s of Some (Inr a, t) \<Rightarrow> Q a t | _ \<Rightarrow> False)"

lemma succeeds_okP [simp]: "succeeds (okP a) Q s \<longleftrightarrow> Q a s"
  by (simp add: succeeds_def okP_def)

lemma succeeds_bindP [simp]: "succeeds (bindP m f) Q s \<longleftrightarrow> succeeds m (\<lambda>a. succeeds (f a) Q) s"
  by (auto simp: succeeds_def bindP_def split: option.splits sum.splits)

lemma succeeds_thenP [simp]: "succeeds (thenP m k) Q s \<longleftrightarrow> succeeds m (\<lambda>_. succeeds k Q) s"
  by (simp add: thenP_def)

lemma succeeds_map_errP [simp]: "succeeds (map_errP f m) Q s \<longleftrightarrow> succeeds m Q s"
  by (auto simp: succeeds_def map_errP_def split: option.splits sum.splits)

lemma succeeds_getsP [simp]: "succeeds (getsP f) Q s \<longleftrightarrow> Q (f s) s"
  by (simp add: succeeds_def getsP_def)

lemma succeeds_modifyP [simp]: "succeeds (modifyP f) Q s \<longleftrightarrow> Q () (f s)"
  by (simp add: succeeds_def modifyP_def)

lemma succeeds_zoom [simp]:
  "succeeds (zoom get put m) Q s \<longleftrightarrow> succeeds m (\<lambda>a t. Q a (put t s)) (get s)"
  by (auto simp: succeeds_def zoom_def split: option.splits sum.splits)

lemma succeeds_mono: "succeeds m Q s \<Longrightarrow> (\<And>a t. Q a t \<Longrightarrow> Q' a t) \<Longrightarrow> succeeds m Q' s"
  by (auto simp: succeeds_def split: option.splits sum.splits)

lemma succeedsD: "succeeds m Q s \<Longrightarrow> \<exists>a t. m s = Some (Inr a, t) \<and> Q a t"
  by (cases "m s"; cases "fst (the (m s))") (auto simp: succeeds_def)

lemma succeedsI: "m s = Some (Inr a, t) \<Longrightarrow> Q a t \<Longrightarrow> succeeds m Q s"
  by (simp add: succeeds_def)

text \<open>A step whose \<open>Result\<close> is looked at may as well fail, as long as it returns.\<close>

lemma succeeds_attempt:
  assumes "succeeds m (\<lambda>a. Q (Inr a)) s"
  shows "succeeds (attempt m) Q s"
  using succeedsD [OF assms] by (auto simp: succeeds_def attempt_def)

lemma succeeds_dropped:
  assumes "halts m" "wp m (\<lambda>a. Q (Inr a)) (\<lambda>x. Q (Inl x)) s"
  shows "succeeds (attempt m) Q s"
proof -
  obtain r t where "m s = Some (r, t)" using haltsD [OF assms(1)] by blast
  with assms(2) show ?thesis by (cases r) (simp_all add: succeeds_def attempt_def wp_def)
qed

text \<open>What is known if the run returns may be added.\<close>

lemma succeeds_wp:
  assumes "succeeds m Q s" "wp m R (\<lambda>_ _. True) s"
  shows "succeeds m (\<lambda>a t. Q a t \<and> R a t) s"
  using assms by (auto simp: succeeds_def wp_def split: option.splits sum.splits)

lemma succeeds_total:
  assumes "halts m" "wp m Q (\<lambda>_ _. False) s"
  shows "succeeds m Q s"
  using wp_total [OF assms] by (auto simp: succeeds_def)

section \<open>A modem that cooperates\<close>

text \<open>Every answer to the command, in whatever world, is one the driver reads and for which \<open>P\<close> holds.\<close>

definition answers :: "'w env \<Rightarrow> 'r at_cmd \<Rightarrow> ('r \<Rightarrow> bool) \<Rightarrow> bool" where
  "answers e c P \<longleftrightarrow>
     (\<forall>w. \<exists>resp r. fst (send_raw e (cmd_req c) w) = Inr resp \<and> cmd_parse c resp = Some r \<and> P r)"

text \<open>The requests that set something: their response is the final result code alone.\<close>

fun directive :: "at_req \<Rightarrow> bool" where
  "directive AT \<longleftrightarrow> True"
| "directive (Mobile_Control (SetModuleFunctionality _ _)) \<longleftrightarrow> True"
| "directive (Mobile_Control (SetReportMobileTerminationError _)) \<longleftrightarrow> True"
| "directive (Mobile_Control (SetAutomaticTimezoneUpdate _)) \<longleftrightarrow> True"
| "directive (Control _) \<longleftrightarrow> True"
| "directive (Gpio (SetGpioConfiguration _ _)) \<longleftrightarrow> True"
| "directive (Network_Service (SetOperatorSelection _ _)) \<longleftrightarrow> True"
| "directive (Network_Service (SetNetworkRegistrationStatus _)) \<longleftrightarrow> True"
| "directive (Psn_Context (SetPDPContextDefinition _ _ _)) \<longleftrightarrow> True"
| "directive (Psn_Context (SetPacketSwitchedConfig _ _)) \<longleftrightarrow> True"
| "directive (Psn_Context (SetPacketSwitchedAction _ _)) \<longleftrightarrow> True"
| "directive (Psn_Context (SetPDPContextState _ _)) \<longleftrightarrow> True"
| "directive (Psn_Registration (SetGPRSNetworkRegistrationStatus _)) \<longleftrightarrow> True"
| "directive (Psn_Registration (SetEPSNetworkRegistrationStatus _)) \<longleftrightarrow> True"
| "directive (Sms _) \<longleftrightarrow> True"
| "directive (System_Features (SetPowerSavingControl _ _)) \<longleftrightarrow> True"
| "directive (Socket (SetHexMode _)) \<longleftrightarrow> True"
| "directive (Socket (SetSocketSslState _ _)) \<longleftrightarrow> True"
| "directive (Socket (ConnectSocket _ _ _)) \<longleftrightarrow> True"
| "directive (Socket (CloseSocket _)) \<longleftrightarrow> True"
| "directive (Socket_Data (PrepareWriteSocketDataBinary _ _)) \<longleftrightarrow> True"
| "directive (Socket_Data (PrepareUDPSendToDataBinary _ _ _ _)) \<longleftrightarrow> True"
| "directive _ \<longleftrightarrow> False"

definition acknowledges :: "'w env \<Rightarrow> bool" where
  "acknowledges e \<longleftrightarrow> (\<forall>q. directive q \<longrightarrow> answers e (plain q) (\<lambda>_. True))"

text \<open>Registered with LTE, or with both the circuit and the packet switched domain.\<close>

definition up :: "status \<Rightarrow> bool" where
  "up s \<longleftrightarrow> s = Home \<or> s = Roaming"

definition answers_registered :: "'w env \<Rightarrow> bool" where
  "answers_registered e \<longleftrightarrow>
     answers e get_eps_registration (\<lambda>r. up (status_of_eps_stat (ers_stat r)))
     \<or> answers e get_eps_registration (\<lambda>_. True)
       \<and> answers e get_network_registration (\<lambda>r. up (status_of_network_stat (nrs_stat r)))
       \<and> answers e get_gprs_registration (\<lambda>r. up (status_of_gprs_stat (grs_stat r)))"

text \<open>What the configuration asks for, whatever the module says of the network.\<close>

definition configurable :: "'w env \<Rightarrow> bool" where
  "configurable e \<longleftrightarrow>
     acknowledges e
     \<and> (cfg_vint_pin (config e) \<longrightarrow> (\<forall>w. fst (vint_is_high e w) = Some True))
     \<and> answers e get_model_id (\<lambda>_. True)
     \<and> answers e get_firmware_version (\<lambda>_. True)
     \<and> answers e get_pin_status (\<lambda>c. c = Ready)
     \<and> answers e get_ccid (\<lambda>_. True)
     \<and> answers e get_operator_selection (\<lambda>_. True)"

definition cooperative :: "'w env \<Rightarrow> bool" where
  "cooperative e \<longleftrightarrow>
     configurable e
     \<and> answers_registered e
     \<and> answers e get_gprs_attached (\<lambda>a. a = gprs_attached_state.Attached)
     \<and> answers e get_pdp_context_state (context_activated CONTEXT_ID)
     \<and> answers e (get_packet_switched_config PROFILE_ID packet_switched_param_req.MapProfile) (\<lambda>_. True)
     \<and> answers e (get_packet_switched_network_data PROFILE_ID
          packet_switched_network_data_param.PsdProfileStatus) (\<lambda>_. True)"

section \<open>Commands\<close>

lemma succeeds_at_send:
  assumes "answers e c P" "\<And>r w. P r \<Longrightarrow> Q r \<lparr>tx_timeouts = 0, tx_world = w\<rparr>"
  shows "succeeds (at_send e c) Q t"
proof -
  obtain x w where x: "send_raw e (cmd_req c) (tx_world t) = (x, w)" by fastforce
  with assms(1) obtain resp r where "x = Inr resp" "cmd_parse c resp = Some r" "P r"
    unfolding answers_def by (metis fst_conv)
  with x assms(2) show ?thesis
    by (simp add: succeeds_def at_send_run send_retry_def)
qed

text \<open>What a command that is answered leaves: the registration alone, and no timeout on record.\<close>

definition served :: "'w network \<Rightarrow> 'w network \<Rightarrow> bool" where
  "served n n' \<longleftrightarrow> net_status n' = net_status n \<and> tx_timeouts (net_tx n') = 0"

lemma succeeds_send_internal:
  assumes "answers e c P" "\<And>r n'. P r \<Longrightarrow> served n n' \<Longrightarrow> Q r n'"
  shows "succeeds (send_internal e c b) Q n"
  using assms
  by (auto simp: send_internal_def whenP_def served_def
      intro!: succeeds_at_send succeeds_dropped wp_handle_urc)

lemma succeeds_net_cmd:
  assumes "answers e c P" "\<And>n'. served n n' \<Longrightarrow> Q () n'"
  shows "succeeds (net_cmd e c b) Q n"
  using assms by (auto simp: net_cmd_def net_send_def intro!: succeeds_send_internal)

lemma succeeds_net_send:
  assumes "answers e c P" "\<And>r n'. P r \<Longrightarrow> served n n' \<Longrightarrow> Q r n'"
  shows "succeeds (net_send e c b) Q n"
  using assms by (auto simp: net_send_def intro!: succeeds_send_internal)

lemma answers_directive: "acknowledges e \<Longrightarrow> directive q \<Longrightarrow> answers e (plain q) (\<lambda>_. True)"
  by (simp add: acknowledges_def)

lemma served_trans: "served n n' \<Longrightarrow> served n' n'' \<Longrightarrow> served n n''"
  by (simp add: served_def)

text \<open>What commands that are answered leave, if any are sent.\<close>

definition undisturbed :: "'w network \<Rightarrow> 'w network \<Rightarrow> bool" where
  "undisturbed n n' \<longleftrightarrow> net_status n' = net_status n
     \<and> tx_timeouts (net_tx n') \<le> tx_timeouts (net_tx n)"

lemma undisturbed_refl [simp]: "undisturbed n n"
  by (simp add: undisturbed_def)

lemma undisturbed_context [simp]: "undisturbed n (n'\<lparr>net_context := c\<rparr>) = undisturbed n n'"
  "undisturbed (n\<lparr>net_context := c\<rparr>) n' = undisturbed n n'"
  by (simp_all add: undisturbed_def)

lemma undisturbed_trans: "undisturbed n n' \<Longrightarrow> undisturbed n' n'' \<Longrightarrow> undisturbed n n''"
  by (auto simp: undisturbed_def)

lemma undisturbed_served: "undisturbed n n' \<Longrightarrow> served n' n'' \<Longrightarrow> undisturbed n n''"
  "served n n' \<Longrightarrow> undisturbed n n'"
  by (simp_all add: undisturbed_def served_def)

section \<open>The device\<close>

text \<open>The power and the state on record and the registration are as before; the second adds that the
  last command was answered.\<close>

definition alike :: "('w, 's) device \<Rightarrow> ('w, 's) device \<Rightarrow> bool" where
  "alike d d' \<longleftrightarrow> dev_power d' = dev_power d \<and> dev_state d' = dev_state d
     \<and> net_status (dev_network d') = net_status (dev_network d)"

lemma alike_trans: "alike d d' \<Longrightarrow> alike d' d'' \<Longrightarrow> alike d d''"
  by (simp add: alike_def)

lemma alike_served: "served (dev_network d) n \<Longrightarrow> alike d (d\<lparr>dev_network := n\<rparr>)"
  by (simp add: alike_def served_def)

lemma succeeds_dev_send:
  assumes "answers e c P" "\<And>r d'. P r \<Longrightarrow> alike d d' \<Longrightarrow> Q r d'"
  shows "succeeds (dev_send e c b) Q d"
  using assms by (auto simp: dev_send_def on_net_def intro!: succeeds_send_internal alike_served)

lemma succeeds_dev_cmd:
  assumes "answers e c P" "\<And>d'. alike d d' \<Longrightarrow> Q () d'"
  shows "succeeds (dev_cmd e c b) Q d"
  using assms by (auto simp: dev_cmd_def intro!: succeeds_dev_send)

lemma cooperative_configurable: "cooperative e \<Longrightarrow> configurable e"
  by (simp add: cooperative_def)

lemma ack: "configurable e \<Longrightarrow> directive q \<Longrightarrow> answers e (plain q) (\<lambda>_. True)"
  by (simp add: configurable_def acknowledges_def)

lemma queries:
  assumes "configurable e"
  shows "answers e get_model_id (\<lambda>_. True)" "answers e get_firmware_version (\<lambda>_. True)"
  "answers e get_pin_status (\<lambda>c. c = Ready)" "answers e get_ccid (\<lambda>_. True)"
  "answers e get_operator_selection (\<lambda>_. True)"
  using assms by (simp_all add: configurable_def)

lemma succeeds_is_alive:
  assumes "configurable e" "\<And>d'. alike d d' \<Longrightarrow> Q () d'" "0 < unat n"
  shows "succeeds (is_alive e n) Q d"
proof -
  obtain k where "unat n = Suc k" using assms(3) gr0_conv_Suc by blast
  then show ?thesis
    using assms(1,2)
    by (auto simp: is_alive_def on_net_def at_send_ignore_timeout_eq alike_def
        intro!: succeeds_attempt succeeds_at_send [OF ack])
qed

lemma succeeds_power_state:
  assumes "configurable e" "\<And>d'. alike d d' \<Longrightarrow> Q On d'"
  shows "succeeds (power_state e) Q d"
proof (cases "cfg_vint_pin (config e)")
  case True
  obtain w where "vint_is_high e (dev_world d) = (Some True, w)"
    using True assms(1) by (metis configurable_def prod.collapse)
  with True assms show ?thesis
    by (simp add: power_state_def succeeds_def on_dev_world_run read_vint_def alike_def
        put_world_def put_tx_def)
next
  case False
  with assms show ?thesis
    by (auto simp: power_state_def intro!: succeeds_attempt succeeds_is_alive)
qed

lemma succeeds_power_on:
  assumes "configurable e" "\<And>d'. alike d d' \<Longrightarrow> Q () d'"
  shows "succeeds (power_on e) Q d"
proof -
  have "succeeds (power_state e) (\<lambda>p d'. p = On \<and> alike d d') d"
    by (rule succeeds_power_state [OF assms(1)]) simp
  then obtain d' where "power_state e d = Some (Inr On, d')" "alike d d'"
    using succeedsD by fastforce
  with assms(2) show ?thesis by (auto intro: succeedsI power_on_when_on)
qed

lemma succeeds_select_sim_card:
  assumes "configurable e" "\<And>d'. alike d d' \<Longrightarrow> Q () d'"
  shows "succeeds (select_sim_card e) Q d"
  using assms
  by (auto simp: select_sim_card_def numeral_2_eq_2 intro!: succeeds_attempt succeeds_dev_send queries)

lemmas succeeds_rules =
  succeeds_dev_cmd [OF ack] succeeds_dev_cmd [OF queries(1)] succeeds_dev_cmd [OF queries(2)]
  succeeds_dev_cmd [OF queries(4)] succeeds_select_sim_card

lemma succeeds_setup_commands:
  assumes "configurable e" "\<And>d'. alike (d\<lparr>dev_state := AtInitialized\<rparr>) d' \<Longrightarrow> Q () d'"
  shows "succeeds (setup_commands e) Q d"
  unfolding setup_commands_def succeeds_thenP whenP_def set_state_def succeeds_modifyP
  using assms(1) by (auto intro!: succeeds_rules assms(2) simp: alike_def)

lemma succeeds_setup_at_commands:
  assumes "configurable e" "\<And>d'. alike (d\<lparr>dev_state := AtInitialized\<rparr>) d' \<Longrightarrow> Q () d'"
  shows "succeeds (setup_at_commands e k) Q d"
proof -
  have five: "0 < unat (5 :: u8)" by simp
  show ?thesis
    unfolding setup_at_commands_def set_context_def clear_buffers_def on_net_def
    using assms(1)
    by (auto intro!: succeeds_power_on succeeds_attempt succeeds_is_alive five
        succeeds_setup_commands assms(2) simp: alike_def)
qed

section \<open>The registration\<close>

text \<open>What a network that will be found connected has on record.\<close>

definition on_the_air :: "registration_state \<Rightarrow> bool" where
  "on_the_air r \<longleftrightarrow>
     slot_registered (csd r) \<and> slot_registered (psd r) \<or> slot_registered (eps r)"

lemma report_at_slots:
  "rp_reg_type p = Creg \<Longrightarrow> csd (report_at t p r) = slot_set_at t (rp_status p) (csd r)"
  "rp_reg_type p = Cgreg \<Longrightarrow> psd (report_at t p r) = slot_set_at t (rp_status p) (psd r)"
  "rp_reg_type p = Cgreg \<Longrightarrow> csd (report_at t p r) = csd r"
  "rp_reg_type p = Cereg \<Longrightarrow> csd (report_at t p r) = csd r"
  "rp_reg_type p = Cereg \<Longrightarrow> psd (report_at t p r) = psd r"
  "rp_reg_type p = Cereg \<Longrightarrow> eps (report_at t p r) = slot_set_at t (rp_status p) (eps r)"
  using psd_domain.entered_others [of t "rp_status p" r] eps_domain.entered_others [of t "rp_status p" r]
  by (simp_all add: report_at_def csd_domain.entered_slot psd_domain.entered_slot eps_domain.entered_slot)

lemma params_simps [simp]:
  "rp_reg_type (params_of_network x) = Creg" "rp_status (params_of_network x) = status_of_network_stat (nrs_stat x)"
  "rp_reg_type (params_of_gprs y) = Cgreg" "rp_status (params_of_gprs y) = status_of_gprs_stat (grs_stat y)"
  "rp_reg_type (params_of_eps z) = Cereg" "rp_status (params_of_eps z) = status_of_eps_stat (ers_stat z)"
  by (simp_all add: params_of_network_def params_of_gprs_def params_of_eps_def)

lemma slot_registered_up: "slot_registered (slot_set_at t st s) \<longleftrightarrow> up st"
  by (simp add: slot_registered_set up_def)

lemma succeeds_poll:
  assumes "answers e c P" "\<And>r. rp_reg_type (into r) \<noteq> Reg_Unknown"
    and "\<And>r t n'. P r \<Longrightarrow> net_status n' = report_at t (into r) (net_status n) \<Longrightarrow>
      tx_timeouts (net_tx n') = 0 \<Longrightarrow> Q () n'"
  shows "succeeds (poll e c into) Q n"
proof -
  have "succeeds (on_status (compare_and_set e (into r))) Q n1"
    if "P r" "served n n1" for r n1
  proof -
    obtain t w where "now e (net_world n1) = (t, w)" by fastforce
    with that assms(2) show ?thesis
      by (auto simp: on_status_def succeeds_def zoom_def compare_and_set_run served_def intro!: assms(3))
  qed
  then show ?thesis
    unfolding poll_def succeeds_bindP
    by (auto intro!: succeeds_attempt succeeds_send_internal [OF assms(1)])
qed

lemma succeeds_poll_any:
  assumes "\<And>n'. steady n n' \<Longrightarrow> Q () n'"
  shows "succeeds (poll e c into) Q n"
proof (rule succeeds_total)
  show "halts (poll e c into)"
    unfolding poll_def by (intro halting) (simp split: sum.split add: halts_on_status)
  show "wp (poll e c into) Q (\<lambda>_ _. False) n" by (rule wp_poll) (rule assms)
qed

lemma succeeds_update_registration:
  assumes "answers_registered e"
    and "\<And>n'. conn_state (net_status n') = conn_state (net_status n) \<Longrightarrow> on_the_air (net_status n') \<Longrightarrow>
      tx_timeouts (net_tx n') = 0 \<Longrightarrow> Q () n'"
  shows "succeeds (update_registration e) Q n"
proof -
  have report: "succeeds (attempt (send_internal e get_extended_error_report False))
      (\<lambda>_ n'. net_status n' = net_status n) n"
    by (intro succeeds_dropped wp_send_internal) simp_all
  from assms(1) consider
    (lte) "answers e get_eps_registration (\<lambda>r. up (status_of_eps_stat (ers_stat r)))"
  | (gsm) "answers e get_eps_registration (\<lambda>_. True)"
      "answers e get_network_registration (\<lambda>r. up (status_of_network_stat (nrs_stat r)))"
      "answers e get_gprs_registration (\<lambda>r. up (status_of_gprs_stat (grs_stat r)))"
    unfolding answers_registered_def by blast
  then show ?thesis
  proof cases
    case lte
    show ?thesis
      unfolding update_registration_def succeeds_thenP succeeds_bindP succeeds_okP
      by (rule succeeds_mono [OF report], rule succeeds_poll_any, rule succeeds_poll_any,
          rule succeeds_poll [OF lte])
        (auto intro!: assms(2) simp: on_the_air_def report_at_slots slot_registered_up steady_def)
  next
    case gsm
    show ?thesis
      unfolding update_registration_def succeeds_thenP succeeds_bindP succeeds_okP
      by (rule succeeds_mono [OF report])
        (auto intro!: succeeds_poll [OF gsm(1)] succeeds_poll [OF gsm(2)] succeeds_poll [OF gsm(3)] assms(2)
          simp: on_the_air_def report_at_slots slot_registered_up)
  qed
qed

lemma succeeds_reset_reg_time:
  assumes "\<And>n' t. net_status n' = (net_status n)\<lparr>reg_start_time := Some t, reg_check_time := Some t\<rparr> \<Longrightarrow>
    tx_timeouts (net_tx n') = tx_timeouts (net_tx n) \<Longrightarrow> Q () n'"
  shows "succeeds (reset_reg_time e) Q n"
proof -
  obtain t w where "now e (net_world n) = (t, w)" by fastforce
  with assms show ?thesis
    by (cases n) (simp add: reset_reg_time_def net_clock_def succeeds_def clock_def bindP_def thenP_def zoom_def
        modifyP_def)
qed

text \<open>A network that is connected, with the registration to show for it and not waiting for a reset, stays so.\<close>

definition settled_network :: "'w network \<Rightarrow> bool" where
  "settled_network n \<longleftrightarrow> conn_state (net_status n) = Connected \<and> on_the_air (net_status n)
     \<and> tx_timeouts (net_tx n) \<le> 10"

lemma settled_undisturbed: "settled_network n \<Longrightarrow> undisturbed n n' \<Longrightarrow> settled_network n'"
  by (auto simp: settled_network_def undisturbed_def)

lemma settled_status [simp]:
  "settled_network (n\<lparr>net_status := (net_status n)\<lparr>imsi_check_time := x\<rparr>\<rparr>) = settled_network n"
  "settled_network (n\<lparr>net_status := (net_status n)\<lparr>reg_check_time := y\<rparr>\<rparr>) = settled_network n"
  "settled_network (n\<lparr>net_tx := (net_tx n)\<lparr>tx_world := w\<rparr>\<rparr>) = settled_network n"
  "settled_network (n\<lparr>net_context := c\<rparr>) = settled_network n"
  by (simp_all add: settled_network_def on_the_air_def)

lemma succeeds_net_clock:
  assumes "\<And>t w. Q t (n\<lparr>net_tx := (net_tx n)\<lparr>tx_world := w\<rparr>\<rparr>)"
  shows "succeeds (net_clock e) Q n"
  by (rule succeeds_total [OF halts_net_clock wp_net_clock]) (rule assms)

lemma succeeds_send_attempt:
  assumes "\<And>r n'. net_status n' = net_status n \<Longrightarrow> Q r n'"
    and "\<And>a n'. served n n' \<Longrightarrow> Q (Inr a) n'"
  shows "succeeds (attempt (send_internal e c b)) Q n"
  using assms(1) by (intro succeeds_dropped wp_send_internal) simp_all

lemma succeeds_running_imsi:
  assumes "cooperative e" "tx_timeouts (net_tx n) \<le> 10"
  shows "succeeds (check_running_imsi e) (\<lambda>_ n'. tx_timeouts (net_tx n') \<le> 10
    \<and> (net_status n' = net_status n \<or> (\<exists>t. net_status n' = (net_status n)\<lparr>imsi_check_time := Some t\<rparr>))) n"
proof -
  let ?Q = "\<lambda>n'. tx_timeouts (net_tx n') \<le> 10 \<and> net_status n' = net_status n"
  have cimi: "succeeds (bindP (attempt (send_internal e get_cimi False)) (\<lambda>res.
        case res of Inr _ \<Rightarrow> okP () | Inl _ \<Rightarrow> send_internal e (plain AT) False)) (\<lambda>_. ?Q) n1"
    if "?Q n1" for n1 :: "'a network"
  proof -
    obtain r n2 where run: "send_internal e get_cimi False n1 = Some (r, n2)"
      using haltsD [OF halts_send_internal] by blast
    have status: "net_status n2 = net_status n1"
      using run by (auto simp: send_internal_def whenP_def thenP_def bindP_def okP_def zoom_def at_send_run
          split: option.splits)
    have timeouts: "tx_timeouts (net_tx n2) = 0" if "r = Inr a" for a
      using run that by (auto simp: send_internal_def whenP_def thenP_def bindP_def okP_def zoom_def at_send_run
          split: option.splits sum.splits)
    have "succeeds (send_internal e (plain AT) False) (\<lambda>_. ?Q) n2"
      using that status by (intro succeeds_send_internal [OF ack [OF cooperative_configurable [OF assms(1)]]]) (simp_all add: served_def)
    with run status timeouts that show ?thesis
      by (cases r) (simp_all add: succeeds_def [of "attempt _"] attempt_def)
  qed
  have "succeeds (whenP b (thenP (bindP (attempt (send_internal e get_cimi False)) (\<lambda>res.
        case res of Inr _ \<Rightarrow> okP () | Inl _ \<Rightarrow> send_internal e (plain AT) False))
      (modify_status (\<lambda>r. r\<lparr>imsi_check_time := Some t\<rparr>))))
      (\<lambda>_ n'. tx_timeouts (net_tx n') \<le> 10
        \<and> (net_status n' = net_status n \<or> (\<exists>t. net_status n' = (net_status n)\<lparr>imsi_check_time := Some t\<rparr>))) n1"
    if "?Q n1" for b t and n1 :: "'a network"
    using that unfolding whenP_def
    by (auto simp del: succeeds_bindP intro!: succeeds_mono [OF cimi])
  then show ?thesis
    unfolding check_running_imsi_def succeeds_bindP [of "net_clock e"] succeeds_bindP [of "getsP _"] succeeds_getsP
    using assms(2) by (intro succeeds_net_clock) simp
qed

lemma succeeds_net_process_events:
  assumes "cooperative e" "conn_state (net_status n) \<noteq> Disconnected" "on_the_air (net_status n)"
    "tx_timeouts (net_tx n) \<le> 10"
  shows "succeeds (net_process_events e) (\<lambda>_. settled_network) n"
proof -
  have reg: "answers_registered e" using assms(1) by (simp add: cooperative_def)
  have check: "succeeds (check_registration_state e) (\<lambda>_. settled_network) n1"
    if "net_status n1 = net_status n" "tx_timeouts (net_tx n1) \<le> 10" for n1
    using that assms(2,3)
    by (simp add: succeeds_def check_registration_state_run on_the_air_def settled_network_def)
  have poll: "succeeds (poll_registration e) (\<lambda>_. settled_network) n1" if "settled_network n1" for n1 :: "'a network"
    using that unfolding poll_registration_def
    by (auto intro!: succeeds_net_clock succeeds_update_registration [OF reg] simp: settled_network_def)
  have urc: "succeeds (handle_urc e) (\<lambda>_ n1. net_status n1 = net_status n \<and> tx_timeouts (net_tx n1) \<le> 10) n"
    by (simp add: succeeds_def handle_urc_run assms(4) split: prod.split)
  have calm: "succeeds (intervene_registration e) (\<lambda>_. settled_network) n1" if "settled_network n1" for n1 :: "'a network"
    using that by (simp add: intervene_registration_def settled_network_def)
  have imsi: "succeeds (check_running_imsi e) (\<lambda>_. settled_network) n1" if "settled_network n1" for n1 :: "'a network"
    using that by (intro succeeds_mono [OF succeeds_running_imsi [OF assms(1)]])
      (auto simp: settled_network_def on_the_air_def)
  have rest: "succeeds (thenP (bindP (attempt (check_running_imsi e)) (\<lambda>_. okP ())) (poll_registration e))
      (\<lambda>_. settled_network) n1" if "settled_network n1" for n1
    by (simp, rule succeeds_attempt, rule succeeds_mono [OF imsi [OF that]]) (simp add: poll)
  have tail: "succeeds (thenP (check_registration_state e) (thenP (intervene_registration e)
      (thenP (bindP (attempt (check_running_imsi e)) (\<lambda>_. okP ())) (poll_registration e))))
      (\<lambda>_. settled_network) n1" if "net_status n1 = net_status n" "tx_timeouts (net_tx n1) \<le> 10" for n1
    by (subst succeeds_thenP, rule succeeds_mono [OF check [OF that]], subst succeeds_thenP,
        rule succeeds_mono [OF calm], assumption, erule rest)
  show ?thesis
    unfolding net_process_events_def
    by (subst succeeds_bindP, simp add: leD [OF assms(4)] del: succeeds_thenP, subst succeeds_thenP, simp del: succeeds_thenP,
        rule succeeds_attempt, rule succeeds_mono [OF urc], simp add: tail del: succeeds_thenP)
qed

section \<open>Initializing\<close>

lemma succeeds_enable_registration_urcs:
  assumes "configurable e" "\<And>d'. alike d d' \<Longrightarrow> Q () d'"
  shows "succeeds (enable_registration_urcs e) Q d"
proof -
  have first: "succeeds (attempt (dev_cmd e c True)) (\<lambda>_. alike d) d" for c :: "unit at_cmd"
  proof (rule succeeds_dropped)
    show "wp (dev_cmd e c True) (\<lambda>_. alike d) (\<lambda>_. alike d) d"
      using keeps_wp [OF cmd_frame_cmd, of e c True d]
      by (rule wp_mono) (simp_all add: alike_def cmd_frame_def)
  qed (simp add: dev_cmd_def halting)
  show ?thesis
    unfolding enable_registration_urcs_def succeeds_thenP succeeds_bindP succeeds_okP
    using assms(1)
    by (intro succeeds_mono [OF first]) (auto intro!: succeeds_rules assms(2) simp: alike_def)
qed

lemma succeeds_registration_reset:
  "(\<And>r w. Q () (r, w)) \<Longrightarrow> succeeds (registration_reset e) Q s"
  by (cases s) (simp add: succeeds_def registration_reset_run split: prod.split)

text \<open>The configuration ends well whatever the poll finds; \<open>R\<close> is what it makes of the registration.\<close>

lemma succeeds_configure_found:
  fixes e :: "'w env" and d :: "('w, 's) device"
  assumes "configurable e"
    and "\<And>(n :: 'w network) Q. (\<And>n'. conn_state (net_status n') = conn_state (net_status n) \<Longrightarrow>
        R (net_status n') \<Longrightarrow> tx_timeouts (net_tx n') = 0 \<Longrightarrow> Q () n') \<Longrightarrow> succeeds (update_registration e) Q n"
    and "\<And>r x y. R (r\<lparr>reg_start_time := x, reg_check_time := y\<rparr>) = R r"
    and "\<And>d'. dev_power d' = dev_power d \<Longrightarrow> dev_state d' = FullyInitialized \<Longrightarrow>
      conn_state (net_status (dev_network d')) = Connecting \<Longrightarrow>
      R (net_status (dev_network d')) \<Longrightarrow> tx_timeouts (net_tx (dev_network d')) = 0 \<Longrightarrow> Q () d'"
  shows "succeeds (configure e k) Q d"
  unfolding configure_def succeeds_thenP succeeds_bindP on_net_def on_status_def succeeds_zoom
    succeeds_map_errP succeeds_modifyP whenP_def set_state_def
  using assms(1)
  by (auto intro!: succeeds_setup_at_commands succeeds_rules succeeds_enable_registration_urcs
      succeeds_registration_reset succeeds_dev_send [OF queries(5)] assms(2)
      succeeds_reset_reg_time assms(4) simp: alike_def set_connection_state_eq assms(3))

text \<open>A device that has still to be configured, and one that is connected.\<close>

definition unconfigured :: "('w, 's) device \<Rightarrow> bool" where
  "unconfigured d \<longleftrightarrow> dev_power d \<noteq> On \<or> dev_state d \<noteq> FullyInitialized"

definition in_service :: "('w, 's) device \<Rightarrow> bool" where
  "in_service d \<longleftrightarrow> dev_power d = On \<and> dev_state d = FullyInitialized \<and> is_connected (dev_network d)"

lemma succeeds_initialize_found:
  fixes e :: "'w env" and d :: "('w, 's) device"
  assumes "configurable e"
    and "\<And>(n :: 'w network) Q. (\<And>n'. conn_state (net_status n') = conn_state (net_status n) \<Longrightarrow>
        R (net_status n') \<Longrightarrow> tx_timeouts (net_tx n') = 0 \<Longrightarrow> Q () n') \<Longrightarrow> succeeds (update_registration e) Q n"
    and "\<And>r x y. R (r\<lparr>reg_start_time := x, reg_check_time := y\<rparr>) = R r"
    and "unconfigured d"
  shows "succeeds (initialize e k)
    (\<lambda>_ d'. dev_power d' = On \<and> dev_state d' = FullyInitialized
       \<and> conn_state (net_status (dev_network d')) = Connecting \<and> R (net_status (dev_network d'))
       \<and> tx_timeouts (net_tx (dev_network d')) = 0) d"
proof (cases "dev_power d = On")
  case True
  with assms(1,4) show ?thesis
    by (auto simp: initialize_def unconfigured_def intro!: succeeds_configure_found [where R = R] assms(2,3))
next
  case False
  with assms(1) show ?thesis
    by (auto simp: initialize_def set_state_def set_power_def
        intro!: succeeds_attempt succeeds_power_on succeeds_configure_found [where R = R] assms(2,3))
qed

lemma succeeds_initialize:
  assumes "cooperative e" "unconfigured d"
  shows "succeeds (initialize e k)
    (\<lambda>_ d'. dev_power d' = On \<and> dev_state d' = FullyInitialized
       \<and> conn_state (net_status (dev_network d')) = Connecting \<and> on_the_air (net_status (dev_network d'))
       \<and> tx_timeouts (net_tx (dev_network d')) = 0) d"
proof (rule succeeds_initialize_found [OF cooperative_configurable [OF assms(1)] _ _ assms(2)])
  show "succeeds (update_registration e) Q n"
    if "\<And>n'. conn_state (net_status n') = conn_state (net_status n) \<Longrightarrow> on_the_air (net_status n') \<Longrightarrow>
      tx_timeouts (net_tx n') = 0 \<Longrightarrow> Q () n'" for n Q
    using assms(1) that by (intro succeeds_update_registration) (simp_all add: cooperative_def)
qed (simp add: on_the_air_def)

lemma succeeds_urcs:
  assumes "\<And>d'. alike d d' \<Longrightarrow> tx_timeouts (net_tx (dev_network d')) = tx_timeouts (net_tx (dev_network d)) \<Longrightarrow> Q () d'"
  shows "succeeds (handle_urc_internal e k) Q d"
  using assms
  by (auto simp: handle_urc_internal_def succeeds_def bindP_def getsP_def on_dev_world_run
      try_next_message_def okP_def modifyP_def alike_def put_world_def put_tx_def
      split: option.split prod.split)

text \<open>In service, and set to stay there.\<close>

definition settled :: "('w, 's) device \<Rightarrow> bool" where
  "settled d \<longleftrightarrow> dev_power d = On \<and> dev_state d = FullyInitialized \<and> settled_network (dev_network d)"

lemma settled_in_service: "settled d \<Longrightarrow> in_service d"
  by (simp add: settled_def in_service_def is_connected_def settled_network_def)

lemma succeeds_events:
  assumes "cooperative e" "dev_power d = On" "dev_state d = FullyInitialized"
    "conn_state (net_status (dev_network d)) \<noteq> Disconnected" "on_the_air (net_status (dev_network d))"
    "tx_timeouts (net_tx (dev_network d)) \<le> 10"
    and "wp (handle_urc_internal e k) (\<lambda>_ d'. J (dev_sockets d')) (\<lambda>_ _. True) d"
  shows "succeeds (dev_process_events e k) (\<lambda>_ d'. settled d' \<and> J (dev_sockets d')) d"
proof -
  have urcs: "succeeds (handle_urc_internal e k) (\<lambda>_ d'. (alike d d'
      \<and> tx_timeouts (net_tx (dev_network d')) \<le> 10) \<and> J (dev_sockets d')) d"
    by (rule succeeds_wp [OF _ assms(7)], rule succeeds_urcs) (simp add: assms(6))
  have net: "succeeds (net_process_events e) (\<lambda>_. settled_network) (dev_network d')"
    if "alike d d'" "tx_timeouts (net_tx (dev_network d')) \<le> 10" for d' :: "('a, 'b) device"
    using that assms(4,5) by (intro succeeds_net_process_events [OF assms(1)]) (simp_all add: alike_def)
  show ?thesis
    using assms(2,3) unfolding dev_process_events_def on_net_def
    by (auto simp: settled_def alike_def
        intro!: succeeds_mono [OF urcs] succeeds_attempt succeeds_mono [OF net])
qed

text \<open>Configured, with a registration that will be found connected by the next round.\<close>

definition ready :: "('w, 's) device \<Rightarrow> bool" where
  "ready d \<longleftrightarrow> dev_power d = On \<and> dev_state d = FullyInitialized
     \<and> conn_state (net_status (dev_network d)) \<noteq> Disconnected \<and> on_the_air (net_status (dev_network d))
     \<and> tx_timeouts (net_tx (dev_network d)) \<le> 10"

lemma settled_ready: "settled d \<Longrightarrow> ready d"
  by (simp add: settled_def settled_network_def ready_def)

text \<open>A device that \<open>spin\<close> has in service afterwards: it has still to be configured, or it is ready. \<open>J\<close> is what
  its sockets are to satisfy then; bringing a device up says nothing of them, otherwise the URC handled must
  see to it.\<close>

definition fit :: "'w env \<Rightarrow> ('w, 's) socket_api \<Rightarrow> ((socket_handle \<times> 's) list option \<Rightarrow> bool) \<Rightarrow> ('w, 's) device \<Rightarrow> bool" where
  "fit e k J d \<longleftrightarrow> unconfigured d \<and> (\<forall>socks. J socks)
     \<or> ready d \<and> wp (handle_urc_internal e k) (\<lambda>_ d'. J (dev_sockets d')) (\<lambda>_ _. True) d"

lemma fit_any: "unconfigured d \<or> ready d \<Longrightarrow> fit e k (\<lambda>_. True) d"
  by (auto simp: fit_def wp_any)

lemma succeeds_spin:
  assumes "cooperative e" "fit e k J d"
  shows "succeeds (spin e k) (\<lambda>_ d'. settled d' \<and> J (dev_sockets d')) d"
proof -
  have init: "succeeds (initialize e k) (\<lambda>_ d'. dev_power d' = On \<and> dev_state d' = FullyInitialized
       \<and> conn_state (net_status (dev_network d')) \<noteq> Disconnected \<and> on_the_air (net_status (dev_network d'))
       \<and> tx_timeouts (net_tx (dev_network d')) \<le> 10
       \<and> wp (handle_urc_internal e k) (\<lambda>_ d'. J (dev_sockets d')) (\<lambda>_ _. True) d') d"
    using assms(2) unfolding fit_def
  proof (elim disjE conjE)
    assume "unconfigured d" "\<forall>socks. J socks"
    then show ?thesis by (intro succeeds_mono [OF succeeds_initialize [OF assms(1)]]) (simp_all add: wp_any)
  qed (simp add: initialize_def ready_def)
  show ?thesis
    unfolding spin_def succeeds_bindP
    by (rule succeeds_attempt, rule succeeds_mono [OF init])
      (auto intro!: succeeds_mono [OF succeeds_events [OF assms(1), where J = J]]
        simp: settled_def is_connected_def settled_network_def)
qed

section \<open>The data context\<close>

lemma succeeds_define_context:
  assumes "acknowledges e" "\<And>n'. undisturbed n n' \<Longrightarrow> Q () n'"
  shows "succeeds (define_context e cid info) Q n"
  unfolding define_context_def
  by (auto intro!: succeeds_net_cmd [OF answers_directive [OF assms(1)]] assms(2) simp: undisturbed_def served_def
      split: apn.split)

lemma succeeds_set_configs:
  assumes "acknowledges e" "list_all param_fits xs" "\<And>n'. undisturbed n n' \<Longrightarrow> Q () n'"
  shows "succeeds (set_configs e p xs) Q n"
  using assms(2,3)
proof (induction xs arbitrary: n)
  case Nil
  then show ?case by simp
next
  case (Cons x xs)
  have "succeeds (net_cmd e (plain (Psn_Context (SetPacketSwitchedConfig p x))) True)
      (\<lambda>_. succeeds (set_configs e p xs) Q) n"
    by (rule succeeds_net_cmd [OF answers_directive [OF assms(1)]], simp, rule Cons.IH)
      (use Cons.prems in \<open>auto intro: undisturbed_trans [OF undisturbed_served(2)]\<close>)
  with Cons.prems(1) show ?case
    unfolding set_configs.simps succeeds_thenP by (simp add: succeeds_def set_config_def)
qed

lemma succeeds_activate_upsd:
  assumes "cooperative e" "list_all param_fits (upsd_params e info)"
    and "\<And>n'. undisturbed n n' \<Longrightarrow> net_context n' = Active \<Longrightarrow> Q () n'"
  shows "succeeds (activate_context_upsd e PROFILE_ID info) Q n"
proof -
  have ack: "acknowledges e"
    and data: "answers e (get_packet_switched_network_data PROFILE_ID
        packet_switched_network_data_param.PsdProfileStatus) (\<lambda>_. True)"
    using assms(1) by (simp_all add: cooperative_def configurable_def)
  show ?thesis
    unfolding activate_context_upsd_def
    by (auto intro!: succeeds_net_send [OF data] succeeds_set_configs [OF ack assms(2)]
        succeeds_net_cmd [OF answers_directive [OF ack]] assms(3) simp: undisturbed_def served_def whenP_def)
qed

lemma succeeds_activate:
  assumes "cooperative e" "\<And>n'. undisturbed n n' \<Longrightarrow> net_context n' = Active \<Longrightarrow> Q () n'"
  shows "succeeds (activate_context e CONTEXT_ID PROFILE_ID) Q n"
proof -
  have ack: "acknowledges e"
    and states: "answers e get_pdp_context_state (context_activated CONTEXT_ID)"
    and config: "answers e (get_packet_switched_config PROFILE_ID packet_switched_param_req.MapProfile) (\<lambda>_. True)"
    and data: "answers e (get_packet_switched_network_data PROFILE_ID
        packet_switched_network_data_param.PsdProfileStatus) (\<lambda>_. True)"
    using assms(1) by (simp_all add: cooperative_def configurable_def)
  have profile: "succeeds (activate_profile e CONTEXT_ID PROFILE_ID) R n1"
    if "\<And>n'. undisturbed n1 n' \<Longrightarrow> R () n'" for R and n1 :: "'a network"
    unfolding activate_profile_def
    by (auto intro!: succeeds_net_send [OF config] succeeds_net_send [OF data] succeeds_net_cmd [OF data]
        succeeds_net_cmd [OF answers_directive [OF ack]] that simp: undisturbed_def served_def whenP_def
        split: packet_switched_param.split)
  show ?thesis
    unfolding activate_context_def
    by (auto intro!: succeeds_net_send [OF states] profile assms(2) simp: undisturbed_def served_def whenP_def)
qed

lemma succeeds_service_connect:
  assumes "cooperative e" "upsd_context_activation (variant e) \<longrightarrow> list_all param_fits (upsd_params e info)"
    and "\<And>n'. undisturbed n n' \<Longrightarrow> net_context n' = Active \<Longrightarrow> Q () n'"
  shows "succeeds (service_connect e info) Q n"
proof -
  have attached: "answers e get_gprs_attached (\<lambda>a. a = gprs_attached_state.Attached)"
    using assms(1) by (simp add: cooperative_def configurable_def)
  have "succeeds (attach_network e) (\<lambda>_. undisturbed n) n"
    by (auto simp: attach_network_def numeral_eq_Suc undisturbed_def served_def intro!: succeeds_net_send [OF attached])
  then have "succeeds (thenP (attach_network e)
      (if upsd_context_activation (variant e) then activate_context_upsd e PROFILE_ID info
       else activate_context e CONTEXT_ID PROFILE_ID)) Q n"
    using assms
    by (auto elim!: succeeds_mono intro!: succeeds_activate_upsd [OF assms(1)] succeeds_activate [OF assms(1)]
        dest: undisturbed_trans)
  then show ?thesis
    using assms(3) by (auto simp: service_connect_def split: context_state.split if_splits)
qed

text \<open>What \<open>data_service\<close> does once the device is in service is settled by what reading for the sockets does.\<close>

lemma succeeds_serving:
  assumes "cooperative e" "upsd_context_activation (variant e) \<longrightarrow> list_all param_fits (upsd_params e info)"
    and "settled d"
    and "\<And>n. settled_network n \<Longrightarrow> net_context n = Active \<Longrightarrow>
      succeeds (whenP (dev_sockets d \<noteq> None) (map_errP Other (socket_ingress_all e k)))
        (\<lambda>_ s. Q () (d\<lparr>dev_network := ds_network s, dev_sockets := ds_sockets s\<rparr>))
        \<lparr>ds_network = n, ds_sockets = dev_sockets d\<rparr>"
  shows "succeeds (thenP (define_device_context e info) (map_errP nb_of_data (on_service (try_new e k info)))) Q d"
proof -
  have net: "settled_network (dev_network d)" using assms(3) by (simp add: settled_def)
  have serve: "succeeds (on_service (try_new e k info)) Q (d\<lparr>dev_network := n\<rparr>)"
    if "undisturbed (dev_network d) n" for n
  proof -
    have "succeeds (service_connect e info) (\<lambda>_ n'. settled_network n' \<and> net_context n' = Active) n"
      using settled_undisturbed [OF net that]
      by (auto intro!: succeeds_service_connect [OF assms(1,2)] dest: settled_undisturbed)
    then show ?thesis
      unfolding on_service_def try_new_def on_ds_net_def
      by (auto elim!: succeeds_mono dest!: assms(4))
  qed
  show ?thesis
    using serve [of "dev_network d"] assms(1) unfolding define_device_context_def
    by (auto simp: whenP_def on_net_def cooperative_def configurable_def intro!: succeeds_define_context serve)
qed

lemma succeeds_data_service:
  assumes "cooperative e" "fit e k J d"
    and "upsd_context_activation (variant e) \<longrightarrow> list_all param_fits (upsd_params e info)"
    and "\<And>d1 n. settled d1 \<Longrightarrow> J (dev_sockets d1) \<Longrightarrow> settled_network n \<Longrightarrow> net_context n = Active \<Longrightarrow>
      succeeds (whenP (dev_sockets d1 \<noteq> None) (map_errP Other (socket_ingress_all e k)))
        (\<lambda>_ s. Q () (d1\<lparr>dev_network := ds_network s, dev_sockets := ds_sockets s\<rparr>))
        \<lparr>ds_network = n, ds_sockets = dev_sockets d1\<rparr>"
  shows "succeeds (data_service e k info) Q d"
  unfolding data_service_def succeeds_bindP
  by (rule succeeds_attempt, rule succeeds_mono [OF succeeds_spin [OF assms(1,2)]])
    (auto simp del: succeeds_thenP intro!: succeeds_serving [OF assms(1,3)] assms(4))

lemma succeeds_in_service:
  assumes "cooperative e" "unconfigured d \<or> ready d"
    and "upsd_context_activation (variant e) \<longrightarrow> list_all param_fits (upsd_params e info)"
  shows "succeeds (data_service e k info)
    (\<lambda>_ d'. in_service d' \<and> net_context (dev_network d') = Active) d"
proof (rule succeeds_data_service [OF assms(1) fit_any [OF assms(2)] assms(3)])
  fix d1 :: "('a, 'b) device" and n :: "'a network"
  assume "settled d1" "settled_network n" "net_context n = Active"
  show "succeeds (whenP (dev_sockets d1 \<noteq> None) (map_errP Other (socket_ingress_all e k)))
      (\<lambda>_ s. in_service (d1\<lparr>dev_network := ds_network s, dev_sockets := ds_sockets s\<rparr>)
         \<and> net_context (dev_network (d1\<lparr>dev_network := ds_network s, dev_sockets := ds_sockets s\<rparr>)) = Active)
      \<lparr>ds_network = n, ds_sockets = dev_sockets d1\<rparr>"
  proof (cases "dev_sockets d1")
    case (Some socks)
    obtain socks' n' where run: "ingress_loop e k socks n = Some (socks', n')"
      using ingress_loop_returns by blast
    with ingress_loop_frame [OF run] Some \<open>settled d1\<close> \<open>settled_network n\<close> \<open>net_context n = Active\<close> show ?thesis
      by (simp add: succeeds_def whenP_def map_errP_def socket_ingress_all_def settled_def in_service_def
          is_connected_def settled_network_def)
  qed (use \<open>settled d1\<close> \<open>settled_network n\<close> \<open>net_context n = Active\<close> in
      \<open>simp add: whenP_def in_service_def settled_def is_connected_def settled_network_def\<close>)
qed

section \<open>The TCP stack\<close>

text \<open>A module that gives out one handle and takes what is written to it.\<close>

definition takes_data :: "'w env \<Rightarrow> socket_handle \<Rightarrow> bool" where
  "takes_data e h \<longleftrightarrow> acknowledges e
     \<and> (\<forall>c. answers e (write_socket_data_binary c) (\<lambda>r. r = (h, length c)))"

definition hosts :: "'w env \<Rightarrow> socket_handle \<Rightarrow> bool" where
  "hosts e h \<longleftrightarrow> takes_data e h \<and> answers e (create_socket socket_protocol.TCP None) (\<lambda>x. x = h)"

text \<open>A module that answers the requests for data, for any socket.\<close>

definition answers_reads :: "'w env \<Rightarrow> bool" where
  "answers_reads e \<longleftrightarrow> (\<forall>h n. answers e (read_socket_data h n) (\<lambda>_. True)
     \<and> answers e (read_udp_socket_data h n) (\<lambda>_. True))"

lemma answers_logged: "answers e c P \<Longrightarrow> answers (logged e) c P"
  by (auto simp: answers_def logged_def split: prod.split) (metis fst_conv)

lemma logged_cooperation:
  "acknowledges e \<Longrightarrow> acknowledges (logged e)" "takes_data e h \<Longrightarrow> takes_data (logged e) h"
  "hosts e h \<Longrightarrow> hosts (logged e) h"
  by (simp_all add: acknowledges_def takes_data_def hosts_def answers_logged)

lemma configurable_logged:
  assumes "configurable e"
  shows "configurable (logged e)"
proof -
  have "fst (vint_is_high (logged e) w) = fst (vint_is_high e (fst w))" for w
    by (cases w) (simp add: logged_def split: prod.split)
  with assms show ?thesis by (auto simp: configurable_def logged_cooperation answers_logged)
qed

lemma cooperative_logged: "cooperative e \<Longrightarrow> cooperative (logged e)"
  by (auto simp: cooperative_def answers_registered_def answers_logged configurable_logged)

text \<open>What a call of a stack leaves alone.\<close>

definition same_status :: "('w, 's) service \<Rightarrow> ('w, 's) service \<Rightarrow> bool" where
  "same_status s s' \<longleftrightarrow> undisturbed (ds_network s) (ds_network s')"

lemma same_status_trans: "same_status s s' \<Longrightarrow> same_status s' s'' \<Longrightarrow> same_status s s''"
  by (auto simp: same_status_def dest: undisturbed_trans)

lemma succeeds_stack_send:
  assumes "answers e c P"
    and "\<And>r s'. P r \<Longrightarrow> ds_sockets s' = ds_sockets s \<Longrightarrow> same_status s s' \<Longrightarrow>
      sent (ds_world s') = sent (ds_world s) @ [cmd_req c] \<Longrightarrow> Q r s'"
  shows "succeeds (stack_send (logged e) c b) Q s"
proof -
  have "succeeds (stack_send (logged e) c b) (\<lambda>r s'. P r \<and> ds_sockets s' = ds_sockets s \<and> same_status s s') s"
    unfolding stack_send_def on_ds_net_def same_status_def
    by (auto intro!: succeeds_send_internal [OF answers_logged [OF assms(1)]] simp: undisturbed_served)
  moreover have "wp (stack_send (logged e) c b)
      (\<lambda>_ s'. sent (ds_world s') = sent (ds_world s) @ [cmd_req c]) (\<lambda>_ _. True) s"
    by (rule wp_stack_send_logged) simp_all
  ultimately show ?thesis
    by (rule succeeds_mono [OF succeeds_wp]) (simp add: assms(2))
qed

lemma succeeds_tcp_write:
  fixes s :: "('w \<times> at_req list, 's) service"
  assumes "takes_data e h"
    and "\<And>s'. ds_sockets s' = ds_sockets s \<Longrightarrow> same_status s s' \<Longrightarrow>
      sent (ds_world s') = sent (ds_world s) @ tcp_requests h cs \<Longrightarrow> Q () s'"
  shows "succeeds (tcp_write (logged e) h cs) Q s"
  using assms(2)
proof (induction cs arbitrary: s)
  case Nil
  then show ?case by (simp add: same_status_def undisturbed_def)
next
  case (Cons c cs)
  have ack: "acknowledges e" and writes: "answers e (write_socket_data_binary c) (\<lambda>r. r = (h, length c))"
    using assms(1) by (simp_all add: takes_data_def)
  show ?case
    by (auto intro!: succeeds_stack_send [OF answers_directive [OF ack]] succeeds_stack_send [OF writes]
        Cons) (blast intro: same_status_trans)
qed

lemma succeeds_get_tcp:
  "ds_sockets s = Some socks \<Longrightarrow> st_tcp st h socks = Inr t \<Longrightarrow> Q t s \<Longrightarrow> succeeds (get_tcp st h) Q s"
  by (simp add: get_tcp_def with_sockets_def)

lemma succeeds_tcp_send:
  assumes "takes_data e h" "ds_sockets s = Some socks" "st_tcp st h socks = Inr t" "tcp_connected st t"
    and "\<And>s'. ds_sockets s' = ds_sockets s \<Longrightarrow> same_status s s' \<Longrightarrow>
      stream (sent (ds_world s')) = (stream (sent (ds_world s)))(h := stream (sent (ds_world s)) h @ buffer) \<Longrightarrow>
      Q (length buffer) s'"
  shows "succeeds (tcp_send (logged e) st h buffer) Q s"
proof -
  let ?cs = "chunks EGRESS_CHUNK_SIZE buffer"
  have "stream (qs @ tcp_requests h ?cs) = (stream qs)(h := stream qs h @ buffer)" for qs
    using stream_append_requests [of ?cs qs "length (tcp_requests h ?cs)" h]
    by (auto simp: concat_chunks EGRESS_CHUNK_SIZE_def)
  then show ?thesis
    unfolding tcp_send_def tcp_is_connected_def
    using assms(4,5) by (auto intro!: succeeds_get_tcp [OF assms(2,3)] succeeds_tcp_write [OF assms(1)])
qed

text \<open>What the socket set is relied on to do: a socket that was added is found under its handle, as the
  socket it becomes when it is connected or read from, and a connected one is connected.\<close>

definition keeps_sockets :: "('w, 's) stack_api \<Rightarrow> socket_handle \<Rightarrow> bool" where
  "keeps_sockets st h \<longleftrightarrow>
     (\<forall>socks. h \<notin> fst ` set socks \<and> st_len st socks < st_capacity st socks \<longrightarrow>
        (\<exists>socks'. st_add st (tcp_new st h) socks = (Inr h, socks')
           \<and> st_tcp st h socks' = Inr (tcp_new st h)))
     \<and> (\<forall>socks t. st_tcp st h socks = Inr t \<longrightarrow>
          (\<forall>a. st_tcp st h (update_first h (tcp_set_connected st a) socks) = Inr (tcp_set_connected st a t))
          \<and> (\<forall>b. st_tcp st h (update_first h (\<lambda>_. snd (snd (tcp_recv_slice st b t))) socks)
               = Inr (snd (snd (tcp_recv_slice st b t)))))
     \<and> tcp_created st (tcp_new st h)
     \<and> (\<forall>a. tcp_connected st (tcp_set_connected st a (tcp_new st h)))"

lemma succeeds_tcp_socket:
  assumes "hosts e h" "keeps_sockets st h" "ds_sockets s = Some socks" "h \<notin> fst ` set socks"
    "st_len st socks < st_capacity st socks"
    and "\<And>socks' s'. ds_sockets s' = Some socks' \<Longrightarrow> st_tcp st h socks' = Inr (tcp_new st h) \<Longrightarrow> same_status s s' \<Longrightarrow>
      sent (ds_world s') = sent (ds_world s) @ [Socket (CreateSocket socket_protocol.TCP None)] \<Longrightarrow> Q h s'"
  shows "succeeds (tcp_socket (logged e) st) Q s"
proof -
  have create: "answers e (create_socket socket_protocol.TCP None) (\<lambda>x. x = h)"
    using assms(1) by (simp add: hosts_def)
  obtain socks' where add: "st_add st (tcp_new st h) socks = (Inr h, socks')" "st_tcp st h socks' = Inr (tcp_new st h)"
    using assms(2,4,5) unfolding keeps_sockets_def by blast
  have "succeeds (on_sockets (st_add st (tcp_new st h))) Q t"
    if "ds_sockets t = Some socks" "same_status s t"
      "sent (ds_world t) = sent (ds_world s) @ [Socket (CreateSocket socket_protocol.TCP None)]" for t
    using that add by (simp add: succeeds_def on_sockets_def assms(6) same_status_def undisturbed_def)
  with assms(3,5) show ?thesis
    unfolding tcp_socket_def open_socket_def with_sockets_def
    by (auto intro!: succeeds_stack_send [OF create])
qed

lemma succeeds_tcp_connect:
  assumes "acknowledges e" "keeps_sockets st h" "ds_sockets s = Some socks" "st_tcp st h socks = Inr (tcp_new st h)"
    and "\<And>socks' t s'. ds_sockets s' = Some socks' \<Longrightarrow> st_tcp st h socks' = Inr t \<Longrightarrow> tcp_connected st t \<Longrightarrow>
      same_status s s' \<Longrightarrow>
      sent (ds_world s') = sent (ds_world s) @ [Socket (SetSocketSslState h (ssl_tls_status.Enabled 0)),
         Socket (ConnectSocket h (fst remote) (snd remote))] \<Longrightarrow> Q () s'"
  shows "succeeds (tcp_connect (logged e) st h remote) Q s"
proof -
  have new: "tcp_created st (tcp_new st h)" using assms(2) by (simp add: keeps_sockets_def)
  have found: "st_tcp st h (update_first h (tcp_set_connected st remote) socks)
      = Inr (tcp_set_connected st remote (tcp_new st h))"
    "tcp_connected st (tcp_set_connected st remote (tcp_new st h))"
    using assms(2,4) unfolding keeps_sockets_def by blast+
  have "succeeds (on_sockets (\<lambda>socks. (Inr (), update_first h (tcp_set_connected st remote) socks))) Q t"
    if "ds_sockets t = Some socks" "same_status s t"
      "sent (ds_world t) = sent (ds_world s) @ [Socket (SetSocketSslState h (ssl_tls_status.Enabled 0)),
         Socket (ConnectSocket h (fst remote) (snd remote))]" for t
    using that found by (auto simp: succeeds_def on_sockets_def same_status_def undisturbed_def intro!: assms(5))
  with new assms(3) show ?thesis
    unfolding tcp_connect_def
    by (auto intro!: succeeds_get_tcp [OF assms(3,4)] succeeds_stack_send [OF answers_directive [OF assms(1)]]
        simp: same_status_def undisturbed_def)
qed

section \<open>A closed world\<close>

text \<open>The modem of the witnesses, as one that also has socket 0 and takes what is written to it.\<close>

definition hosting :: "at_req \<Rightarrow> at_resp" where
  "hosting q =
     (case q of
        Socket (CreateSocket _ _) \<Rightarrow> R_Socket (R_CreateSocketResponse 0)
      | Socket_Data (WriteSocketDataBinary c) \<Rightarrow> R_Socket (R_WriteSocketDataResponse 0 (length c))
      | Socket_Data (ReadSocketData h _) \<Rightarrow>
          R_Socket (R_SocketData \<lparr>sd_socket = h, sd_length = 0, sd_data = Some []\<rparr>)
      | Socket_Data (ReadUDPSocketData h _) \<Rightarrow>
          R_Socket (R_UDPSocketData \<lparr>ud_socket = h, ud_remote_addr = V4 0 0 0 0, ud_remote_port = 0,
            ud_length = 0, ud_data = Some []\<rparr>)
      | _ \<Rightarrow> obliging q)"

definition hosting_env :: "module_variant \<Rightarrow> cellular_config \<Rightarrow> instant env" where
  "hosting_env m cfg = (obliging_env m cfg)\<lparr>send_raw := (\<lambda>q t. (Inr (hosting q), t))\<rparr>"

lemma answers_hosting:
  "answers (hosting_env m cfg) c P \<longleftrightarrow> (\<exists>r. cmd_parse c (hosting (cmd_req c)) = Some r \<and> P r)"
  by (simp add: answers_def hosting_env_def)

lemma hosting_directive: "directive q \<Longrightarrow> hosting q = R_NoResponse"
  by (cases q rule: directive.cases) (simp_all add: obliging_def hosting_def)

lemma hosting_env_simps [simp]:
  "config (hosting_env m cfg) = cfg" "variant (hosting_env m cfg) = m"
  "vint_is_high (hosting_env m cfg) t = (Some True, t)"
  by (simp_all add: hosting_env_def)

lemma hosting_obliging [simp]:
  "hosting (General g) = obliging (General g)" "hosting (Device_Lock l) = obliging (Device_Lock l)"
  "hosting (Network_Service s) = obliging (Network_Service s)"
  "hosting (Psn_Context c) = obliging (Psn_Context c)"
  "hosting (Psn_Registration r) = obliging (Psn_Registration r)"
  by (simp_all add: hosting_def)

lemma acknowledges_hosting: "acknowledges (hosting_env m cfg)"
  by (simp add: acknowledges_def answers_hosting hosting_directive)

lemma cooperative_hosting: "cooperative (hosting_env m cfg)"
proof -
  have "answers_registered (hosting_env m cfg)"
    by (simp add: answers_registered_def answers_hosting status_of_eps_stat_def status_from_u8_def up_def)
  moreover have "cmd_parse (get_packet_switched_config p x) (obliging (Psn_Context (GetPacketSwitchedConfig p x))) \<noteq> None"
    for p x by (simp add: typed_cmd_defs typed_cmd_def obliging_def)
  ultimately show ?thesis
    by (simp add: cooperative_def configurable_def answers_hosting acknowledges_hosting context_activated_def CONTEXT_ID_def)
qed

lemma answers_reads_hosting: "answers_reads (hosting_env m cfg)"
  by (simp add: answers_reads_def answers_hosting read_socket_data_parse read_udp_socket_data_parse hosting_def
      opt_fits_def)

lemma hosts_hosting: "hosts (hosting_env m cfg) 0"
  by (simp add: hosts_def takes_data_def acknowledges_hosting answers_hosting create_socket_def
      write_socket_data_binary_def typed_cmd_def hosting_def)

lemma keeps_sockets_tiny: "keeps_sockets tiny_stack 0"
  by (auto simp: keeps_sockets_def tiny_stack_def tiny_get_def map_of_update_first split: option.splits)

section \<open>Properties\<close>

text \<open>Liveness. Whatever world it runs in, a modem that cooperates gets an unconfigured device
  into service: one call of \<open>data_service\<close> returns, without an error, with the module powered, configured
  and registered and the data context active; for every module variant, every configuration of the pins,
  every access point whose strings fit, every set of sockets, and whatever URCs come in between.\<close>

theorem data_service_succeeds:
  assumes "cooperative e" "unconfigured d"
    and "upsd_context_activation (variant e) \<longrightarrow> list_all param_fits (upsd_params e info)"
  shows "\<exists>d'. data_service e k info d = Some (Inr (), d') \<and> in_service d'
    \<and> net_context (dev_network d') = Active"
  using succeedsD [OF succeeds_in_service [OF assms(1) disjI1 [OF assms(2)] assms(3), of k]] by auto

theorem data_service_succeeds_witness:
  "\<exists>d'. data_service (hosting_env Lara_R6 pins) dull_sockets (apn_info_new ''internet'') (device_new 0)
       = Some (Inr (), d') \<and> in_service d' \<and> net_context (dev_network d') = Active"
  by (rule data_service_succeeds [OF cooperative_hosting])
    (simp_all add: unconfigured_def device_new_def upsd_context_activation_def)

text \<open>C10: a connected TCP socket of a module that takes data: \<open>send\<close> returns the length of the buffer,
  the whole buffer is on the stream of the socket at the module, and no other stream has changed.\<close>

theorem tcp_send_delivers:
  assumes "takes_data e h" "ds_sockets s = Some socks" "st_tcp st h socks = Inr t" "tcp_connected st t"
  shows "\<exists>s'. tcp_send (logged e) st h buffer s = Some (Inr (length buffer), s')
    \<and> stream (sent (ds_world s')) = (stream (sent (ds_world s)))(h := stream (sent (ds_world s)) h @ buffer)
    \<and> ds_sockets s' = ds_sockets s"
proof -
  have "succeeds (tcp_send (logged e) st h buffer) (\<lambda>n s'. n = length buffer \<and> ds_sockets s' = ds_sockets s
    \<and> stream (sent (ds_world s')) = (stream (sent (ds_world s)))(h := stream (sent (ds_world s)) h @ buffer)) s"
    by (rule succeeds_tcp_send [OF assms]) simp
  from succeedsD [OF this] show ?thesis by blast
qed

theorem tcp_send_delivers_witness:
  "\<forall>w. \<exists>s'. tcp_send (logged (hosting_env Toby_R2 pins)) tiny_stack 0 [104, 105]
      \<lparr>ds_network = network_new (at_tx_new (w, [])), ds_sockets = Some [(0, True, None, [])]\<rparr> = Some (Inr 2, s')
    \<and> stream (sent (ds_world s')) 0 = [104, 105]"
proof
  fix w :: instant
  let ?s = "\<lparr>ds_network = network_new (at_tx_new (w, [])), ds_sockets = Some [(0, True, None, [])]\<rparr>
    :: (instant \<times> at_req list, tiny_socket) service"
  show "\<exists>s'. tcp_send (logged (hosting_env Toby_R2 pins)) tiny_stack 0 [104, 105] ?s = Some (Inr 2, s')
    \<and> stream (sent (ds_world s')) 0 = [104, 105]"
    using tcp_send_delivers [of "hosting_env Toby_R2 pins" 0 ?s "[(0, True, None, [])]" tiny_stack
        "(True, None, [])" "[104, 105]"] hosts_hosting
    by (auto simp: hosts_def tiny_stack_def tiny_get_def network_new_def at_tx_new_def stream_def)
qed

end
