(* ===== verification/Socket_Client.thy ===== *)
theory Socket_Client
  imports Lifecycle Cooperative_Modem
begin

text \<open>
  \<open>examples/sockets/src/main.rs\<close>: the client of the driver, a loop that keeps a TCP socket open, sends a
  message on it and reads the answer. Its functions are generic in the \<open>TcpClientStack\<close> of
  \<open>embedded_nal\<close>: \<open>tcp_client\<close> is that trait, the locale \<open>nonblocking_stack\<close> what the client relies on,
  and the TCP stack of a data service, of \<open>Socket_Stacks\<close>, interprets it. With a modem that cooperates
  one turn of the loop takes a device from off to a message delivered.
\<close>

section \<open>The interface\<close>

record ('s, 'h, 'a, 'e) tcp_client =
  tc_socket :: "('s, 'e, 'h) prog"
  tc_connect :: "'h \<Rightarrow> 'a \<Rightarrow> ('s, 'e nb, unit) prog"
  tc_is_connected :: "'h \<Rightarrow> ('s, 'e, bool) prog"
  tc_send :: "'h \<Rightarrow> bytes \<Rightarrow> ('s, 'e nb, nat) prog"
  tc_receive :: "'h \<Rightarrow> (bytes \<times> 's, 'e nb, nat) prog"
  tc_close :: "'h \<Rightarrow> ('s, 'e, unit) prog"

text \<open>\<open>impl TcpClientStack for DataService\<close>.\<close>

definition service_tcp ::
    "'w env \<Rightarrow> ('w, 's) stack_api \<Rightarrow> (('w, 's) service, socket_handle, socket_addr, socket_error) tcp_client" where
  "service_tcp e st =
     \<lparr>tc_socket = tcp_socket e st, tc_connect = tcp_connect e st, tc_is_connected = tcp_is_connected st,
      tc_send = tcp_send e st, tc_receive = tcp_receive st, tc_close = close_socket e st\<rparr>"

text \<open>The macro \<open>nb::block!\<close> at the types it is used at. \<open>blocks\<close> is what it does: run the program until
  it answers something else than \<open>WouldBlock\<close>.\<close>

record ('s, 'e) nb_macro =
  block_unit :: "('s, 'e nb, unit) prog \<Rightarrow> ('s, 'e, unit) prog"
  block_nat :: "('s, 'e nb, nat) prog \<Rightarrow> ('s, 'e, nat) prog"
  block_read :: "(bytes \<times> 's, 'e nb, nat) prog \<Rightarrow> (bytes \<times> 's, 'e, nat) prog"

definition blocks :: "(('s, 'e nb, 'a) prog \<Rightarrow> ('s, 'e, 'a) prog) \<Rightarrow> bool" where
  "blocks b \<longleftrightarrow> (\<forall>m s. b m s =
     (case m s of
        None \<Rightarrow> None
      | Some (Inl WouldBlock, t) \<Rightarrow> b m t
      | Some (Inl (Other x), t) \<Rightarrow> Some (Inl x, t)
      | Some (Inr a, t) \<Rightarrow> Some (Inr a, t)))"

section \<open>The client\<close>

datatype network_failure = SocketOpen | SocketConnect | SocketClosed

text \<open>The client keeps an optional handle beside the stack it is given.\<close>

abbreviation beside_handle :: "('s, 'e, 'a) prog \<Rightarrow> ('h option \<times> 's, 'e, 'a) prog" where
  "beside_handle \<equiv> zoom snd (\<lambda>s (h, _). (h, s))"

abbreviation put_handle :: "'h option \<Rightarrow> ('h option \<times> 's, 'e, unit) prog" where
  "put_handle h \<equiv> modifyP (\<lambda>(_, s). (h, s))"

definition client_connect ::
    "('s, 'h, 'a, 'e) tcp_client \<Rightarrow> ('s, 'e) nb_macro \<Rightarrow> 'a
     \<Rightarrow> ('h option \<times> 's, network_failure, unit) prog" where
  "client_connect N B addr =
     bindP (getsP fst) (\<lambda>socket.
     bindP (case socket of
         None \<Rightarrow>
           bindP (map_errP (\<lambda>_. SocketOpen) (beside_handle (tc_socket N))) (\<lambda>h.
           thenP (put_handle (Some h)) (okP h))
       | Some h \<Rightarrow> okP h) (\<lambda>sock.
     bindP (attempt (beside_handle (block_unit B (tc_connect N sock addr)))) (\<lambda>res.
       case res of
         Inr _ \<Rightarrow> okP ()
       | Inl _ \<Rightarrow> thenP (put_handle None) (errP SocketConnect))))"

definition client_is_connected ::
    "('s, 'h, 'a, 'e) tcp_client \<Rightarrow> ('h option \<times> 's, network_failure, bool) prog" where
  "client_is_connected N =
     bindP (getsP fst) (\<lambda>socket.
       case socket of
         Some h \<Rightarrow> map_errP (\<lambda>_. network_failure.SocketClosed) (beside_handle (tc_is_connected N h))
       | None \<Rightarrow> errP network_failure.SocketClosed)"

text \<open>\<open>expect\<close>: an error panics.\<close>

definition expect :: "('s, 'e, 'a) prog \<Rightarrow> ('s, 'f, 'a) prog" where
  "expect m s =
     (case m s of
        None \<Rightarrow> None
      | Some (Inl _, _) \<Rightarrow> None
      | Some (Inr a, t) \<Rightarrow> Some (Inr a, t))"

text \<open>\<open>unwrap\<close> of the handle, which is there.\<close>

definition take_handle :: "('h option \<times> 's, 'e, 'h) prog" where
  "take_handle =
     bindP (getsP fst) (\<lambda>socket.
       case socket of
         None \<Rightarrow> (\<lambda>_. None)
       | Some h \<Rightarrow> thenP (put_handle None) (okP h))"

text \<open>Reading into a local buffer of zeros.\<close>

definition read_into :: "nat \<Rightarrow> (bytes \<times> 's, 'e, nat) prog \<Rightarrow> ('s, 'e, nat) prog" where
  "read_into n m s =
     (case m (replicate n 0, s) of None \<Rightarrow> None | Some (r, _, t) \<Rightarrow> Some (r, t))"

text \<open>The closure given to \<open>and_then\<close>: see to the socket, then use it if there is one.\<close>

definition keep_connected ::
    "('s, 'h, 'a, 'e) tcp_client \<Rightarrow> ('s, 'e) nb_macro \<Rightarrow> 'a \<Rightarrow> ('h option \<times> 's, device_error nb, unit) prog" where
  "keep_connected N B addr =
     bindP (attempt (client_is_connected N)) (\<lambda>res.
       case res of
         Inr False \<Rightarrow> bindP take_handle (\<lambda>sock. expect (beside_handle (tc_close N sock)))
       | Inl _ \<Rightarrow> bindP (attempt (client_connect N B addr)) (\<lambda>_. okP ())
       | Inr True \<Rightarrow> okP ())"

definition use_socket ::
    "('s, 'h, 'a, 'e) tcp_client \<Rightarrow> ('s, 'e) nb_macro \<Rightarrow> bytes \<Rightarrow> ('h option \<times> 's, device_error nb, unit) prog" where
  "use_socket N B message =
     bindP (getsP fst) (\<lambda>socket.
       case socket of
         None \<Rightarrow> okP ()
       | Some sock \<Rightarrow>
           thenP (bindP (attempt (beside_handle (block_nat B (tc_send N sock message)))) (\<lambda>_. okP ()))
                 (bindP (attempt (beside_handle (read_into 32 (block_read B (tc_receive N sock)))))
                    (\<lambda>_. okP ())))"

definition client_turn ::
    "('s, 'h, 'a, 'e) tcp_client \<Rightarrow> ('s, 'e) nb_macro \<Rightarrow> 'a \<Rightarrow> bytes
     \<Rightarrow> ('h option \<times> 's, device_error nb, unit) prog" where
  "client_turn N B addr message = thenP (keep_connected N B addr) (use_socket N B message)"

text \<open>\<open>format!("Whatup {}", count)\<close>.\<close>

fun decimal :: "nat \<Rightarrow> string" where
  "decimal n =
     (if n < 10 then [char_of (48 + n)] else decimal (n div 10) @ [char_of (48 + n mod 10)])"

declare decimal.simps [simp del]

definition whatup :: "nat \<Rightarrow> bytes" where
  "whatup count = map of_char (''Whatup '' @ decimal count)"

record ('w, 's) client =
  cl_device :: "('w, 's) device"
  cl_socket :: "socket_handle option"
  cl_count :: nat

text \<open>The address the client talks to, 195.34.89.241:7; \<open>count\<close> is an \<open>i32\<close>.\<close>

definition echo_server :: socket_addr where
  "echo_server = (V4 195 34 89 241, 7)"

abbreviation on_client_service ::
    "(socket_handle option \<times> ('w, 's) service, 'e, 'a) prog \<Rightarrow> (('w, 's) client, 'e, 'a) prog" where
  "on_client_service \<equiv>
     zoom (\<lambda>c. (cl_socket c, \<lparr>ds_network = dev_network (cl_device c), ds_sockets = dev_sockets (cl_device c)\<rparr>))
       (\<lambda>(h, s) c. c\<lparr>cl_socket := h,
          cl_device := (cl_device c)\<lparr>dev_network := ds_network s, dev_sockets := ds_sockets s\<rparr>\<rparr>)"

definition count_up :: "(('w, 's) client, device_error nb, unit) prog" where
  "count_up c =
     (if cl_count c + 1 < 2 ^ 31 then Some (Inr (), c\<lparr>cl_count := cl_count c + 1\<rparr>) else None)"

text \<open>One turn of the loop in \<open>main\<close>.\<close>

definition client_step ::
    "'w env \<Rightarrow> ('w, 's) socket_api \<Rightarrow> ('w, 's) stack_api \<Rightarrow> (('w, 's) service, socket_error) nb_macro
     \<Rightarrow> (('w, 's) client, device_error nb, unit) prog" where
  "client_step e k st B =
     bindP (getsP cl_count) (\<lambda>count.
     bindP (attempt (zoom cl_device (\<lambda>d c. c\<lparr>cl_device := d\<rparr>)
         (data_service e k (apn_info_new ''em'')))) (\<lambda>res.
     thenP (case res of
         Inr _ \<Rightarrow> on_client_service (client_turn (service_tcp e st) B echo_server (whatup count))
       | Inl _ \<Rightarrow> okP ())
       count_up))"

section \<open>Calls that do not block\<close>

lemma blocks_cases:
  assumes "blocks b"
  shows "m s = Some (Inr a, t) \<Longrightarrow> b m s = Some (Inr a, t)"
    "m s = Some (Inl (Other x), t) \<Longrightarrow> b m s = Some (Inl x, t)"
  by (subst assms [unfolded blocks_def, rule_format], simp)+

lemma halts_blocked:
  assumes "blocks b" "halts m" "\<And>s t. m s \<noteq> Some (Inl WouldBlock, t)"
  shows "halts (b m)"
proof (rule haltsI)
  fix s
  obtain r t where run: "m s = Some (r, t)" using haltsD [OF assms(2)] by blast
  show "b m s \<noteq> None"
  proof (cases r)
    case (Inl x)
    with run assms(3) [of s t] show ?thesis by (cases x) (simp_all add: blocks_cases [OF assms(1)])
  next
    case (Inr a)
    with run show ?thesis by (simp add: blocks_cases [OF assms(1)])
  qed
qed

lemma succeeds_blocked:
  assumes "blocks b" "succeeds m Q s"
  shows "succeeds (b m) Q s"
proof -
  obtain a t where "m s = Some (Inr a, t)" "Q a t" using succeedsD [OF assms(2)] by blast
  then show ?thesis by (simp add: succeeds_def blocks_cases [OF assms(1)])
qed

lemma halts_read_into:
  assumes "halts m"
  shows "halts (read_into n m)"
proof (rule haltsI)
  fix s
  obtain r t where "m (replicate n 0, s) = Some (r, t)" using haltsD [OF assms] by blast
  then show "read_into n m s \<noteq> None" by (cases t) (simp add: read_into_def)
qed

text \<open>The client waits inside \<open>block!\<close>; it relies on a stack whose calls return and never ask it to wait.\<close>

locale nonblocking_stack =
  fixes N :: "('s, 'h, 'a, 'e) tcp_client" and B :: "('s, 'e) nb_macro"
  assumes macro: "blocks (block_unit B)" "blocks (block_nat B)" "blocks (block_read B)"
    and never_blocks: "tc_connect N h a s \<noteq> Some (Inl WouldBlock, t)"
      "tc_send N h b s \<noteq> Some (Inl WouldBlock, t)" "tc_receive N h z \<noteq> Some (Inl WouldBlock, y)"
    and calls_return: "halts (tc_socket N)" "halts (tc_connect N h a)" "halts (tc_is_connected N h)"
      "halts (tc_send N h b)" "halts (tc_receive N h)"
begin

lemma blocked_calls [halting]:
  "halts (block_unit B (tc_connect N h a))" "halts (block_nat B (tc_send N h b))"
  "halts (block_read B (tc_receive N h))"
  by (intro halts_blocked macro never_blocks calls_return)+

lemma halts_read: "halts (read_into n (block_read B (tc_receive N h)))"
  by (rule halts_read_into) (rule blocked_calls)

lemma connect_returns: "halts (client_connect N B a)"
  unfolding client_connect_def by (intro halting) (auto intro!: halting calls_return split: option.split sum.split)

lemma is_connected_returns: "halts (client_is_connected N)"
  unfolding client_is_connected_def by (intro halting) (auto intro!: halting calls_return split: option.split)

lemma use_returns: "halts (use_socket N B b)"
  unfolding use_socket_def by (intro halting) (auto intro!: halting halts_read split: option.split)

lemma use_not_None [simp]: "use_socket N B b t \<noteq> None"
  using haltsD [OF use_returns, of b t] by auto

text \<open>A turn that does not return has failed to close a socket.\<close>

lemma connect_dropped:
  "bindP (attempt (client_connect N B a)) (\<lambda>_. okP ()) t \<noteq> None"
  using haltsD [OF connect_returns, of a t] by (auto simp: bindP_def attempt_def okP_def)

lemma keep_returns:
  assumes "keep_connected N B a (h, s) = None"
  shows "\<exists>sock t. h = Some sock \<and> tc_is_connected N sock s = Some (Inr False, t)
    \<and> (case tc_close N sock t of Some (Inr _, _) \<Rightarrow> False | _ \<Rightarrow> True)"
proof -
  show ?thesis
  proof (cases h)
    case None
    then have "client_is_connected N (h, s) = Some (Inl SocketClosed, None, s)"
      by (simp add: client_is_connected_def bindP_def getsP_def errP_def)
    with assms None show ?thesis
      by (simp add: keep_connected_def bindP_def [of "attempt (client_is_connected N)"] attempt_def [of "client_is_connected N"]
          connect_dropped)
  next
    case (Some sock)
    obtain r t where con: "tc_is_connected N sock s = Some (r, t)"
      using haltsD [OF calls_return(3)] by blast
    then have run: "client_is_connected N (h, s) = Some (map_sum (\<lambda>_. SocketClosed) id r, Some sock, t)"
      by (simp add: Some client_is_connected_def bindP_def getsP_def map_errP_def zoom_def)
    show ?thesis
    proof (cases r)
      case (Inl x)
      with assms run show ?thesis
        by (simp add: keep_connected_def bindP_def [of "attempt (client_is_connected N)"] attempt_def [of "client_is_connected N"]
          connect_dropped)
    next
      case (Inr up)
      with assms run con show ?thesis
        by (cases up)
          (auto simp: Some keep_connected_def bindP_def attempt_def okP_def take_handle_def thenP_def getsP_def
            modifyP_def expect_def zoom_def split: option.splits sum.splits)
    qed
  qed
qed

lemma turn_returns:
  assumes "client_turn N B a b (h, s) = None"
  shows "\<exists>sock t. h = Some sock \<and> tc_is_connected N sock s = Some (Inr False, t)
    \<and> (case tc_close N sock t of Some (Inr _, _) \<Rightarrow> False | _ \<Rightarrow> True)"
proof -
  have "keep_connected N B a (h, s) = None"
    using assms by (auto simp: client_turn_def thenP_def bindP_def split: option.splits sum.splits)
  then show ?thesis by (rule keep_returns)
qed

end

section \<open>The TCP stack of a data service\<close>

text \<open>A block macro: the program is run until it does not ask to wait.\<close>

partial_function (option) block_until ::
    "('s, 'e nb, 'a) prog \<Rightarrow> 's \<Rightarrow> (('e + 'a) \<times> 's) option" where
  [code]: "block_until m s =
     (case m s of
        None \<Rightarrow> None
      | Some (r, t) \<Rightarrow>
          (case r of
             Inl x \<Rightarrow> (case x of WouldBlock \<Rightarrow> block_until m t | Other y \<Rightarrow> Some (Inl y, t))
           | Inr a \<Rightarrow> Some (Inr a, t)))"

lemma blocks_until: "blocks block_until"
  unfolding blocks_def by (intro allI, subst block_until.simps) (simp split: option.split sum.split nb.split)

definition nb_blocks :: "('s, 'e) nb_macro" where
  "nb_blocks = \<lparr>block_unit = block_until, block_nat = block_until, block_read = block_until\<rparr>"

lemma other_not_would_block [simp]: "map_sum Other f r \<noteq> Inl WouldBlock"
  by (cases r) simp_all

lemma never_would_block: "map_errP Other m s \<noteq> Some (Inl WouldBlock, t)"
  by (auto simp: map_errP_def split: option.split)

lemma halts_stack_send [halting]: "halts (stack_send e c b)"
  unfolding stack_send_def on_ds_net_def by (intro halting halts_send_internal)

lemma halts_with_sockets [halting]: "(\<And>socks. halts (f socks)) \<Longrightarrow> halts (with_sockets f)"
  unfolding with_sockets_def by (intro halting) (simp split: option.split)

lemma halts_on_sockets [halting]: "halts (on_sockets f)"
  by (rule haltsI) (simp add: on_sockets_def split: option.split prod.split)

lemma halts_recycle [halting]: "halts (recycle_socket st)"
  by (rule haltsI) (simp add: recycle_socket_def split: option.split prod.split)

lemma halts_get_tcp [halting]: "halts (get_tcp st h)"
  unfolding get_tcp_def by (intro halting) (simp split: sum.split)

lemma halts_tcp_write: "halts (tcp_write e h cs)"
  by (induction cs) (auto intro!: halting split: prod.split)

lemma halts_tcp:
  "halts (tcp_socket e st)" "halts (tcp_connect e st h a)" "halts (tcp_is_connected st h)"
  "halts (tcp_send e st h b)" "halts (tcp_receive st h)" "halts (close_socket e st h)"
proof -
  show "halts (tcp_receive st h)"
  proof (rule haltsI)
    fix z :: "bytes \<times> ('a, 'b) service"
    obtain r t where "get_tcp st h (snd z) = Some (r, t)" using haltsD [OF halts_get_tcp] by blast
    then show "tcp_receive st h z \<noteq> None"
      by (cases z) (simp add: tcp_receive_def split: prod.split sum.split)
  qed
  show "halts (tcp_socket e st)"
    unfolding tcp_socket_def open_socket_def by (intro halting)
  show "halts (tcp_connect e st h a)" unfolding tcp_connect_def by (intro halting)
  show "halts (tcp_is_connected st h)" unfolding tcp_is_connected_def by (intro halting)
  show "halts (tcp_send e st h b)"
    unfolding tcp_send_def tcp_is_connected_def by (intro halting halts_tcp_write)
  show "halts (close_socket e st h)" unfolding close_socket_def by (intro halting)
qed

lemma receive_never_blocks: "tcp_receive st h z \<noteq> Some (Inl WouldBlock, y)"
  by (cases z) (auto simp: tcp_receive_def split: option.splits sum.splits prod.splits)

lemma service_nonblocking:
  assumes "blocks (block_unit B)" "blocks (block_nat B)" "blocks (block_read B)"
  shows "nonblocking_stack (service_tcp e st) B"
proof (unfold_locales, unfold service_tcp_def tcp_client.simps)
  show "tcp_connect e st h a s \<noteq> Some (Inl WouldBlock, t)" for h a s t
    unfolding tcp_connect_def by (rule never_would_block)
  show "tcp_send e st h b s \<noteq> Some (Inl WouldBlock, t)" for h b s t
    unfolding tcp_send_def by (rule never_would_block)
qed (simp_all add: assms halts_tcp receive_never_blocks)

interpretation tcp: nonblocking_stack "service_tcp e st" nb_blocks for e st
  by (rule service_nonblocking) (simp_all add: nb_blocks_def blocks_until)

section \<open>Bringing a device up touches no stream\<close>

definition no_payload :: "at_req set" where
  "no_payload = {q. \<forall>b. q \<noteq> Socket_Data (WriteSocketDataBinary b)}"

lemma no_payload_simps [simp]:
  "Socket_Data (WriteSocketDataBinary b) \<notin> no_payload" "AT \<in> no_payload" "General q1 \<in> no_payload"
  "Mobile_Control q2 \<in> no_payload" "Control q3 \<in> no_payload" "Gpio q4 \<in> no_payload"
  "Device_Lock q5 \<in> no_payload" "Network_Service q6 \<in> no_payload" "Psn_Context q7 \<in> no_payload"
  "Psn_Registration q8 \<in> no_payload" "Sms q9 \<in> no_payload" "System_Features q10 \<in> no_payload"
  "Socket q11 \<in> no_payload"
  by (simp_all add: no_payload_def)

lemma stream_no_payload:
  assumes "set qs \<subseteq> no_payload"
  shows "stream (ps @ qs) = stream ps"
proof -
  have one: "snd (accept_request q m) = snd m" if "q \<in> no_payload" for q m
    using that by (cases "(q, m)" rule: accept_request.cases) simp_all
  have "snd (fold accept_request qs m) = snd m" for m
    using assms by (induction qs arbitrary: m) (simp_all add: one)
  then show ?thesis by (simp add: stream_def)
qed

text \<open>As long as there are no sockets, or the sockets leave the record alone: the requests sent carry no
  payload, and where there is no socket none comes in.\<close>

definition idle ::
    "('w \<times> at_req list, 's) socket_api \<Rightarrow> ('w \<times> at_req list, 's) device \<Rightarrow> ('w \<times> at_req list, 's) device \<Rightarrow> bool" where
  "idle k d d' \<longleftrightarrow> (\<exists>k0. k = logged_sockets k0) \<or> dev_sockets d = Some [] \<longrightarrow>
     sends_only no_payload (dev_network d) (dev_network d') \<and> (dev_sockets d = Some [] \<longrightarrow> dev_sockets d' = Some [])"

interpretation idle: switch_relation "idle k" "logged e" "\<lambda>q. q \<in> no_payload" for k e
proof
  show "idle k d (put_tx \<lparr>tx_timeouts = c, tx_world = w\<rparr> d)"
    if "q \<in> no_payload" "send_raw (logged e) q (dev_world d) = (x, w)" for q d x w c
    using that by (cases "dev_world d")
      (auto simp: idle_def sends_only_def logged_def put_tx_def split: prod.splits)
  show "idle k d d''" if "idle k d d'" "idle k d' d''" for d d' d'' :: "('a \<times> at_req list, 'b) device"
    using that log.R_trans unfolding idle_def by blast
qed (auto simp: idle_def sends_only_def logged_def put_world_def put_tx_def split: prod.splits)

lemma idle_net: "keeps (sends_only no_payload) m \<Longrightarrow> keeps (idle k) (on_net m)"
  unfolding on_net_def by (erule keeps_zoom) (simp add: idle_def)

lemma idle_send:
  assumes "cmd_req c \<in> no_payload"
  shows "keeps (idle k) (dev_send (logged e) c b)" "keeps (idle k) (dev_cmd (logged e) c b)"
proof -
  show *: "keeps (idle k) (dev_send (logged e) c b)"
    unfolding dev_send_def by (intro idle.rules idle_net log.send_internal assms)
  show "keeps (idle k) (dev_cmd (logged e) c b)"
    unfolding dev_cmd_def by (intro idle.rules *)
qed

lemma idle_simple:
  "keeps (idle k) (set_state x)" "keeps (idle k) (set_context c)" "keeps (idle k) (set_power y)"
  "sk_prune k [] = [] \<Longrightarrow> keeps (idle k) (clear_buffers k)"
  by (auto simp: set_state_def set_context_def set_power_def clear_buffers_def idle_def sends_only_def
      on_net_def zoom_def modifyP_def keeps_def)

lemma idle_rf_reset: "keeps (idle k) (dev_rf_reset (logged e))"
  unfolding dev_rf_reset_def rf_reset_def set_functionality_def
  by (intro idle.rules idle_net log.net_rules) simp_all

lemma idle_sim: "keeps (idle k) (select_sim_card (logged e))"
proof -
  have "keeps (idle k) (sim_attempts (logged e) m)" for m
    by (induction m) (auto intro!: idle.power_rules idle_send)
  then show ?thesis
    unfolding select_sim_card_def by (intro idle.rules idle_rf_reset)
qed

lemma socket_urc_record:
  assumes "socket_urc k x socks w = (socks', w')" "(\<exists>k0. k = logged_sockets k0) \<or> socks = []"
  shows "sent w' = sent w" "socks = [] \<Longrightarrow> socks' = []"
  using assms
  by (cases w; cases x; auto simp: socket_urc_def on_socket_def logged_sockets_def split: option.splits prod.splits)+

lemma idle_urcs: "keeps (idle k) (handle_urc_internal (logged e) k)"
proof (rule keepsI)
  fix d d' :: "('a \<times> at_req list, 'b) device" and r :: "device_error + unit"
  assume run: "handle_urc_internal (logged e) k d = Some (r, d')"
  obtain u w where u: "next_urc (logged e) Device_Sub (dev_world d) = (u, w)" "sent w = sent (dev_world d)"
    by (cases "dev_world d"; cases "next_urc e Device_Sub (fst (dev_world d))") (simp add: logged_def)
  show "idle k d d'"
  proof (cases "dev_sockets d")
    case None
    with run show ?thesis
      by (simp add: handle_urc_internal_def bindP_def getsP_def okP_def idle_def sends_only_def)
  next
    case (Some socks)
    show ?thesis
    proof (cases u)
      case None
      with run u Some show ?thesis
        by (auto simp: handle_urc_internal_def bindP_def getsP_def okP_def on_dev_world_run try_next_message_def
            idle_def sends_only_def put_world_def put_tx_def)
    next
      case urc: (Some x)
      obtain socks' w' where run': "socket_urc k x socks w = (socks', w')" by (cases "socket_urc k x socks w")
      show ?thesis
      proof (cases "(\<exists>k0. k = logged_sockets k0) \<or> socks = []")
        case False
        with Some show ?thesis by (simp add: idle_def)
      next
        case True
        note recorded = socket_urc_record [OF run' True]
        from run u Some urc run' recorded show ?thesis
          by (auto simp: handle_urc_internal_def bindP_def getsP_def okP_def modifyP_def on_dev_world_run
            try_next_message_def idle_def sends_only_def put_world_def put_tx_def)
      qed
    qed
  qed
qed

lemmas idle_rules =
  idle.power_rules idle.hard_reset idle.power_on idle.hard_power_off idle.is_alive idle_send idle_sim
  idle_simple(1-3)

lemma idle_setup:
  assumes "sk_prune k [] = []"
  shows "keeps (idle k) (setup_at_commands (logged e) k)"
  unfolding setup_at_commands_def setup_commands_def
  by (intro idle_simple(4) idle_rules assms) simp_all

lemma idle_reset_reg_time: "keeps (sends_only no_payload) (reset_reg_time (logged e))"
  unfolding reset_reg_time_def by (intro log.frame_rules)

lemma idle_configure:
  assumes "sk_prune k [] = []"
  shows "keeps (idle k) (configure (logged e) k)"
  unfolding configure_def enable_registration_urcs_def
  by (intro log.status idle_setup idle_rules idle_net idle_reset_reg_time log.frame_rules
      log.update_registration assms) (auto simp: poll_queries_def)

lemma idle_initialize:
  assumes "sk_prune k [] = []"
  shows "keeps (idle k) (initialize (logged e) k)"
  unfolding initialize_def
  by (intro idle_rules assms)
    (auto intro!: idle_rules idle_configure assms split: prod.split)

lemma idle_spin:
  assumes "sk_prune k [] = []"
  shows "keeps (idle k) (spin (logged e) k)"
proof -
  have "keeps (idle k) (dev_process_events (logged e) k)"
    unfolding dev_process_events_def
    by (intro idle_rules idle_urcs idle_net log.process_events)
      (auto simp: poll_queries_def imsi_queries_def intervention_requests_def)
  then show ?thesis
    unfolding spin_def by (intro idle_rules idle_initialize assms)
qed

lemma ingress_no_payload:
  assumes "ingress_loop (logged e) (logged_sockets k) socks n = Some (socks', n')"
  shows "sends_only no_payload n n'"
  using assms
proof (induction socks arbitrary: n socks')
  case (Cons x socks)
  obtain h s where x: "x = (h, s)" by fastforce
  with Cons.prems obtain r s1 n1 socks1 where
    one: "ingress_socket (logged e) (logged_sockets k) h (s, n) = Some (r, s1, n1)"
    and rest: "ingress_loop (logged e) (logged_sockets k) socks n1 = Some (socks1, n')"
    by (auto split: option.splits)
  have "data_request k h s \<in> no_payload"
    by (simp add: data_request_def no_payload_def Let_def)
  with one wp_ingress_logged [of e k h n s] have "sends_only no_payload n n1"
    by (cases r) (auto simp: wp_def sends_only_def)
  with Cons.IH [OF rest] show ?case using log.R_trans by blast
qed (simp add: sends_only_def)

lemma idle_data_service:
  assumes "sk_prune k [] = []"
  shows "keeps (idle k) (data_service (logged e) k info)"
proof -
  have ctx: "{q. context_request q} \<subseteq> no_payload"
  proof
    show "q \<in> no_payload" if "q \<in> {q. context_request q}" for q
      using that by (cases q rule: context_request.cases) simp_all
  qed
  note net = context_relation.connect [OF sends_only_context [OF ctx]]
    context_relation.define_ctx [OF sends_only_context [OF ctx]]
  have define_idle: "keeps (idle k) (define_device_context (logged e) info)"
    unfolding define_device_context_def by (intro idle.rules idle_net net)
  have ingress: "sends_only no_payload (ds_network t) (ds_network t')
      \<and> (ds_sockets t = Some [] \<longrightarrow> ds_sockets t' = Some [])"
    if run: "socket_ingress_all (logged e) k t = Some (r, t')"
      and k: "(\<exists>k0. k = logged_sockets k0) \<or> ds_sockets t = Some []"
    for t t' :: "('b \<times> at_req list, 'a) service" and r
  proof
    show "ds_sockets t = Some [] \<longrightarrow> ds_sockets t' = Some []"
      using run by (auto simp: socket_ingress_all_def)
    show "sends_only no_payload (ds_network t) (ds_network t')"
      using run k
      by (auto simp: socket_ingress_all_def sends_only_def [of _ n n for n] dest!: ingress_no_payload split: option.splits)
  qed
  have serve: "keeps (idle k) (on_service (try_new (logged e) k info))"
  proof (rule keepsI)
    fix d d' :: "('b \<times> at_req list, 'a) device" and r :: "data_error nb + unit"
    assume run: "on_service (try_new (logged e) k info) d = Some (r, d')"
    then obtain x n where connect: "service_connect (logged e) info (dev_network d) = Some (x, n)"
      by (auto simp: on_service_def zoom_def try_new_def thenP_def bindP_def on_ds_net_def split: option.splits)
    have "sends_only no_payload (dev_network d) n" by (rule keepsD [OF net(1) connect])
    with run connect show "idle k d d'"
      by (auto simp: idle_def on_service_def zoom_def try_new_def thenP_def bindP_def on_ds_net_def getsP_def
          whenP_def okP_def map_errP_def dest!: ingress elim: log.R_trans split: option.splits sum.splits if_splits)
  qed
  show ?thesis
    unfolding data_service_def
    by (intro idle_rules idle_spin define_idle serve assms) (auto intro!: idle_rules define_idle serve split: nb.split)
qed

section \<open>A turn with a module that hosts sockets\<close>

text \<open>A connected socket under the handle, and a set in which reading from a socket leaves it connected.\<close>

definition linked :: "('w, 's) stack_api \<Rightarrow> socket_handle \<Rightarrow> ('w, 's) service \<Rightarrow> bool" where
  "linked st h s \<longleftrightarrow> (\<exists>socks t. ds_sockets s = Some socks \<and> st_tcp st h socks = Inr t \<and> tcp_connected st t)"

definition reads_linked :: "('w, 's) stack_api \<Rightarrow> socket_handle \<Rightarrow> bool" where
  "reads_linked st h \<longleftrightarrow> (\<forall>socks t b r b' t'. st_tcp st h socks = Inr t \<and> tcp_connected st t
     \<and> tcp_recv_slice st b t = (r, b', t') \<longrightarrow>
       (\<exists>u. st_tcp st h (update_first h (\<lambda>_. t') socks) = Inr u \<and> tcp_connected st u))"

lemma receive_keeps:
  assumes "blocks b" "read_into n (b (tcp_receive st h)) s = Some (r, s')"
  shows "ds_network s' = ds_network s" "reads_linked st h \<Longrightarrow> linked st h s \<Longrightarrow> linked st h s'"
proof -
  obtain r0 buf where b: "b (tcp_receive st h) (replicate n 0, s) = Some (r0, buf, s')"
    using assms(2) by (auto simp: read_into_def split: option.splits)
  obtain r1 z where t: "tcp_receive st h (replicate n 0, s) = Some (r1, z)"
    using haltsD [OF halts_tcp(5)] by blast
  have net: "ds_network (snd z) = ds_network s"
    using t by (auto simp: tcp_receive_def get_tcp_def with_sockets_def bindP_def getsP_def errP_def okP_def
        split: option.splits sum.splits prod.splits)
  have link: "linked st h (snd z)" if "reads_linked st h" "linked st h s"
  proof -
    from that(2) obtain socks u where s: "ds_sockets s = Some socks" "st_tcp st h socks = Inr u" "tcp_connected st u"
      by (auto simp: linked_def)
    obtain r2 b2 u2 where recv: "tcp_recv_slice st (replicate n 0) u = (r2, b2, u2)" by (cases "tcp_recv_slice st (replicate n 0) u")
    with that(1) s(2,3) obtain v where "st_tcp st h (update_first h (\<lambda>_. u2) socks) = Inr v" "tcp_connected st v"
      unfolding reads_linked_def by blast
    with t s recv show ?thesis
      by (auto simp: linked_def tcp_receive_def get_tcp_def with_sockets_def bindP_def getsP_def okP_def)
  qed
  have "z = (buf, s')"
  proof (cases r1)
    case (Inr a)
    with t b blocks_cases(1) [OF assms(1)] show ?thesis by simp
  next
    case (Inl x)
    then obtain y where "x = Other y"
      using t receive_never_blocks [of st h "(replicate n 0, s)" z] by (cases x) auto
    with t b Inl blocks_cases(2) [OF assms(1)] show ?thesis by simp
  qed
  with net link show "ds_network s' = ds_network s" "reads_linked st h \<Longrightarrow> linked st h s \<Longrightarrow> linked st h s'"
    by simp_all
qed

lemma same_status_network: "ds_network u = ds_network t \<Longrightarrow> same_status s t \<Longrightarrow> same_status s u"
  by (simp add: same_status_def)

lemma attempt_zoom: "attempt (zoom get put m) = zoom get put (attempt m)"
  by (rule ext) (auto simp: attempt_def zoom_def split: option.split)

lemma succeeds_use_socket:
  assumes "blocks (block_nat B)" "blocks (block_read B)" "takes_data e h" "linked st h s"
    and "\<And>s'. same_status s s' \<Longrightarrow>
      stream (sent (ds_world s')) = (stream (sent (ds_world s)))(h := stream (sent (ds_world s)) h @ b) \<Longrightarrow>
      (reads_linked st h \<Longrightarrow> linked st h s') \<Longrightarrow> Q () (Some h, s')"
  shows "succeeds (use_socket (service_tcp (logged e) st) B b) Q (Some h, s)"
proof -
  obtain socks t where s: "ds_sockets s = Some socks" "st_tcp st h socks = Inr t" "tcp_connected st t"
    using assms(4) by (auto simp: linked_def)
  have read: "succeeds (attempt (read_into 32 (block_read B (tcp_receive st h))))
      (\<lambda>_ u. ds_network u = ds_network t \<and> (reads_linked st h \<longrightarrow> linked st h t \<longrightarrow> linked st h u)) t"
    for t :: "('a \<times> at_req list, 'b) service"
    by (intro succeeds_dropped halts_read_into halts_blocked assms(2) halts_tcp receive_never_blocks)
      (auto intro!: wpI dest: receive_keeps [OF assms(2)])
  have sends: "succeeds (attempt (block_nat B (tcp_send (logged e) st h b)))
      (\<lambda>_ s'. same_status s s' \<and> linked st h s'
        \<and> stream (sent (ds_world s')) = (stream (sent (ds_world s)))(h := stream (sent (ds_world s)) h @ b)) s"
    using s by (intro succeeds_attempt succeeds_blocked [OF assms(1)] succeeds_tcp_send [OF assms(3) s])
      (simp add: linked_def)
  show ?thesis
    by (simp add: use_socket_def service_tcp_def attempt_zoom)
      (auto intro!: succeeds_mono [OF sends] succeeds_mono [OF read] assms(5) intro: same_status_network)
qed

lemma succeeds_client_connect:
  assumes "blocks (block_unit B)" "hosts e h" "keeps_sockets st h" "ds_sockets s = Some socks"
    "h \<notin> fst ` set socks" "st_len st socks < st_capacity st socks"
    and "\<And>socks' t s'. ds_sockets s' = Some socks' \<Longrightarrow> st_tcp st h socks' = Inr t \<Longrightarrow> tcp_connected st t \<Longrightarrow>
      same_status s s' \<Longrightarrow> stream (sent (ds_world s')) = stream (sent (ds_world s)) \<Longrightarrow> Q () (Some h, s')"
  shows "succeeds (client_connect (service_tcp (logged e) st) B addr) Q (None, s)"
proof -
  have ack: "acknowledges e" using assms(2) by (simp add: hosts_def takes_data_def)
  have connects: "succeeds (attempt (block_unit B (tcp_connect (logged e) st h addr)))
      (\<lambda>r u. r = Inr () \<and> Q () (Some h, u)) s1"
    if "ds_sockets s1 = Some socks1" "st_tcp st h socks1 = Inr (tcp_new st h)" "same_status s s1"
      "sent (ds_world s1) = sent (ds_world s) @ [Socket (CreateSocket socket_protocol.TCP None)]" for s1 socks1
    using that
    by (intro succeeds_attempt succeeds_blocked [OF assms(1)]
        succeeds_tcp_connect [OF ack assms(3) that(1,2)])
      (auto intro!: assms(7) intro: same_status_trans simp: stream_no_payload)
  have opens: "succeeds (tcp_socket (logged e) st) (\<lambda>x s1. x = h
      \<and> succeeds (attempt (block_unit B (tcp_connect (logged e) st h addr)))
          (\<lambda>r u. r = Inr () \<and> Q () (Some h, u)) s1) s"
    by (rule succeeds_tcp_socket [OF assms(2-6)]) (simp add: connects)
  show ?thesis
    by (simp add: client_connect_def service_tcp_def attempt_zoom)
      (auto intro!: succeeds_mono [OF opens] elim!: succeeds_mono)
qed

lemma succeeds_client_turn:
  assumes "blocks (block_unit B)" "blocks (block_nat B)" "blocks (block_read B)" "hosts e h" "keeps_sockets st h"
    "ds_sockets s = Some socks" "h \<notin> fst ` set socks" "st_len st socks < st_capacity st socks"
    and "\<And>s'. same_status s s' \<Longrightarrow>
      stream (sent (ds_world s')) = (stream (sent (ds_world s)))(h := stream (sent (ds_world s)) h @ b) \<Longrightarrow>
      (reads_linked st h \<Longrightarrow> linked st h s') \<Longrightarrow> Q () (Some h, s')"
  shows "succeeds (client_turn (service_tcp (logged e) st) B addr b) Q (None, s)"
proof -
  have takes: "takes_data e h" using assms(4) by (simp add: hosts_def)
  have "client_is_connected (service_tcp (logged e) st) (None, s) = Some (Inl SocketClosed, None, s)"
    by (simp add: client_is_connected_def bindP_def getsP_def errP_def)
  then have see: "succeeds (attempt (client_is_connected (service_tcp (logged e) st)))
      (\<lambda>r t. r = Inl SocketClosed \<and> t = (None, s)) (None, s)"
    by (simp add: succeeds_def attempt_def)
  show ?thesis
    unfolding client_turn_def keep_connected_def succeeds_thenP succeeds_bindP
    by (rule succeeds_mono [OF see])
      (auto intro!: succeeds_attempt succeeds_client_connect [OF assms(1,4-8)]
        succeeds_use_socket [OF assms(2,3) takes] assms(9) intro: same_status_trans simp: linked_def [of st h])
qed

text \<open>A client whose socket is connected only uses it.\<close>

lemma succeeds_client_turn_again:
  assumes "blocks (block_nat B)" "blocks (block_read B)" "takes_data e h" "linked st h s"
    and "\<And>s'. same_status s s' \<Longrightarrow>
      stream (sent (ds_world s')) = (stream (sent (ds_world s)))(h := stream (sent (ds_world s)) h @ b) \<Longrightarrow>
      (reads_linked st h \<Longrightarrow> linked st h s') \<Longrightarrow> Q () (Some h, s')"
  shows "succeeds (client_turn (service_tcp (logged e) st) B addr b) Q (Some h, s)"
proof -
  have "tcp_is_connected st h s = Some (Inr True, s)"
    using assms(4) by (auto simp: linked_def tcp_is_connected_def get_tcp_def with_sockets_def bindP_def getsP_def okP_def)
  then have see: "succeeds (attempt (client_is_connected (service_tcp (logged e) st)))
      (\<lambda>r t. r = Inr True \<and> t = (Some h, s)) (Some h, s)"
    by (simp add: succeeds_def attempt_def client_is_connected_def service_tcp_def bindP_def getsP_def map_errP_def zoom_def)
  show ?thesis
    unfolding client_turn_def keep_connected_def succeeds_thenP succeeds_bindP
    by (rule succeeds_mono [OF see]) (auto intro!: succeeds_use_socket [OF assms(1-4)] assms(5))
qed

lemma succeeds_count_up:
  "cl_count c + 1 < 2 ^ 31 \<Longrightarrow> Q () (c\<lparr>cl_count := cl_count c + 1\<rparr>) \<Longrightarrow> succeeds count_up Q c"
  by (simp add: succeeds_def count_up_def)

lemma tcp_is_connected_run:
  "tcp_is_connected st h s = Some (Inr b, t) \<Longrightarrow> t = s \<and> (\<exists>socks. ds_sockets s = Some socks)"
  by (auto simp: tcp_is_connected_def get_tcp_def with_sockets_def bindP_def getsP_def okP_def errP_def
      split: option.splits sum.splits)

lemma close_socket_result:
  assumes "ds_sockets s = Some socks"
  shows "\<exists>s'. close_socket e st h s = Some (fst (st_remove st h socks), s')"
proof -
  obtain r s' where run: "close_socket e st h s = Some (r, s')" using haltsD [OF halts_tcp(6)] by blast
  have "wp (close_socket e st h) (\<lambda>a _. fst (st_remove st h socks) = Inr a)
      (\<lambda>x _. fst (st_remove st h socks) = Inl x) s"
    by (auto simp: close_socket_def wp_with_sockets wp_on_sockets assms intro!: wp_stack_send
        split: prod.split sum.split)
  with run show ?thesis by (cases r) (auto simp: wp_def)
qed

lemma wp_expect: "wp m Q (\<lambda>_ _. True) s \<Longrightarrow> wp (expect m) Q E s"
  by (auto simp: wp_def expect_def split: option.splits sum.splits)

lemma client_turn_no_error: "wp (client_turn N B addr message) (\<lambda>_ _. True) (\<lambda>_ _. False) z"
proof -
  have bind: "wp (bindP m f) (\<lambda>_ _. True) (\<lambda>_ _. False) y"
    if "\<And>y. wp m (\<lambda>_ _. True) (\<lambda>_ _. False) y" "\<And>a y. wp (f a) (\<lambda>_ _. True) (\<lambda>_ _. False) y"
    for m :: "('x, 'y, 'z) prog" and f :: "'z \<Rightarrow> ('x, 'y, 'v) prog" and y
    unfolding wp_bindP by (rule wp_mono [OF that(1)]) (simp_all add: that(2))
  have att: "wp (attempt m) (\<lambda>_ _. True) (\<lambda>_ _. False) y" for m :: "('x, 'y, 'z) prog" and y
    by (simp add: wp_any)
  have take: "wp take_handle (\<lambda>_ _. True) (\<lambda>_ _. False) y" for y
    by (auto simp: take_handle_def wp_def bindP_def getsP_def thenP_def modifyP_def okP_def split: option.split)
  have pure: "wp (okP a) (\<lambda>_ _. True) (\<lambda>_ _. False) y" "wp (getsP g) (\<lambda>_ _. True) (\<lambda>_ _. False) y" for a g y
    by simp_all
  show ?thesis
    unfolding client_turn_def keep_connected_def use_socket_def thenP_def
    by (intro bind att take pure)
      (auto intro!: bind att take pure wp_expect wp_any [where E = "\<lambda>_ _. True"]
        simp del: wp_bindP wp_attempt wp_zoom split: sum.split bool.split option.split)
qed

text \<open>The sockets of the witness, beside \<open>tiny_stack\<close>: the module never has anything for them.\<close>

definition tiny_sockets :: "('w, tiny_socket) socket_api" where
  "tiny_sockets =
     \<lparr>sk_prune = (\<lambda>_. []), sk_closed_by_remote = (\<lambda>(_, a, b) w. ((False, a, b), w)),
      sk_should_update = (\<lambda>s w. ((False, s), w)), sk_set_available = (\<lambda>_ s. s),
      sk_available = (\<lambda>_. 0), sk_can_recv = (\<lambda>_. False), sk_rx_window = (\<lambda>_. 0),
      sk_type = (\<lambda>_. Tcp), sk_rx_enqueue = (\<lambda>d (c, a, b). (length d, c, a, b @ d))\<rparr>"

section \<open>Properties\<close>

text \<open>C20: a turn of the client returns, without an error, whatever the module answers: nothing it calls
  asks it to wait. Only a socket found closed that the set does not remove would make it panic.\<close>

theorem client_turn_returns:
  assumes "blocks (block_unit B)" "blocks (block_nat B)" "blocks (block_read B)"
    and "\<And>h socks. handle = Some h \<Longrightarrow> ds_sockets s = Some socks \<Longrightarrow> fst (st_remove st h socks) = Inr ()"
  shows "\<exists>t. client_turn (service_tcp e st) B addr message (handle, s) = Some (Inr (), t)"
proof -
  let ?turn = "client_turn (service_tcp e st) B addr message"
  have "?turn (handle, s) \<noteq> None"
  proof
    assume "?turn (handle, s) = None"
    from nonblocking_stack.turn_returns [OF service_nonblocking [OF assms(1-3)] this] obtain h t where
      h: "handle = Some h" and con: "tcp_is_connected st h s = Some (Inr False, t)"
      and fails: "case close_socket e st h t of Some (Inr _, _) \<Rightarrow> False | _ \<Rightarrow> True"
      by (auto simp: service_tcp_def)
    from tcp_is_connected_run [OF con] obtain socks where t: "t = s" "ds_sockets s = Some socks" by blast
    with close_socket_result [OF t(2), of e st h] fails h assms(4) show False by auto
  qed
  then obtain r t where run: "?turn (handle, s) = Some (r, t)" by auto
  with client_turn_no_error [of "service_tcp e st" B addr message "(handle, s)"] show ?thesis
    by (cases r) (auto simp: wp_def)
qed

theorem client_turn_returns_witness:
  "\<exists>t. client_turn (service_tcp (script_env Toby_R2 pins) tiny_stack) nb_blocks echo_server [104, 105]
     (Some 0, \<lparr>ds_network = network_new (at_tx_new script_start), ds_sockets = Some [(0, False, None, [])]\<rparr>)
     = Some (Inr (), t)"
  by (rule client_turn_returns) (simp_all add: nb_blocks_def blocks_until tiny_stack_def)

text \<open>Liveness from end to end. A module that cooperates, hosts a socket and takes what is written to
  it, and a set of sockets that keeps what it is given: one turn of the client's loop takes the device from
  whatever unconfigured state into service, with the client's socket open, connected and written to. The message
  is on the stream of the socket, and no other stream of the module has changed.\<close>

theorem client_delivers:
  assumes "cooperative e" "hosts e h" "keeps_sockets st h" "st_len st [] < st_capacity st []"
    "sk_prune k [] = []" "blocks (block_unit B)" "blocks (block_nat B)" "blocks (block_read B)"
    and "unconfigured (cl_device c)" "dev_sockets (cl_device c) = Some []" "cl_socket c = None"
    "cl_count c + 1 < 2 ^ 31"
  shows "\<exists>c'. client_step (logged e) k st B c = Some (Inr (), c') \<and> cl_socket c' = Some h
    \<and> in_service (cl_device c')
    \<and> stream (sent (dev_world (cl_device c'))) = (stream (sent (dev_world (cl_device c))))
        (h := stream (sent (dev_world (cl_device c))) h @ whatup (cl_count c))"
proof -
  let ?d = "cl_device c" and ?info = "apn_info_new ''em''"
  have fits: "upsd_context_activation (variant (logged e)) \<longrightarrow> list_all param_fits (upsd_params (logged e) ?info)"
    by (simp add: upsd_params_def apn_info_new_def)
  obtain d where run: "data_service (logged e) k ?info ?d = Some (Inr (), d)" "in_service d"
    using succeedsD [OF succeeds_in_service [OF cooperative_logged [OF assms(1)] disjI1 [OF assms(9)] fits, of k]] by auto
  from keepsD [OF idle_data_service [OF assms(5)] run(1)] assms(10)
  have d: "dev_sockets d = Some []" "stream (sent (dev_world d)) = stream (sent (dev_world ?d))"
    by (auto simp: idle_def sends_only_def stream_no_payload)
  have turn: "succeeds (client_turn (service_tcp (logged e) st) B echo_server (whatup (cl_count c)))
      (\<lambda>_ (h', s'). h' = Some h \<and> net_status (ds_network s') = net_status (dev_network d)
        \<and> stream (sent (ds_world s')) = (stream (sent (dev_world d)))(h := stream (sent (dev_world d)) h @ whatup (cl_count c)))
      (None, \<lparr>ds_network = dev_network d, ds_sockets = dev_sockets d\<rparr>)"
    by (rule succeeds_client_turn [OF assms(6-8,2,3), where socks = "[]"])
      (simp_all add: d assms(4) same_status_def undisturbed_def)
  have count: "cl_count c < 2147483647" using assms(12) by simp
  have dev: "succeeds (attempt (data_service (logged e) k ?info)) (\<lambda>r t. r = Inr () \<and> t = d) ?d"
    by (simp add: succeeds_def attempt_def run)
  have "succeeds (client_step (logged e) k st B) (\<lambda>_ c'. cl_socket c' = Some h \<and> in_service (cl_device c')
    \<and> stream (sent (dev_world (cl_device c'))) = (stream (sent (dev_world ?d)))
        (h := stream (sent (dev_world ?d)) h @ whatup (cl_count c))) c"
    by (simp add: client_step_def attempt_zoom)
      (auto intro!: succeeds_mono [OF dev] succeeds_mono [OF turn] succeeds_count_up
        simp: assms(11) count d(2) in_service_def is_connected_def run(2) [unfolded in_service_def is_connected_def])
  from succeedsD [OF this] show ?thesis by auto
qed

theorem client_delivers_witness:
  "\<exists>c'. client_step (logged (hosting_env Sara_R5 pins)) tiny_sockets tiny_stack nb_blocks
       \<lparr>cl_device = (device_new (0, []))\<lparr>dev_sockets := Some []\<rparr>, cl_socket = None, cl_count = 7\<rparr> = Some (Inr (), c')
     \<and> cl_socket c' = Some 0 \<and> in_service (cl_device c')
     \<and> stream (sent (dev_world (cl_device c'))) 0 = map of_char ''Whatup 7''"
proof -
  let ?c = "\<lparr>cl_device = (device_new (0, []))\<lparr>dev_sockets := Some []\<rparr>, cl_socket = None, cl_count = 7\<rparr>
    :: (instant \<times> at_req list, tiny_socket) client"
  have message: "whatup 7 = map of_char ''Whatup 7''" by code_simp
  have start: "stream (sent (dev_world (device_new (0, []) :: (instant \<times> at_req list, tiny_socket) device))) = (\<lambda>_. [])"
    by (simp add: device_new_def network_new_def at_tx_new_def stream_def)
  have "\<exists>c'. client_step (logged (hosting_env Sara_R5 pins)) tiny_sockets tiny_stack nb_blocks ?c = Some (Inr (), c')
    \<and> cl_socket c' = Some 0 \<and> in_service (cl_device c')
    \<and> stream (sent (dev_world (cl_device c'))) = (stream (sent (dev_world (cl_device ?c))))
        (0 := stream (sent (dev_world (cl_device ?c))) 0 @ whatup (cl_count ?c))"
    by (rule client_delivers [OF cooperative_hosting hosts_hosting keeps_sockets_tiny])
      (simp_all add: tiny_stack_def tiny_sockets_def nb_blocks_def blocks_until unconfigured_def device_new_def)
  then show ?thesis by (auto simp: start message)
qed

end
