(* ===== verification/Sustained_Service.thy ===== *)
theory Sustained_Service
  imports Socket_Client
begin

text \<open>
  Liveness that lasts. \<open>Cooperative_Modem\<close> and \<open>Socket_Client\<close> take a device into service once; here the
  loop goes on: with a modem that also answers the requests for data, every call of \<open>data_service\<close>
  succeeds, and every turn of the client delivers its message, in order. \<open>repeatP\<close> is the loop, which
  stops at the first error.
\<close>

section \<open>A loop\<close>

primrec repeatP :: "nat \<Rightarrow> ('s, 'e, unit) prog \<Rightarrow> ('s, 'e, unit) prog" where
  "repeatP 0 m = okP ()"
| "repeatP (Suc n) m = thenP m (repeatP n m)"

lemma repeatP_add: "repeatP (m + n) c = thenP (repeatP m c) (repeatP n c)"
  by (induction m) (simp_all add: thenP_def bindP_assoc)

lemma succeeds_repeat:
  assumes "\<And>n s. I n s \<Longrightarrow> n < N \<Longrightarrow> succeeds m (\<lambda>_. I (Suc n)) s" "I i s" "i + k \<le> N"
  shows "succeeds (repeatP k m) (\<lambda>_. I (i + k)) s"
  using assms(2,3)
proof (induction k arbitrary: i s)
  case (Suc k)
  have "succeeds m (\<lambda>_. I (Suc i)) s" using Suc.prems by (intro assms(1)) simp_all
  with Suc.IH [of "Suc i"] Suc.prems(2) show ?case
    by (auto elim!: succeeds_mono)
qed simp

section \<open>Reading for the sockets\<close>

lemma wp_succeeds: "succeeds m Q s \<Longrightarrow> wp m Q E s"
  by (auto simp: succeeds_def wp_def split: option.splits sum.splits)

text \<open>A property of sockets that the methods the device calls on one leave alone, with the closing of the
  socket by the remote aside.\<close>

definition lasting :: "('w, 's) socket_api \<Rightarrow> ('s \<Rightarrow> bool) \<Rightarrow> bool" where
  "lasting k live \<longleftrightarrow> (\<forall>s. live s \<longrightarrow>
     (\<forall>w. live (snd (fst (sk_should_update k s w)))) \<and> (\<forall>n. live (sk_set_available k n s))
     \<and> (\<forall>b. live (snd (sk_rx_enqueue k b s))))"

lemma lastingD:
  assumes "lasting k live" "live s"
  shows "sk_should_update k s w = ((u, s'), w') \<Longrightarrow> live s'" "live (sk_set_available k n s)"
    "live (snd (sk_rx_enqueue k b s))"
  using assms unfolding lasting_def by (metis fst_conv snd_conv, blast, blast)

lemma lasting_logged: "lasting k live \<Longrightarrow> lasting (logged_sockets k) live"
  by (auto simp: lasting_def logged_sockets_def split: prod.split) (metis fst_conv snd_conv)

definition sound :: "('s \<Rightarrow> bool) \<Rightarrow> 's \<Rightarrow> 'w network \<Rightarrow> 's \<times> 'w network \<Rightarrow> bool" where
  "sound live s n z \<longleftrightarrow> (live s \<longrightarrow> live (fst z)) \<and> undisturbed n (snd z)"

lemma wp_net_answer:
  assumes "answers e c P" "\<And>r n'. P r \<Longrightarrow> served n n' \<Longrightarrow> Q r n'"
  shows "wp (net_send e c b) Q E n"
  by (rule wp_succeeds) (rule succeeds_net_send [OF assms])

lemma wp_ingress_sound:
  assumes "answers_reads e" "lasting k live"
  shows "wp (ingress_socket e k h) (\<lambda>_. sound live s n) (\<lambda>_. sound live s n) (s, n)"
proof -
  have tcp: "answers e (read_socket_data h m) (\<lambda>_. True)" and udp: "answers e (read_udp_socket_data h m) (\<lambda>_. True)" for m
    using assms(1) by (simp_all add: answers_reads_def)
  have update: "wp (sock_should_update k) Q E (s, n)"
    if "\<And>u s' w. (live s \<Longrightarrow> live s') \<Longrightarrow> Q u (s', n\<lparr>net_tx := (net_tx n)\<lparr>tx_world := w\<rparr>\<rparr>)" for Q E
    using that lastingD(1) [OF assms(2)] by (auto simp: wp_def sock_should_update_def split: prod.split)
  have take: "wp (take_data k len d) Q E (s1, n1)"
    if "\<And>s2. (live s1 \<Longrightarrow> live s2) \<Longrightarrow> Q () (s2, n1)" "\<And>x. E x (s1, n1)" for len d Q E s1 and n1 :: "'a network"
    using that lastingD(3) [OF assms(2)] by (auto simp: take_data_def Let_def split: option.split sum.split)
  show ?thesis
    by (cases "sk_type k s")
      (auto simp: ingress_socket_def request_data_def Let_def whenP_def sound_def lastingD(2) [OF assms(2)]
        undisturbed_served undisturbed_def served_def
        intro!: update wp_net_answer [OF tcp] wp_net_answer [OF udp] take)
qed

lemma ingress_loop_sound:
  assumes "answers_reads e" "lasting k live" "ingress_loop e k socks n = Some (socks', n')"
  shows "undisturbed n n'
    \<and> list_all2 (\<lambda>(h, s) (h', s'). h' = h \<and> (live s \<longrightarrow> live s')) socks socks'"
  using assms(3)
proof (induction socks arbitrary: n socks')
  case (Cons x socks)
  obtain h s where x: "x = (h, s)" by fastforce
  with Cons.prems obtain r s1 n1 socks1 where
    one: "ingress_socket e k h (s, n) = Some (r, s1, n1)"
    and rest: "ingress_loop e k socks n1 = Some (socks1, n')" and s': "socks' = (h, s1) # socks1"
    by (auto split: option.splits)
  have "sound live s n (s1, n1)"
    using one wp_ingress_sound [OF assms(1,2), of h s n] by (cases r) (auto simp: wp_def)
  with Cons.IH [OF rest] x s' show ?case by (auto simp: sound_def intro: undisturbed_trans)
qed simp

text \<open>The socket under a handle has the property.\<close>

definition live_at :: "('s \<Rightarrow> bool) \<Rightarrow> socket_handle \<Rightarrow> (socket_handle \<times> 's) list option \<Rightarrow> bool" where
  "live_at live h x \<longleftrightarrow> (\<exists>socks s. x = Some socks \<and> map_of socks h = Some s \<and> live s)"

lemma map_of_pointwise:
  assumes "list_all2 (\<lambda>(h, s) (h', s'). h' = h \<and> (live s \<longrightarrow> live s')) socks socks'"
    "map_of socks h = Some s" "live s"
  shows "\<exists>s'. map_of socks' h = Some s' \<and> live s'"
  using assms by (induction rule: list_all2_induct) (auto split: if_splits)

section \<open>Calls that keep a device in service\<close>

lemma succeeds_sustained:
  assumes "cooperative e" "answers_reads e" "fit e k J d"
    and "upsd_context_activation (variant e) \<longrightarrow> list_all param_fits (upsd_params e info)"
    and "\<And>socks socks' n n'. ingress_loop e k socks n = Some (socks', n') \<Longrightarrow> J (Some socks) \<Longrightarrow> J (Some socks')"
  shows "succeeds (data_service e k info)
    (\<lambda>_ d'. settled d' \<and> net_context (dev_network d') = Active \<and> J (dev_sockets d')) d"
proof (rule succeeds_data_service [OF assms(1,3,4)])
  fix d1 :: "('a, 'b) device" and n :: "'a network"
  assume d1: "settled d1" "J (dev_sockets d1)" and n: "settled_network n" "net_context n = Active"
  have anything: "lasting k (\<lambda>_. False)" by (simp add: lasting_def)
  show "succeeds (whenP (dev_sockets d1 \<noteq> None) (map_errP Other (socket_ingress_all e k)))
      (\<lambda>_ s. settled (d1\<lparr>dev_network := ds_network s, dev_sockets := ds_sockets s\<rparr>)
         \<and> net_context (dev_network (d1\<lparr>dev_network := ds_network s, dev_sockets := ds_sockets s\<rparr>)) = Active
         \<and> J (dev_sockets (d1\<lparr>dev_network := ds_network s, dev_sockets := ds_sockets s\<rparr>)))
      \<lparr>ds_network = n, ds_sockets = dev_sockets d1\<rparr>"
  proof (cases "dev_sockets d1")
    case (Some socks)
    obtain socks' n' where run: "ingress_loop e k socks n = Some (socks', n')"
      using ingress_loop_returns by blast
    with ingress_loop_sound [OF assms(2) anything run] ingress_loop_frame [OF run] assms(5) [OF run] d1 n Some
    show ?thesis
      by (simp add: succeeds_def whenP_def map_errP_def socket_ingress_all_def settled_def settled_undisturbed)
  qed (use d1 n in \<open>simp add: whenP_def settled_def\<close>)
qed

text \<open>Once a call succeeds, all later ones do.\<close>

lemma succeeds_for_good:
  assumes "cooperative e" "answers_reads e" "unconfigured d \<or> ready d"
    and "upsd_context_activation (variant e) \<longrightarrow> list_all param_fits (upsd_params e info)"
  shows "succeeds (repeatP (Suc n) (data_service e k info))
    (\<lambda>_ d'. settled d' \<and> net_context (dev_network d') = Active) d"
proof -
  define I where "I m d' \<longleftrightarrow> (if m = 0 then unconfigured d' \<or> ready d'
      else settled d' \<and> net_context (dev_network d') = Active)" for m :: nat and d' :: "('a, 'b) device"
  have "succeeds (repeatP (Suc n) (data_service e k info)) (\<lambda>_. I (0 + Suc n)) d"
  proof (rule succeeds_repeat [where N = "Suc n"])
    fix m and d' :: "('a, 'b) device"
    assume "I m d'"
    then have fit: "fit e k (\<lambda>_. True) d'" by (auto simp: I_def fit_any settled_ready split: if_splits)
    show "succeeds (data_service e k info) (\<lambda>_. I (Suc m)) d'"
      by (rule succeeds_mono [OF succeeds_sustained [OF assms(1,2) fit assms(4)]]) (simp_all add: I_def)
  qed (simp_all add: I_def assms(3))
  then show ?thesis by (rule succeeds_mono) (simp add: I_def)
qed

definition never_closes :: "'w env \<Rightarrow> socket_handle \<Rightarrow> bool" where
  "never_closes e h \<longleftrightarrow> (\<forall>w. fst (next_urc e Device_Sub w) \<noteq> Some (urc.SocketClosed h))"

lemma wp_urcs_live:
  assumes "lasting k live" "never_closes e h" "live_at live h (dev_sockets d)"
  shows "wp (handle_urc_internal e k) (\<lambda>_ d'. live_at live h (dev_sockets d')) (\<lambda>_ _. True) d"
proof -
  obtain socks s where socks: "dev_sockets d = Some socks" "map_of socks h = Some s" "live s"
    using assms(3) by (auto simp: live_at_def)
  obtain u w where u: "next_urc e Device_Sub (dev_world d) = (u, w)" by fastforce
  have not_closed: "u \<noteq> Some (urc.SocketClosed h)" using assms(2) u unfolding never_closes_def by (metis fst_conv)
  have "live_at live h (Some (fst (socket_urc k x socks w)))" if "u = Some x" for x
    using that not_closed socks(2,3) lastingD(2) [OF assms(1)]
    by (auto simp: socket_urc_def on_socket_def live_at_def map_of_update_first split: urc.split option.split prod.split)
  then show ?thesis
    using socks u
    by (auto simp: wp_def handle_urc_internal_def bindP_def getsP_def on_dev_world_run try_next_message_def okP_def
        modifyP_def live_at_def put_world_def put_tx_def split: option.split prod.split)
qed

section \<open>The client, turn by turn\<close>

text \<open>What a set of sockets is relied on for: which socket is found connected depends on the socket alone,
  and nothing but its closing takes that from it.\<close>

definition steadfast ::
    "('w, 's) socket_api \<Rightarrow> ('w2, 's) stack_api \<Rightarrow> socket_handle \<Rightarrow> ('s \<Rightarrow> bool) \<Rightarrow> bool" where
  "steadfast k st h live \<longleftrightarrow> lasting k live
     \<and> (\<forall>socks. (\<exists>t. st_tcp st h socks = Inr t \<and> tcp_connected st t) \<longleftrightarrow> live_at live h (Some socks))
     \<and> (\<forall>t b. tcp_connected st t \<longrightarrow> tcp_connected st (snd (snd (tcp_recv_slice st b t))))"

lemma steadfast_linked: "steadfast k st h live \<Longrightarrow> linked st h s \<longleftrightarrow> live_at live h (ds_sockets s)"
  by (cases "ds_sockets s") (auto simp: steadfast_def linked_def live_at_def)

lemma steadfast_reads:
  assumes "steadfast k st h live" "keeps_sockets st h"
  shows "reads_linked st h"
  using assms unfolding reads_linked_def steadfast_def keeps_sockets_def by (metis snd_conv)

lemma answers_reads_logged: "answers_reads e \<Longrightarrow> answers_reads (logged e)"
  by (simp add: answers_reads_def answers_logged)

lemma never_closes_logged:
  assumes "never_closes e h"
  shows "never_closes (logged e) h"
proof -
  have "fst (next_urc (logged e) Device_Sub w) = fst (next_urc e Device_Sub (fst w))" for w
    by (cases w) (simp add: logged_def split: prod.split)
  with assms show ?thesis by (simp add: never_closes_def)
qed

abbreviation record_of :: "('w \<times> at_req list, 's) device \<Rightarrow> at_req list" where
  "record_of d \<equiv> sent (dev_world d)"

abbreviation service_of :: "('w, 's) device \<Rightarrow> ('w, 's) service" where
  "service_of d \<equiv> \<lparr>ds_network = dev_network d, ds_sockets = dev_sockets d\<rparr>"

abbreviation em :: apn_info where
  "em \<equiv> apn_info_new ''em''"

lemma service_eta [simp]: "\<lparr>ds_network = ds_network s, ds_sockets = ds_sockets s\<rparr> = s"
  by (cases s) simp

lemma em_fits: "list_all param_fits (upsd_params e em)"
  by (simp add: upsd_params_def apn_info_new_def)

text \<open>A turn is a call of \<open>data_service\<close> that succeeds and what the client does with the service.\<close>

lemma succeeds_client_step:
  assumes "succeeds (data_service e k em) (\<lambda>_. R) (cl_device c)"
    and "\<And>d. R d \<Longrightarrow> succeeds (client_turn (service_tcp e st) B echo_server (whatup (cl_count c)))
      (\<lambda>_ (h', s'). h' = Some h \<and> same_status (service_of d) s' \<and> T s') (cl_socket c, service_of d)"
    and "\<And>d. R d \<Longrightarrow> settled d"
    and "cl_count c + 1 < 2 ^ 31"
  shows "succeeds (client_step e k st B) (\<lambda>_ c'. cl_socket c' = Some h \<and> settled (cl_device c')
    \<and> T (service_of (cl_device c')) \<and> cl_count c' = Suc (cl_count c)) c"
proof -
  have set: "settled (d\<lparr>dev_network := ds_network s', dev_sockets := ds_sockets s'\<rparr>)" if "R d" "same_status (service_of d) s'" for d s'
    using assms(3) that by (auto simp: settled_def same_status_def intro: settled_undisturbed)
  have count: "cl_count c < 2147483647" using assms(4) by simp
  show ?thesis
    by (simp add: client_step_def attempt_zoom)
      (rule succeeds_attempt, rule succeeds_mono [OF assms(1)],
        auto intro!: succeeds_mono [OF assms(2)] succeeds_count_up set simp: count)
qed

text \<open>What the client has done after some turns: a settled device, the socket in its set, and every message
  on the stream.\<close>

definition delivered ::
    "('s \<Rightarrow> bool) \<Rightarrow> socket_handle \<Rightarrow> ('w \<times> at_req list, 's) client \<Rightarrow> nat \<Rightarrow> ('w \<times> at_req list, 's) client \<Rightarrow> bool" where
  "delivered live h c0 n c \<longleftrightarrow>
     cl_socket c = Some h \<and> settled (cl_device c) \<and> live_at live h (dev_sockets (cl_device c))
     \<and> cl_count c = cl_count c0 + n
     \<and> stream (record_of (cl_device c)) = (stream (record_of (cl_device c0)))
         (h := stream (record_of (cl_device c0)) h @ concat (map whatup [cl_count c0..<cl_count c0 + n]))"

lemma idle_stream:
  "idle (logged_sockets k) d d' \<Longrightarrow> stream (record_of d') = stream (record_of d)"
  by (auto simp: idle_def sends_only_def stream_no_payload)

lemma succeeds_first_turn:
  assumes "cooperative e" "answers_reads e" "hosts e h" "keeps_sockets st h" "steadfast k st h live"
    "st_len st [] < st_capacity st []" "sk_prune k [] = []"
    "blocks (block_unit B)" "blocks (block_nat B)" "blocks (block_read B)"
    and "unconfigured (cl_device c) \<or> ready (cl_device c)" "dev_sockets (cl_device c) = Some []" "cl_socket c = None"
    "cl_count c + 1 < 2 ^ 31"
  shows "succeeds (client_step (logged e) (logged_sockets k) st B) (\<lambda>_. delivered live h c (Suc 0)) c"
proof -
  let ?e = "logged e" and ?k = "logged_sockets k" and ?rec = "stream (record_of (cl_device c))"
  have prune: "sk_prune ?k [] = []" using assms(7) by (simp add: logged_sockets_def)
  have fit: "fit ?e ?k (\<lambda>_. True) (cl_device c)" using assms(11) by (rule fit_any)
  have "succeeds (data_service ?e ?k em) (\<lambda>_ d. (settled d \<and> net_context (dev_network d) = Active \<and> True)
      \<and> idle ?k (cl_device c) d) (cl_device c)"
    by (intro succeeds_wp succeeds_sustained [OF cooperative_logged [OF assms(1)] answers_reads_logged [OF assms(2)] fit])
      (simp_all add: em_fits, rule wp_mono [OF keeps_wp [OF idle_data_service [OF prune]]], simp_all)
  then have service: "succeeds (data_service ?e ?k em)
      (\<lambda>_ d. settled d \<and> dev_sockets d = Some [] \<and> stream (record_of d) = ?rec) (cl_device c)"
    by (rule succeeds_mono) (auto simp: idle_stream, auto simp: idle_def assms(12))
  let ?T = "\<lambda>s'. linked st h s' \<and> stream (sent (ds_world s')) = ?rec(h := ?rec h @ whatup (cl_count c))"
  have turn: "succeeds (client_turn (service_tcp ?e st) B echo_server (whatup (cl_count c)))
      (\<lambda>_ (h', s'). h' = Some h \<and> same_status (service_of d) s' \<and> ?T s') (None, service_of d)"
    if "dev_sockets d = Some []" "stream (record_of d) = ?rec" for d
    by (rule succeeds_client_turn [OF assms(8-10,3,4), where socks = "[]"])
      (simp_all add: that assms(6) steadfast_reads [OF assms(5,4)])
  show ?thesis
    by (rule succeeds_mono, rule succeeds_client_step [OF service, where T = ?T and h = h])
      (use turn assms(13,14) in
        \<open>auto simp: delivered_def steadfast_linked [OF assms(5)]\<close>)
qed

lemma succeeds_next_turn:
  assumes "cooperative e" "answers_reads e" "never_closes e h" "takes_data e h" "keeps_sockets st h"
    "steadfast k st h live" "sk_prune k [] = []" "blocks (block_nat B)" "blocks (block_read B)"
    and "delivered live h c0 n c" "cl_count c + 1 < 2 ^ 31"
  shows "succeeds (client_step (logged e) (logged_sockets k) st B) (\<lambda>_. delivered live h c0 (Suc n)) c"
proof -
  let ?e = "logged e" and ?k = "logged_sockets k" and ?d = "cl_device c"
  let ?rec = "stream (record_of ?d)" and ?J = "live_at live h"
  have now: "settled ?d" "?J (dev_sockets ?d)" "cl_socket c = Some h" "cl_count c = cl_count c0 + n"
    "?rec = (stream (record_of (cl_device c0)))
       (h := stream (record_of (cl_device c0)) h @ concat (map whatup [cl_count c0..<cl_count c0 + n]))"
    using assms(10) by (simp_all add: delivered_def)
  have prune: "sk_prune ?k [] = []" using assms(7) by (simp add: logged_sockets_def)
  have lasting: "lasting ?k live" using assms(6) by (simp add: steadfast_def lasting_logged)
  have fit: "fit ?e ?k ?J ?d"
    using wp_urcs_live [OF lasting never_closes_logged [OF assms(3)] now(2)] now(1) by (simp add: fit_def settled_ready)
  have closed: "?J (Some socks')" if "ingress_loop ?e ?k socks m = Some (socks', m')" "?J (Some socks)" for socks socks' m m'
    using ingress_loop_sound [OF answers_reads_logged [OF assms(2)] lasting that(1)] that(2)
    by (auto simp: live_at_def dest: map_of_pointwise)
  have "succeeds (data_service ?e ?k em)
      (\<lambda>_ d. (settled d \<and> net_context (dev_network d) = Active \<and> ?J (dev_sockets d)) \<and> idle ?k ?d d) ?d"
    by (intro succeeds_wp succeeds_sustained [OF cooperative_logged [OF assms(1)] answers_reads_logged [OF assms(2)] fit])
      (simp add: em_fits, erule (1) closed, rule wp_mono [OF keeps_wp [OF idle_data_service [OF prune]]], simp_all)
  then have service: "succeeds (data_service ?e ?k em)
      (\<lambda>_ d. settled d \<and> ?J (dev_sockets d) \<and> stream (record_of d) = ?rec) ?d"
    by (rule succeeds_mono) (auto simp: idle_stream)
  let ?T = "\<lambda>s'. linked st h s' \<and> stream (sent (ds_world s')) = ?rec(h := ?rec h @ whatup (cl_count c))"
  have turn: "succeeds (client_turn (service_tcp ?e st) B echo_server (whatup (cl_count c)))
      (\<lambda>_ (h', s'). h' = Some h \<and> same_status (service_of d) s' \<and> ?T s') (Some h, service_of d)"
    if "?J (dev_sockets d)" "stream (record_of d) = ?rec" for d
    by (rule succeeds_client_turn_again [OF assms(8,9,4)])
      (simp_all add: that steadfast_linked [OF assms(6)] steadfast_reads [OF assms(6,5)])
  have step: "succeeds (client_step ?e ?k st B) (\<lambda>_ c'. cl_socket c' = Some h \<and> settled (cl_device c')
      \<and> ?T (service_of (cl_device c')) \<and> cl_count c' = Suc (cl_count c)) c"
    by (rule succeeds_client_step [OF service, where T = ?T])
      (use turn assms(11) in \<open>auto simp: now(3) simp del: fun_upd_apply\<close>)
  show ?thesis
    by (rule succeeds_mono [OF step]) (simp add: delivered_def steadfast_linked [OF assms(6)] now(4,5))
qed

text \<open>Any number of turns, from a device that \<open>data_service\<close> brings into service.\<close>

lemma succeeds_turns:
  assumes "cooperative e" "answers_reads e" "never_closes e h" "hosts e h" "keeps_sockets st h"
    "steadfast k st h live" "st_len st [] < st_capacity st []" "sk_prune k [] = []"
    "blocks (block_unit B)" "blocks (block_nat B)" "blocks (block_read B)"
    and "unconfigured (cl_device c) \<or> ready (cl_device c)" "dev_sockets (cl_device c) = Some []" "cl_socket c = None"
    "cl_count c + Suc n < 2 ^ 31"
  shows "succeeds (repeatP (Suc n) (client_step (logged e) (logged_sockets k) st B)) (\<lambda>_. delivered live h c (Suc n)) c"
proof -
  let ?step = "client_step (logged e) (logged_sockets k) st B"
  have first: "succeeds ?step (\<lambda>_. delivered live h c (Suc 0)) c"
    by (rule succeeds_first_turn [OF assms(1,2,4-11) assms(12-14)]) (use assms(15) in simp)
  have next_turn: "succeeds (repeatP n ?step) (\<lambda>_. delivered live h c (Suc 0 + n)) c1"
    if "delivered live h c (Suc 0) c1" for c1
  proof (rule succeeds_repeat [where N = "Suc n" and I = "delivered live h c", OF _ that])
    fix m c2
    assume del: "delivered live h c m c2" and m: "m < Suc n"
    have "takes_data e h" using assms(4) by (simp add: hosts_def)
    moreover have "cl_count c2 + 1 < 2 ^ 31" using del m assms(15) by (simp add: delivered_def)
    ultimately show "succeeds ?step (\<lambda>_. delivered live h c (Suc m)) c2"
      using succeeds_next_turn [OF assms(1-3) _ assms(5,6,8,10,11) del] by blast
  qed simp
  show ?thesis
    unfolding repeatP.simps succeeds_thenP
    by (rule succeeds_mono [OF first], drule next_turn) simp
qed

section \<open>Properties\<close>

text \<open>C4: liveness that lasts. With a modem that cooperates and answers the requests for data, not only the
  first call of \<open>data_service\<close> on an unconfigured device succeeds, but every one after it: however often the
  application calls it, it is never turned away, and the device is in service, its context active.\<close>

theorem data_service_keeps_succeeding:
  assumes "cooperative e" "answers_reads e" "unconfigured d"
    and "upsd_context_activation (variant e) \<longrightarrow> list_all param_fits (upsd_params e info)"
  shows "\<exists>d'. repeatP (Suc n) (data_service e k info) d = Some (Inr (), d') \<and> in_service d'
    \<and> net_context (dev_network d') = Active"
  using succeedsD [OF succeeds_for_good [OF assms(1,2) disjI1 [OF assms(3)] assms(4), of n k]]
  by (auto simp: settled_in_service)

theorem data_service_keeps_succeeding_witness:
  "\<exists>d'. repeatP 1000 (data_service (hosting_env Lara_R6 pins) tiny_sockets (apn_info_new ''internet''))
       ((device_new 0)\<lparr>dev_sockets := Some [(0, True, None, [])]\<rparr>) = Some (Inr (), d')
     \<and> in_service d' \<and> net_context (dev_network d') = Active"
  using data_service_keeps_succeeding [OF cooperative_hosting answers_reads_hosting, of
      "(device_new 0)\<lparr>dev_sockets := Some [(0, True, None, [])]\<rparr>" Lara_R6 pins "apn_info_new ''internet''" 999 tiny_sockets]
  by (simp add: unconfigured_def device_new_def upsd_context_activation_def)

text \<open>C5: the whole program at work. From a device that is off, with a module that cooperates, hosts the
  client's socket and does not close it, and a set of sockets that keeps what it is given: every turn of the
  client's loop delivers its message. After any number of turns no call has failed, the socket is open and connected,
  the device is in service, and the stream of the socket at the module holds the messages of all turns, whole
  and in order; no other stream has changed.\<close>

theorem client_delivers_every_turn:
  assumes "cooperative e" "answers_reads e" "never_closes e h" "hosts e h" "keeps_sockets st h"
    "steadfast k st h live" "st_len st [] < st_capacity st []" "sk_prune k [] = []"
    "blocks (block_unit B)" "blocks (block_nat B)" "blocks (block_read B)"
    and "unconfigured (cl_device c)" "dev_sockets (cl_device c) = Some []" "cl_socket c = None"
    "cl_count c + Suc n < 2 ^ 31"
  shows "\<exists>c'. repeatP (Suc n) (client_step (logged e) (logged_sockets k) st B) c = Some (Inr (), c')
    \<and> cl_socket c' = Some h \<and> in_service (cl_device c')
    \<and> stream (sent (dev_world (cl_device c'))) = (stream (sent (dev_world (cl_device c))))
        (h := stream (sent (dev_world (cl_device c))) h
           @ concat (map whatup [cl_count c..<cl_count c + Suc n]))"
proof -
  have "succeeds (repeatP (Suc n) (client_step (logged e) (logged_sockets k) st B)) (\<lambda>_. delivered live h c (Suc n)) c"
    by (rule succeeds_turns [OF assms(1-11) disjI1 [OF assms(12)] assms(13-15)])
  from succeedsD [OF this] show ?thesis by (auto simp: delivered_def settled_in_service)
qed

lemma steadfast_tiny: "steadfast tiny_sockets tiny_stack 0 fst"
  by (auto simp: steadfast_def lasting_def tiny_sockets_def tiny_stack_def tiny_get_def tiny_recv_def live_at_def
      split: option.splits)

lemma never_closes_hosting: "never_closes (hosting_env m cfg) h"
  by (simp add: never_closes_def hosting_env_def obliging_env_def)

theorem client_delivers_every_turn_witness:
  "\<exists>c'. repeatP 3 (client_step (logged (hosting_env Sara_R5 pins)) (logged_sockets tiny_sockets) tiny_stack nb_blocks)
       \<lparr>cl_device = (device_new (0, []))\<lparr>dev_sockets := Some []\<rparr>, cl_socket = None, cl_count = 8\<rparr> = Some (Inr (), c')
     \<and> cl_socket c' = Some 0 \<and> in_service (cl_device c')
     \<and> stream (sent (dev_world (cl_device c'))) 0 = map of_char ''Whatup 8Whatup 9Whatup 10''"
proof -
  let ?c = "\<lparr>cl_device = (device_new (0, []))\<lparr>dev_sockets := Some []\<rparr>, cl_socket = None, cl_count = 8\<rparr>
    :: (instant \<times> at_req list, tiny_socket) client"
  have messages: "whatup 8 @ whatup 9 @ whatup 10 = map of_char ''Whatup 8Whatup 9Whatup 10''" by code_simp
  have start: "stream (sent (dev_world (device_new (0, []) :: (instant \<times> at_req list, tiny_socket) device))) = (\<lambda>_. [])"
    by (simp add: device_new_def network_new_def at_tx_new_def stream_def)
  have "\<exists>c'. repeatP (Suc 2) (client_step (logged (hosting_env Sara_R5 pins)) (logged_sockets tiny_sockets) tiny_stack
      nb_blocks) ?c = Some (Inr (), c') \<and> cl_socket c' = Some 0 \<and> in_service (cl_device c')
    \<and> stream (sent (dev_world (cl_device c'))) = (stream (sent (dev_world (cl_device ?c))))
        (0 := stream (sent (dev_world (cl_device ?c))) 0 @ concat (map whatup [cl_count ?c..<cl_count ?c + Suc 2]))"
    by (rule client_delivers_every_turn [OF cooperative_hosting answers_reads_hosting never_closes_hosting
          hosts_hosting keeps_sockets_tiny steadfast_tiny])
      (simp_all add: tiny_stack_def tiny_sockets_def nb_blocks_def blocks_until unconfigured_def device_new_def)
  with messages show ?thesis by (auto simp: start numeral_3_eq_3 numeral_2_eq_2)
qed

end
