(* ===== verification/Recovery.thy ===== *)
theory Recovery
  imports Sustained_Service
begin

text \<open>
  Liveness from anywhere. \<open>Cooperative_Modem\<close> and \<open>Sustained_Service\<close> start from a device that is off
  or in service; here a device starts from whatever its past has left it with: the registration lost, the
  polls not due, timeouts on record. With a modem that cooperates from now on, a call of \<open>data_service\<close>
  that fails brings the device nearer to its recovery: \<open>rank\<close> counts how far it still has to go, and a
  failing call lowers it. \<open>searching_env\<close> is a modem that leaves a device in such a state.
\<close>

section \<open>Runs that return\<close>

text \<open>The run returns, and \<open>Q\<close> holds of its \<open>Result\<close> and of the state it leaves.\<close>

definition outcome :: "('s, 'e, 'a) prog \<Rightarrow> ('e + 'a \<Rightarrow> 's \<Rightarrow> bool) \<Rightarrow> 's \<Rightarrow> bool" where
  "outcome m Q s \<longleftrightarrow> (case m s of None \<Rightarrow> False | Some (r, t) \<Rightarrow> Q r t)"

lemma outcome_simps [simp]:
  "outcome (okP a) Q s \<longleftrightarrow> Q (Inr a) s" "outcome (errP x) Q s \<longleftrightarrow> Q (Inl x) s"
  "outcome (getsP f) Q s \<longleftrightarrow> Q (Inr (f s)) s"
  by (simp_all add: outcome_def prog_defs)

lemma outcome_modifyP [simp]: "outcome (modifyP f) Q s \<longleftrightarrow> Q (Inr ()) (f s)"
  by (simp add: outcome_def modifyP_def)

lemma outcome_bindP [simp]:
  "outcome (bindP m f) Q s \<longleftrightarrow>
     outcome m (\<lambda>r t. case r of Inl x \<Rightarrow> Q (Inl x) t | Inr a \<Rightarrow> outcome (f a) Q t) s"
  by (auto simp: outcome_def bindP_def split: option.splits sum.splits)

lemma outcome_thenP [simp]:
  "outcome (thenP m k) Q s \<longleftrightarrow>
     outcome m (\<lambda>r t. case r of Inl x \<Rightarrow> Q (Inl x) t | Inr _ \<Rightarrow> outcome k Q t) s"
  by (simp add: thenP_def)

lemma outcome_attempt [simp]: "outcome (attempt m) Q s \<longleftrightarrow> outcome m (\<lambda>r. Q (Inr r)) s"
  by (auto simp: outcome_def attempt_def split: option.splits)

lemma outcome_map_errP [simp]: "outcome (map_errP f m) Q s \<longleftrightarrow> outcome m (\<lambda>r. Q (map_sum f id r)) s"
  by (auto simp: outcome_def map_errP_def split: option.splits)

lemma outcome_zoom [simp]: "outcome (zoom get put m) Q s \<longleftrightarrow> outcome m (\<lambda>r t. Q r (put t s)) (get s)"
  by (auto simp: outcome_def zoom_def split: option.splits)

lemma outcome_mono: "outcome m Q s \<Longrightarrow> (\<And>r t. Q r t \<Longrightarrow> Q' r t) \<Longrightarrow> outcome m Q' s"
  by (auto simp: outcome_def split: option.splits)

lemma outcome_succeeds:
  assumes "succeeds m R s" "\<And>a t. R a t \<Longrightarrow> Q (Inr a) t"
  shows "outcome m Q s"
  using succeedsD [OF assms(1)] assms(2) by (auto simp: outcome_def)

lemma outcome_keeps: "outcome m Q s \<Longrightarrow> keeps R m \<Longrightarrow> outcome m (\<lambda>r t. Q r t \<and> R s t) s"
  by (auto simp: outcome_def keeps_def split: option.splits)

lemma succeeds_keeps: "succeeds m Q s \<Longrightarrow> keeps R m \<Longrightarrow> succeeds m (\<lambda>a t. Q a t \<and> R s t) s"
  by (auto simp: succeeds_def keeps_def split: option.splits sum.splits)

lemma outcomeD: "outcome m Q s \<Longrightarrow> \<exists>r t. m s = Some (r, t) \<and> Q r t"
  by (auto simp: outcome_def split: option.splits)

section \<open>Waiting for the registration\<close>

text \<open>From the start of a pass of the network state machine: time goes on, the device is connecting, the
  next poll is due when it was, and the module has been answering.\<close>

definition waiting :: "('w \<Rightarrow> instant) \<Rightarrow> 'w network \<Rightarrow> 'w network \<Rightarrow> bool" where
  "waiting clk n n' \<longleftrightarrow> time_passes clk n n' \<and> conn_state (net_status n') = Connecting
     \<and> tx_timeouts (net_tx n') \<le> 10
     \<and> (conn_state (net_status n) = Connecting \<longrightarrow> reg_check_time (net_status n') = reg_check_time (net_status n))"

lemma waiting_trans: "waiting clk n n' \<Longrightarrow> waiting clk n' n'' \<Longrightarrow> waiting clk n n''"
  by (auto simp: waiting_def time_passes_def)

lemma waiting_connects: "waiting clk n n' \<Longrightarrow> conn_state (net_status n') = Connecting"
  by (simp add: waiting_def)

text \<open>What the commands of a pass leave alone.\<close>

definition commanded :: "'w network \<Rightarrow> 'w network \<Rightarrow> bool" where
  "commanded n n' \<longleftrightarrow> conn_state (net_status n') = conn_state (net_status n)
     \<and> reg_check_time (net_status n') = reg_check_time (net_status n) \<and> tx_timeouts (net_tx n') \<le> 10"

lemma commanded_waiting:
  assumes "conn_state (net_status n) = Connecting" "commanded n n'" "time_passes clk n n'"
  shows "waiting clk n n'"
  using assms by (simp add: commanded_def waiting_def)

lemma count_intervention_check [simp]: "reg_check_time (count_intervention r) = reg_check_time r"
  "reg_check_time (reset_slots r) = reg_check_time r"
  by (simp_all add: count_intervention_def reset_slots_def)

text \<open>A module that acknowledges what it is told fails no intervention.\<close>

lemma succeeds_intervene:
  assumes "cooperative e" "tx_timeouts (net_tx n) \<le> 10"
  shows "succeeds (intervene_registration e) (\<lambda>_. commanded n) n"
proof -
  have states: "answers e get_pdp_context_state (context_activated CONTEXT_ID)"
    using assms(1) by (simp add: cooperative_def)
  have psd: "succeeds (intervene_psd e r t) (\<lambda>_. commanded n) n1"
    if "commanded n n1" for r t n1
    using that unfolding intervene_psd_def
    by (auto simp: whenP_def served_def commanded_def select_operator_def
        intro!: succeeds_send_internal [OF states] succeeds_attempt succeeds_send_internal [OF ack [OF cooperative_configurable [OF assms(1)]]])
  have csd: "succeeds (intervene_csd e r t) (\<lambda>_. commanded n) n1"
    if "commanded n n1" for r t n1
    using that psd [OF that] unfolding intervene_csd_def
    by (auto simp: served_def commanded_def rf_reset_def set_functionality_def
        intro!: succeeds_send_internal [OF ack [OF cooperative_configurable [OF assms(1)]]])
  have start: "commanded n n" "commanded n (n\<lparr>net_tx := (net_tx n)\<lparr>tx_world := w\<rparr>\<rparr>)" for w
    using assms(2) by (simp_all add: commanded_def)
  show ?thesis
    unfolding intervene_registration_def
    using start csd [OF start(2)]
    by (auto intro!: succeeds_net_clock succeeds_attempt succeeds_send_internal [OF ack [OF cooperative_configurable [OF assms(1)]]]
        simp: served_def commanded_def rf_reset_def set_functionality_def select_operator_def)
qed

lemma succeeds_watch_imsi:
  assumes "cooperative e" "tx_timeouts (net_tx n) \<le> 10"
  shows "succeeds (check_running_imsi e) (\<lambda>_. commanded n) n"
  by (rule succeeds_mono [OF succeeds_running_imsi [OF assms]]) (auto simp: commanded_def)

text \<open>A network that looks and is not on the air is connecting after the check of the state.\<close>

lemma succeeds_check_waiting:
  assumes "looks n" "\<not> on_the_air (net_status n)" "tx_timeouts (net_tx n) \<le> 10" "monotone_world e clk"
  shows "succeeds (check_registration_state e) (\<lambda>_. waiting clk n) n"
proof -
  have "succeeds (check_registration_state e) (\<lambda>_ n'. conn_state (net_status n') = Connecting
    \<and> tx_timeouts (net_tx n') \<le> 10
    \<and> (conn_state (net_status n) = Connecting \<longrightarrow> reg_check_time (net_status n') = reg_check_time (net_status n))) n"
    using assms(1-3) by (cases "conn_state (net_status n)")
      (auto simp: succeeds_def check_registration_state_run looks_def on_the_air_def Let_def split: prod.split)
  from succeeds_keeps [OF this net_frame.check_registration_state [OF time_passes_frame [OF assms(4)]]]
  show ?thesis by (rule succeeds_mono) (simp add: waiting_def)
qed

text \<open>The poll: it is made, and the registration is seen; or it is not due.\<close>

definition polled :: "('w \<Rightarrow> instant) \<Rightarrow> 'w network \<Rightarrow> 'w network \<Rightarrow> bool" where
  "polled clk n n' \<longleftrightarrow> looks n' \<and> conn_state (net_status n') \<noteq> Connected \<and> tx_timeouts (net_tx n') \<le> 10
     \<and> (on_the_air (net_status n')
        \<or> (\<exists>c. reg_check_time (net_status n) = Some c \<and> reg_check_time (net_status n') = Some c
             \<and> c \<le> clk (net_world n) \<and> clk (net_world n) < c + REGISTRATION_CHECK_INTERVAL
             \<and> clk (net_world n) < clk (net_world n')))"

lemma outcome_poll:
  assumes "cooperative e" "ticking e clk" "conn_state (net_status n) = Connecting" "tx_timeouts (net_tx n) \<le> 10"
  shows "outcome (poll_registration e)
    (\<lambda>r n'. r = Inl (Generic Timeout) \<or> r = Inr () \<and> polled clk n n') n"
proof -
  obtain w where now: "now e (net_world n) = (clk (net_world n), w)" and later: "clk (net_world n) < clk w"
    using assms(2) unfolding ticking_def by (metis prod.collapse)
  have reg: "answers_registered e" using assms(1) by (simp add: cooperative_def)
  let ?n1 = "n\<lparr>net_tx := (net_tx n)\<lparr>tx_world := w\<rparr>\<rparr>" and ?t = "clk (net_world n)"
  have clock: "net_clock e n = Some (Inr ?t, ?n1)"
    by (simp add: net_clock_def zoom_def clock_def now)
  show ?thesis
  proof (cases "elapsed (reg_check_time (net_status n)) ?t REGISTRATION_CHECK_INTERVAL True")
    case True
    let ?Q = "\<lambda>r n'. r = Inl (Generic Timeout) \<or> r = Inr () \<and> polled clk n n'"
    let ?n2 = "?n1\<lparr>net_status := (net_status ?n1)\<lparr>reg_check_time := Some ?t\<rparr>\<rparr>"
    have "succeeds (update_registration e) (\<lambda>_ n'. conn_state (net_status n') = Connecting
      \<and> on_the_air (net_status n') \<and> tx_timeouts (net_tx n') = 0) ?n2"
      by (rule succeeds_update_registration [OF reg]) (simp_all add: assms(3))
    then obtain n3 where n3: "update_registration e ?n2 = Some (Inr (), n3)"
      "conn_state (net_status n3) = Connecting" "on_the_air (net_status n3)" "tx_timeouts (net_tx n3) = 0"
      using succeedsD by fastforce
    obtain t4 w4 where now4: "now e (net_world n3) = (t4, w4)" by fastforce
    show ?thesis
      using True n3 now4
      by (simp add: poll_registration_def outcome_def thenP_def bindP_def clock getsP_def modifyP_def
          net_clock_def [of e] zoom_def clock_def now okP_def errP_def polled_def looks_def)
  next
    case False
    then have "\<exists>c. reg_check_time (net_status n) = Some c \<and> c \<le> ?t \<and> ?t < c + REGISTRATION_CHECK_INTERVAL"
      by (auto simp: elapsed_def checked_duration_since_def split: option.splits bind_splits if_splits)
    with False later assms(3,4) show ?thesis
      by (auto simp: poll_registration_def outcome_def bindP_def clock getsP_def okP_def polled_def looks_def)
  qed
qed

section \<open>One pass\<close>

text \<open>How long the next poll is away: one if it is due, and one more than the interval allows if no time is
  set for it.\<close>

definition net_rank :: "('w \<Rightarrow> instant) \<Rightarrow> 'w network \<Rightarrow> nat" where
  "net_rank clk n =
     (case reg_check_time (net_status n) of
        None \<Rightarrow> REGISTRATION_CHECK_INTERVAL + 2
      | Some c \<Rightarrow>
          if conn_state (net_status n) = Connecting \<and> c \<le> clk (net_world n)
          then Suc (c + REGISTRATION_CHECK_INTERVAL - clk (net_world n))
          else REGISTRATION_CHECK_INTERVAL + 2)"

lemma net_rank_polled:
  assumes "waiting clk n n1" "polled clk n1 n'"
  shows "on_the_air (net_status n') \<or> net_rank clk n' < net_rank clk n"
  using assms
  by (auto simp: waiting_def polled_def net_rank_def looks_def time_passes_def split: option.splits)
    (cases "conn_state (net_status n')"; simp; linarith)+

lemma pass_runs:
  assumes "cooperative e" "monotone_world e clk"
    and "looks n" "\<not> on_the_air (net_status n)" "tx_timeouts (net_tx n) \<le> 10"
  shows "\<exists>n'. net_process_events e n = poll_registration e n' \<and> waiting clk n n'"
proof -
  note frame = time_passes_frame [OF assms(2)]
  obtain u w where "next_urc e Network_Sub (net_world n) = (u, w)" by fastforce
  then obtain n1 where urc: "handle_urc e n = Some (Inr (), n1)" and n1: "net_status n1 = net_status n"
    "tx_timeouts (net_tx n1) = tx_timeouts (net_tx n)"
    by (simp add: handle_urc_run)
  have t1: "time_passes clk n n1"
    by (rule keepsD [OF net_relation.handle_urc [OF net_frame.axioms(1) [OF frame]] urc])
  have same: "looks n1" "\<not> on_the_air (net_status n1)" "tx_timeouts (net_tx n1) \<le> 10"
    using n1 assms(3-5) by (simp_all add: looks_def)
  obtain n2 where check: "check_registration_state e n1 = Some (Inr (), n2)" and w2: "waiting clk n1 n2"
    using succeedsD [OF succeeds_check_waiting [OF same assms(2)]] by auto
  have "succeeds (intervene_registration e) (\<lambda>_ n'. commanded n2 n' \<and> time_passes clk n2 n') n2"
    using w2 by (intro succeeds_keeps [OF succeeds_intervene [OF assms(1)]]
        net_frame.intervene_registration [OF frame]) (simp_all add: waiting_def)
  then obtain n3 where intervene: "intervene_registration e n2 = Some (Inr (), n3)" and w3: "waiting clk n2 n3"
    using commanded_waiting [OF waiting_connects [OF w2]] by (auto dest!: succeedsD)
  have "succeeds (check_running_imsi e) (\<lambda>_ n'. commanded n3 n' \<and> time_passes clk n3 n') n3"
    using w3 by (intro succeeds_keeps [OF succeeds_watch_imsi [OF assms(1)]]
        net_frame.check_running_imsi [OF frame]) (simp_all add: waiting_def)
  then obtain n4 where imsi: "check_running_imsi e n3 = Some (Inr (), n4)" and w4: "waiting clk n3 n4"
    using commanded_waiting [OF waiting_connects [OF w3]] by (auto dest!: succeedsD)
  have "waiting clk n n2" using w2 t1 n1 by (auto simp: waiting_def time_passes_def)
  then have "waiting clk n n4" using w3 w4 waiting_trans by blast
  moreover have "net_process_events e n = poll_registration e n4"
    using assms(5) by (simp add: net_process_events_def thenP_def bindP_def getsP_def attempt_def okP_def
        urc check intervene imsi not_less [symmetric])
  ultimately show ?thesis by blast
qed

lemma outcome_pass:
  assumes "cooperative e" "ticking e clk" "monotone_world e clk"
    and "looks n" "\<not> on_the_air (net_status n)" "tx_timeouts (net_tx n) \<le> 10"
  shows "outcome (net_process_events e) (\<lambda>r n'. r = Inl (Generic Timeout)
    \<or> r = Inr () \<and> looks n' \<and> conn_state (net_status n') \<noteq> Connected \<and> tx_timeouts (net_tx n') \<le> 10
      \<and> (on_the_air (net_status n') \<or> net_rank clk n' < net_rank clk n)) n"
proof -
  obtain n1 where run: "net_process_events e n = poll_registration e n1" and wait: "waiting clk n n1"
    using pass_runs [OF assms(1,3-6)] by blast
  have "outcome (poll_registration e) (\<lambda>r n'. r = Inl (Generic Timeout) \<or> r = Inr () \<and> polled clk n1 n') n1"
    using wait by (intro outcome_poll [OF assms(1,2)]) (simp_all add: waiting_def)
  with run net_rank_polled [OF wait] show ?thesis
    unfolding outcome_def by (auto simp: polled_def split: option.splits)
qed

section \<open>One call\<close>

text \<open>The device that a call of \<open>data_service\<close> finds where it can bring it into service has rank zero.\<close>

definition recoverable :: "('w, 's) device \<Rightarrow> bool" where
  "recoverable d \<longleftrightarrow> unconfigured d \<or> ready d"

definition rank :: "('w \<Rightarrow> instant) \<Rightarrow> ('w, 's) device \<Rightarrow> nat" where
  "rank clk d =
     (if recoverable d then 0
      else if 10 < tx_timeouts (net_tx (dev_network d)) then 1
      else net_rank clk (dev_network d))"

lemma net_rank_bounds: "0 < net_rank clk n" "net_rank clk n \<le> REGISTRATION_CHECK_INTERVAL + 2"
  by (auto simp: net_rank_def split: option.splits)

lemma rank_bound: "rank clk d \<le> REGISTRATION_CHECK_INTERVAL + 2"
  using net_rank_bounds [of clk "dev_network d"] by (simp add: rank_def)

text \<open>The method a socket's closing runs may read the clock, but does not turn it back.\<close>

definition punctual :: "('w, 's) socket_api \<Rightarrow> ('w \<Rightarrow> instant) \<Rightarrow> bool" where
  "punctual k clk \<longleftrightarrow> (\<forall>s w. clk w \<le> clk (snd (sk_closed_by_remote k s w)))"

lemma punctual_urc:
  assumes "punctual k clk" "socket_urc k u socks w = (socks', w')"
  shows "clk w \<le> clk w'"
proof -
  have "clk w \<le> clk (snd (sk_closed_by_remote k s w))" for s using assms(1) by (simp add: punctual_def)
  then show ?thesis
    using assms(2) by (auto simp: socket_urc_def on_socket_def split: urc.splits option.splits prod.splits)
      (metis snd_conv)
qed

lemma urcs_in_time:
  assumes "monotone_world e clk" "punctual k clk"
  shows "keeps (dev_time_passes clk) (handle_urc_internal e k)"
proof (rule keepsI)
  fix d d' :: "('a, 'b) device" and r
  assume run: "handle_urc_internal e k d = Some (r, d')"
  obtain u w where u: "next_urc e Device_Sub (dev_world d) = (u, w)" by fastforce
  then have later: "clk (dev_world d) \<le> clk w" using assms(1) unfolding monotone_world_def by (metis snd_conv)
  from run u later show "dev_time_passes clk d d'"
    by (auto simp: handle_urc_internal_def bindP_def getsP_def okP_def on_dev_world_run try_next_message_def
        modifyP_def dev_time_passes_def put_world_def put_tx_def split: option.splits prod.splits dest!: punctual_urc [OF assms(2)])
qed

text \<open>A device that is off the air, at the start of a pass and after the URC it handles.\<close>

definition adrift :: "('w, 's) device \<Rightarrow> bool" where
  "adrift d \<longleftrightarrow> dev_power d = On \<and> dev_state d = FullyInitialized \<and> looks (dev_network d)
     \<and> (10 < tx_timeouts (net_tx (dev_network d)) \<or> \<not> on_the_air (net_status (dev_network d)))"

lemma net_rank_context [simp]: "net_rank clk (n\<lparr>net_context := c\<rparr>) = net_rank clk n"
  by (simp add: net_rank_def split: option.split)

lemma net_rank_later:
  assumes "net_status n' = net_status n" "clk (net_world n) \<le> clk (net_world n')"
  shows "net_rank clk n' \<le> net_rank clk n"
  using assms by (auto simp: net_rank_def split: option.splits)

lemma succeeds_hard_reset:
  assumes "cooperative e" "ticking e clk"
  shows "succeeds (hard_reset e) (\<lambda>_ d'. dev_power d' = Off) d"
proof -
  have pulse: "succeeds (reset_pulse e) (\<lambda>_ _. True) d"
    by (rule succeeds_total)
      (auto simp: reset_pulse_def whenP_def intro!: halts_thenP halts_wait_for [OF assms(2)] wp_wait_for)
  show ?thesis
    unfolding hard_reset_def hard_reset_with_def set_power_def succeeds_thenP
    by (rule succeeds_mono [OF pulse])
      (auto intro!: succeeds_power_on [OF cooperative_configurable [OF assms(1)]] simp: alike_def)
qed

lemma outcome_events:
  assumes "cooperative e" "ticking e clk" "monotone_world e clk" "punctual k clk" "adrift d"
  shows "outcome (dev_process_events e k) (\<lambda>r d'. is_err r \<and> dev_power d' = Off
    \<or> r = Inr () \<and> \<not> is_connected (dev_network d') \<and> tx_timeouts (net_tx (dev_network d')) \<le> 10
      \<and> rank clk d' < rank clk d) d"
proof -
  let ?urcs = "\<lambda>d1. alike d d1 \<and> tx_timeouts (net_tx (dev_network d1)) = tx_timeouts (net_tx (dev_network d))"
  have "succeeds (handle_urc_internal e k) (\<lambda>_ d1. ?urcs d1 \<and> dev_time_passes clk d d1) d"
    by (intro succeeds_keeps [OF succeeds_urcs] urcs_in_time assms(3,4)) simp
  then obtain d1 where urcs: "handle_urc_internal e k d = Some (Inr (), d1)" "?urcs d1" "dev_time_passes clk d d1"
    using succeedsD by fastforce
  have reset: "outcome (hard_reset e) (\<lambda>_ d'. dev_power d' = Off) d2" for d2 :: "('a, 'b) device"
    by (rule outcome_succeeds [OF succeeds_hard_reset [OF assms(1,2)]])
  have power: "dev_power d = On" "dev_power d1 = On" "dev_state d1 = FullyInitialized"
    using assms(5) urcs(2) by (simp_all add: adrift_def alike_def)
  show ?thesis
  proof (cases "10 < tx_timeouts (net_tx (dev_network d))")
    case True
    have "net_process_events e (dev_network d1) = Some (Inl (Generic Timeout),
        (dev_network d1)\<lparr>net_tx := (net_tx (dev_network d1))\<lparr>tx_timeouts := 0\<rparr>\<rparr>)"
      using True urcs(2) by (simp add: net_process_events_def prog_defs)
    then show ?thesis
      unfolding dev_process_events_def
      by (simp add: outcome_def [of "handle_urc_internal _ _"] urcs(1) power on_net_def
          outcome_def [of "net_process_events _"])
        (rule outcome_mono [OF reset], simp split: sum.split)
  next
    case False
    have n1: "looks (dev_network d1)" "\<not> on_the_air (net_status (dev_network d1))"
      "tx_timeouts (net_tx (dev_network d1)) \<le> 10"
      using assms(5) urcs(2) False by (auto simp: adrift_def alike_def looks_def)
    have rank: "rank clk d = net_rank clk (dev_network d)" "net_rank clk (dev_network d1) \<le> net_rank clk (dev_network d)"
      using assms(5) urcs(2,3) False
      by (auto simp: rank_def recoverable_def unconfigured_def ready_def adrift_def alike_def dev_time_passes_def
          intro!: net_rank_later)
    have "outcome (on_net (net_process_events e)) (\<lambda>r d'. r = Inl (Generic Timeout)
      \<or> r = Inr () \<and> \<not> is_connected (dev_network d') \<and> tx_timeouts (net_tx (dev_network d')) \<le> 10
      \<and> rank clk d' < rank clk d) d1"
      unfolding on_net_def outcome_zoom
      by (rule outcome_mono [OF outcome_pass [OF assms(1-3) n1]])
        (use rank net_rank_bounds(1) [of clk "dev_network d"] power in
          \<open>auto simp: is_connected_def rank_def [of clk "_\<lparr>dev_network := _\<rparr>"] recoverable_def ready_def unconfigured_def
             looks_def not_less\<close>)
    then show ?thesis
      unfolding dev_process_events_def
      by (simp add: outcome_def [of "handle_urc_internal _ _"] urcs(1) power)
        (erule outcome_mono, auto split: sum.split intro!: outcome_mono [OF reset])
  qed
qed

lemma adrift_cases:
  assumes "dev_state d = FullyInitialized \<longrightarrow> looks (dev_network d)" "\<not> recoverable d"
  shows "adrift d"
  using assms by (auto simp: recoverable_def unconfigured_def ready_def adrift_def looks_def)

text \<open>The call fails, and what it leaves is nearer to the recovery.\<close>

lemma rank_undisturbed:
  assumes "undisturbed (dev_network d) n'" "time_passes clk (dev_network d) n'"
    "tx_timeouts (net_tx (dev_network d)) \<le> 10"
  shows "rank clk (d\<lparr>dev_network := n'\<rparr>) \<le> rank clk d"
proof -
  have status: "net_status n' = net_status (dev_network d)" and
    timeouts: "tx_timeouts (net_tx n') \<le> tx_timeouts (net_tx (dev_network d))"
    using assms(1) by (simp_all add: undisturbed_def)
  have "net_rank clk n' \<le> net_rank clk (dev_network d)"
    using net_rank_later [OF status] assms(2) by (simp add: time_passes_def)
  with status timeouts assms(3) show ?thesis
    by (auto simp: rank_def recoverable_def unconfigured_def ready_def not_less)
qed

definition nearer :: "('w \<Rightarrow> instant) \<Rightarrow> ('w, 's) device \<Rightarrow> ('w, 's) device \<Rightarrow> bool" where
  "nearer clk d d' \<longleftrightarrow> dev_power d' = Off
     \<or> tx_timeouts (net_tx (dev_network d')) \<le> 10 \<and> rank clk d' < rank clk d"

lemma outcome_spin:
  assumes "cooperative e" "ticking e clk" "monotone_world e clk" "punctual k clk" "adrift d"
  shows "outcome (spin e k) (\<lambda>r d'. is_err r \<and> nearer clk d d') d"
proof -
  have init: "initialize e k d = Some (Inr (), d)"
    using assms(5) by (simp add: initialize_def adrift_def bindP_def getsP_def okP_def)
  have ctx: "rank clk (d1\<lparr>dev_network := (dev_network d1)\<lparr>net_context := c\<rparr>\<rparr>) = rank clk d1"
    for d1 :: "('a, 'b) device" and c
    by (simp add: rank_def recoverable_def unconfigured_def ready_def)
  have err: "map_sum Other id r \<noteq> Inr ()" if "is_err r" for r :: "device_error + unit"
    using that by (cases r) simp_all
  show ?thesis
    unfolding spin_def
    by (simp add: outcome_def [of "initialize e k"] init, rule outcome_mono [OF outcome_events [OF assms]])
      (auto simp: nearer_def whenP_def set_context_def on_net_def ctx dest: err split: sum.split)
qed

lemma time_context:
  assumes "ticking e clk" "monotone_world e clk"
  shows "context_relation (time_passes clk) e (\<lambda>_. True)"
proof (intro context_relation.intro net_frame.axioms(1) [OF time_passes_frame [OF assms(2)]] context_relation_axioms.intro)
  show "keeps (time_passes clk) (net_wait e t :: ('a network, data_error nb, unit) prog)" for t
  proof (rule keepsI)
    fix n n' :: "'a network" and r :: "data_error nb + unit"
    assume run: "net_wait e t n = Some (r, n')"
    obtain w where "timer_after e t (net_world n) = Some (Inr (), w)" "clk (net_world n) + t < clk w"
      using timer_after_returns [OF assms(1)] by blast
    with run show "time_passes clk n n'"
      by (auto simp: net_wait_def attempt_def bindP_def okP_def zoom_def time_passes_def)
  qed
qed (simp_all add: time_passes_def)

text \<open>The call fails, and what it leaves is nearer to the recovery.\<close>

lemma outcome_call:
  assumes "cooperative e" "ticking e clk" "monotone_world e clk" "punctual k clk" "adrift d"
  shows "outcome (data_service e k info) (\<lambda>r d'. is_err r \<and> nearer clk d d') d"
proof -
  have defined: "succeeds (define_context e CONTEXT_ID info) (\<lambda>_ n'. undisturbed n n' \<and> time_passes clk n n') n" for n
    using assms(1) by (intro succeeds_keeps [OF succeeds_define_context]
        context_relation.define_ctx [OF time_context [OF assms(2,3)]]) (simp_all add: cooperative_def configurable_def)
  have define_ctx: "succeeds (define_device_context e info)
      (\<lambda>_ d'. nearer clk d d') d1" if "nearer clk d d1" for d1
  proof -
    have "nearer clk d (d1\<lparr>dev_network := n'\<rparr>)"
      if "undisturbed (dev_network d1) n'" "time_passes clk (dev_network d1) n'" for n'
      using \<open>nearer clk d d1\<close> rank_undisturbed [OF that] that(1) by (auto simp: nearer_def undisturbed_def)
    with that show ?thesis
      by (auto simp: define_device_context_def whenP_def on_net_def intro!: succeeds_mono [OF defined])
  qed
  show ?thesis
    unfolding data_service_def outcome_bindP outcome_attempt
    by (rule outcome_mono [OF outcome_spin [OF assms]])
      (auto simp: is_err_def intro!: outcome_succeeds [OF define_ctx] split: sum.splits nb.splits)
qed

lemma rank_pos: "\<not> recoverable d \<Longrightarrow> 0 < rank clk d"
  using net_rank_bounds(1) [of clk "dev_network d"] by (simp add: rank_def)

lemma nearer_rank:
  assumes "nearer clk d d'" "0 < rank clk d"
  shows "rank clk d' < rank clk d"
  using assms by (auto simp: nearer_def rank_def [of clk d'] recoverable_def unconfigured_def)

section \<open>Until the device is in service\<close>

text \<open>\<open>let _ = device.data_service(apn)\<close>: the application ignores that the call failed, and makes it again.\<close>

definition ignoring :: "('s, 'e, unit) prog \<Rightarrow> ('s, 'e, unit) prog" where
  "ignoring m = bindP (attempt m) (\<lambda>_. okP ())"

lemma ignoring_run: "m s = Some (r, t) \<Longrightarrow> ignoring m s = Some (Inr (), t)"
  by (simp add: ignoring_def bindP_def attempt_def okP_def)

lemma recovers:
  assumes "cooperative e" "ticking e clk" "monotone_world e clk" "punctual k clk"
    and "dev_state d = FullyInitialized \<longrightarrow> looks (dev_network d)"
  shows "\<exists>n \<le> rank clk d. \<exists>d'. repeatP n (ignoring (data_service e k info)) d = Some (Inr (), d') \<and> recoverable d'"
  using assms(5)
proof (induction "rank clk d" arbitrary: d rule: less_induct)
  case less
  show ?case
  proof (cases "recoverable d")
    case True
    then show ?thesis by (auto intro!: exI [of _ 0] simp: okP_def)
  next
    case False
    obtain r d1 where call: "data_service e k info d = Some (r, d1)" and near: "nearer clk d d1"
      using outcomeD [OF outcome_call [OF assms(1-4) adrift_cases [OF less.prems False]]] by blast
    have lower: "rank clk d1 < rank clk d" by (rule nearer_rank [OF near rank_pos [OF False]])
    have "dev_state d1 = FullyInitialized \<longrightarrow> looks (dev_network d1)"
      using keepsD [OF looking.data_call call] less.prems by (auto simp: looking_def)
    then obtain n d' where "n \<le> rank clk d1" "recoverable d'"
      "repeatP n (ignoring (data_service e k info)) d1 = Some (Inr (), d')"
      using less.hyps [OF lower] by blast
    with lower call show ?thesis
      by (intro exI [of _ "Suc n"]) (auto simp: thenP_def bindP_def ignoring_run)
  qed
qed

section \<open>A module that finds no network\<close>

text \<open>It is configured like the one of \<open>hosting_env\<close>, but when asked it is searching, in every domain.\<close>

definition searching :: "at_req \<Rightarrow> at_resp" where
  "searching q =
     (case q of
        Network_Service GetNetworkRegistrationStatus \<Rightarrow>
          R_Network_Service (R_NetworkRegistrationStatus
            \<lparr>nrs_n = network_registration_urc_config.UrcDisabled,
             nrs_stat = network_registration_stat.NotRegisteredSearching,
             nrs_lac = None, nrs_ci = None, nrs_act_status = None\<rparr>)
      | Psn_Registration GetGPRSNetworkRegistrationStatus \<Rightarrow>
          R_Psn (R_GPRSNetworkRegistrationStatus
            \<lparr>grs_n = gprs_network_registration_urc_config.UrcDisabled,
             grs_stat = gprs_network_registration_stat.NotRegisteredSearching,
             grs_lac = None, grs_ci = None, grs_act = None, grs_rac = None\<rparr>)
      | Psn_Registration GetEPSNetworkRegistrationStatus \<Rightarrow>
          R_Psn (R_EPSNetworkRegistrationStatus
            \<lparr>ers_n = eps_network_registration_urc_config.UrcDisabled,
             ers_stat = eps_network_registration_stat.NotRegisteredSearching,
             ers_tac = None, ers_ci = None, ers_act = None\<rparr>)
      | _ \<Rightarrow> hosting q)"

definition searching_env :: "module_variant \<Rightarrow> cellular_config \<Rightarrow> instant env" where
  "searching_env m cfg = (hosting_env m cfg)\<lparr>send_raw := (\<lambda>q t. (Inr (searching q), t))\<rparr>"

lemma answers_searching:
  "answers (searching_env m cfg) c P \<longleftrightarrow> (\<exists>r. cmd_parse c (searching (cmd_req c)) = Some r \<and> P r)"
  by (simp add: answers_def searching_env_def)

lemma searching_directive: "directive q \<Longrightarrow> searching q = R_NoResponse"
  by (cases q rule: directive.cases) (simp_all add: searching_def obliging_def hosting_def)

lemma configurable_searching: "configurable (searching_env m cfg)"
proof -
  have "vint_is_high (searching_env m cfg) = vint_is_high (hosting_env m cfg)" by (simp add: searching_env_def)
  then show ?thesis
    by (simp add: configurable_def acknowledges_def answers_searching searching_directive)
      (simp add: typed_cmd_defs typed_cmd_def searching_def obliging_def)
qed

text \<open>The poll then finds no registration in any domain.\<close>

definition answers_down :: "'w env \<Rightarrow> bool" where
  "answers_down e \<longleftrightarrow>
     answers e get_network_registration (\<lambda>r. \<not> up (status_of_network_stat (nrs_stat r)))
     \<and> answers e get_gprs_registration (\<lambda>r. \<not> up (status_of_gprs_stat (grs_stat r)))
     \<and> answers e get_eps_registration (\<lambda>r. \<not> up (status_of_eps_stat (ers_stat r)))"

lemma answers_down_searching: "answers_down (searching_env m cfg)"
  by (simp add: answers_down_def answers_searching)
    (simp add: typed_cmd_defs typed_cmd_def searching_def opt_fits_def up_def status_of_eps_stat_def
      status_of_gprs_stat_def status_of_network_stat_def status_from_u8_def)

lemma answers_down_logged: "answers_down e \<Longrightarrow> answers_down (logged e)"
  by (simp add: answers_down_def answers_logged)

lemma succeeds_update_down:
  assumes "answers_down e"
    and "\<And>n'. conn_state (net_status n') = conn_state (net_status n) \<Longrightarrow> \<not> on_the_air (net_status n') \<Longrightarrow>
      tx_timeouts (net_tx n') = 0 \<Longrightarrow> Q () n'"
  shows "succeeds (update_registration e) Q n"
proof -
  have report: "succeeds (attempt (send_internal e get_extended_error_report False))
      (\<lambda>_ n'. net_status n' = net_status n) n"
    by (intro succeeds_dropped wp_send_internal) simp_all
  note down = assms(1) [unfolded answers_down_def]
  show ?thesis
    unfolding update_registration_def succeeds_thenP succeeds_bindP succeeds_okP
    by (rule succeeds_mono [OF report])
      (auto intro!: succeeds_poll [OF conjunct1 [OF down]] succeeds_poll [OF conjunct1 [OF conjunct2 [OF down]]]
          succeeds_poll [OF conjunct2 [OF conjunct2 [OF down]]] assms(2)
        simp: on_the_air_def report_at_slots slot_registered_up)
qed

text \<open>So a device that starts with such a module is initialized, and adrift.\<close>

lemma initialize_adrift:
  assumes "configurable e" "answers_down e" "unconfigured d"
  shows "\<exists>d'. initialize e k d = Some (Inr (), d') \<and> adrift d' \<and> \<not> recoverable d'
    \<and> conn_state (net_status (dev_network d')) = Connecting"
proof -
  have "succeeds (initialize e k)
    (\<lambda>_ d'. dev_power d' = On \<and> dev_state d' = FullyInitialized
       \<and> conn_state (net_status (dev_network d')) = Connecting \<and> \<not> on_the_air (net_status (dev_network d'))
       \<and> tx_timeouts (net_tx (dev_network d')) = 0) d"
    by (rule succeeds_initialize_found [OF assms(1) _ _ assms(3)])
      (auto intro: succeeds_update_down [OF assms(2)] simp: on_the_air_def)
  then show ?thesis
    by (auto simp: adrift_def looks_def recoverable_def unconfigured_def ready_def dest!: succeedsD)
qed

section \<open>Properties\<close>

text \<open>C2: liveness from anywhere. Take a device in any state its past can have left it with: under any modem,
  any network and any calls, however they ended. If from now on the modem cooperates and time passes, an
  application that just calls \<open>data_service\<close> again when it fails gets its service: after a bounded number of failing
  calls every further call succeeds, the device being in service and its context active. The bound is the interval of
  the polls in microseconds and two: in the worst case a call takes one.\<close>

theorem service_recovers:
  assumes "reachable e0 k0 st0 d"
    and "cooperative e" "answers_reads e" "ticking e clk" "monotone_world e clk" "punctual k clk"
    and "upsd_context_activation (variant e) \<longrightarrow> list_all param_fits (upsd_params e info)"
  shows "\<exists>n \<le> 15000002. \<exists>d1. repeatP n (ignoring (data_service e k info)) d = Some (Inr (), d1)
    \<and> (\<forall>m. \<exists>d2. repeatP (Suc m) (data_service e k info) d1 = Some (Inr (), d2) \<and> in_service d2
         \<and> net_context (dev_network d2) = Active)"
proof -
  have "dev_state d = FullyInitialized \<longrightarrow> looks (dev_network d)"
    using reachable_looks [OF assms(1)] by blast
  from recovers [OF assms(2,4,5,6) this, of info] obtain n d1 where
    n: "n \<le> rank clk d" "repeatP n (ignoring (data_service e k info)) d = Some (Inr (), d1)" "recoverable d1"
    by blast
  have "n \<le> 15000002"
    using n(1) rank_bound [of clk d] by (simp add: REGISTRATION_CHECK_INTERVAL_def from_secs_def)
  moreover have "\<exists>d2. repeatP (Suc m) (data_service e k info) d1 = Some (Inr (), d2) \<and> in_service d2
      \<and> net_context (dev_network d2) = Active" for m
    using succeedsD [OF succeeds_for_good [OF assms(2,3) n(3) [unfolded recoverable_def] assms(7), of m k]]
    by (auto simp: settled_in_service)
  ultimately show ?thesis using n(2) by blast
qed

lemma hosting_in_time: "ticking (hosting_env m cfg) id" "monotone_world (hosting_env m cfg) id"
  by (simp_all add: ticking_def monotone_world_def hosting_env_def obliging_env_def)

lemma punctual_dull: "punctual dull_sockets clk"
  by (simp add: punctual_def dull_sockets_def)

theorem service_recovers_witness:
  "\<forall>st :: (instant, unit) stack_api. \<exists>d. reachable (searching_env Toby_R2 pins) dull_sockets st d \<and> dev_power d = On
     \<and> conn_state (net_status (dev_network d)) = Connecting \<and> \<not> recoverable d
     \<and> (\<exists>n \<le> 15000002. \<exists>d1. repeatP n (ignoring (data_service (hosting_env Sara_R5 pins) dull_sockets (apn_info_new ''internet''))) d
           = Some (Inr (), d1)
         \<and> (\<exists>d2. repeatP 1000 (data_service (hosting_env Sara_R5 pins) dull_sockets (apn_info_new ''internet'')) d1
              = Some (Inr (), d2) \<and> in_service d2))"
proof
  fix st :: "(instant, unit) stack_api"
  let ?e = "searching_env Toby_R2 pins"
  have "unconfigured (device_new 0 :: (instant, unit) device)" by (simp add: unconfigured_def device_new_def)
  from initialize_adrift [OF configurable_searching answers_down_searching this, of Toby_R2 pins dull_sockets]
  obtain d where d: "initialize ?e dull_sockets (device_new 0) = Some (Inr (), d)" "dev_power d = On"
    "conn_state (net_status (dev_network d)) = Connecting" "\<not> recoverable d" unfolding adrift_def by blast
  have reach: "reachable ?e dull_sockets st d"
    by (rule reachable.step [OF reachable.new dev_step.initialize [OF d(1)]])
  have fits: "upsd_context_activation (variant (hosting_env Sara_R5 pins)) \<longrightarrow>
      list_all param_fits (upsd_params (hosting_env Sara_R5 pins) (apn_info_new ''internet''))"
    by (simp add: upsd_params_def apn_info_new_def)
  from service_recovers [OF reach cooperative_hosting answers_reads_hosting hosting_in_time punctual_dull fits]
  obtain n d1 where "n \<le> 15000002"
    "repeatP n (ignoring (data_service (hosting_env Sara_R5 pins) dull_sockets (apn_info_new ''internet''))) d = Some (Inr (), d1)"
    "\<exists>d2. repeatP (Suc 999) (data_service (hosting_env Sara_R5 pins) dull_sockets (apn_info_new ''internet'')) d1
       = Some (Inr (), d2) \<and> in_service d2" by metis
  with reach d(2-4) show "\<exists>d. reachable ?e dull_sockets st d \<and> dev_power d = On
     \<and> conn_state (net_status (dev_network d)) = Connecting \<and> \<not> recoverable d
     \<and> (\<exists>n \<le> 15000002. \<exists>d1. repeatP n (ignoring (data_service (hosting_env Sara_R5 pins) dull_sockets (apn_info_new ''internet''))) d
           = Some (Inr (), d1)
         \<and> (\<exists>d2. repeatP 1000 (data_service (hosting_env Sara_R5 pins) dull_sockets (apn_info_new ''internet'')) d1
              = Some (Inr (), d2) \<and> in_service d2))"
    by (simp del: repeatP.simps) blast
qed

end
