(* ===== verification/Client_Recovery.thy ===== *)
theory Client_Recovery
  imports Recovery
begin

text \<open>
  The whole program from anywhere: the loop of the sockets example (\<open>Socket_Client\<close>) on a device in any state
  its past has left it with. A turn whose call of \<open>data_service\<close> fails does nothing but count; the device
  recovers within a bounded number of such turns (\<open>Recovery\<close>), and from then on every turn delivers its
  message (\<open>Sustained_Service\<close>).
\<close>

section \<open>Turns that fail\<close>

lemma monotone_logged:
  assumes "monotone_world e clk"
  shows "monotone_world (logged e) (clk \<circ> fst)"
  using assms by (auto simp: monotone_world_def logged_def split: prod.split) (metis snd_conv)+

lemma punctual_logged:
  assumes "punctual k clk"
  shows "punctual (logged_sockets k) (clk \<circ> fst)"
  using assms by (auto simp: punctual_def logged_sockets_def split: prod.split) (metis snd_conv)

text \<open>What turns without a message leave: no socket, the stream as it was, and the count of the turns.\<close>

definition waited :: "nat \<Rightarrow> ('w \<times> at_req list, 's) client \<Rightarrow> ('w \<times> at_req list, 's) client \<Rightarrow> bool" where
  "waited n c c' \<longleftrightarrow> cl_socket c' = None \<and> dev_sockets (cl_device c') = Some [] \<and> cl_count c' = cl_count c + n
     \<and> stream (record_of (cl_device c')) = stream (record_of (cl_device c))"

lemma client_step_fails:
  assumes "data_service e k em (cl_device c) = Some (Inl x, d)" "cl_count c + 1 < 2 ^ 31"
  shows "client_step e k st B c = Some (Inr (), c\<lparr>cl_device := d, cl_count := cl_count c + 1\<rparr>)"
  using assms by (simp add: client_step_def bindP_def thenP_def getsP_def attempt_def zoom_def okP_def count_up_def)

lemma failing_turn:
  assumes "cooperative e" "ticking e clk" "monotone_world e clk" "punctual k clk" "sk_prune k [] = []"
    and "adrift (cl_device c)" "cl_socket c = None" "dev_sockets (cl_device c) = Some []" "cl_count c + 1 < 2 ^ 31"
  shows "\<exists>c'. client_step (logged e) (logged_sockets k) st B c = Some (Inr (), c') \<and> waited 1 c c'
    \<and> nearer (clk \<circ> fst) (cl_device c) (cl_device c') \<and> looking (cl_device c) (cl_device c')"
proof -
  let ?e = "logged e" and ?k = "logged_sockets k"
  have prune: "sk_prune ?k [] = []" using assms(5) by (simp add: logged_sockets_def)
  obtain r d where run: "data_service ?e ?k em (cl_device c) = Some (r, d)" and "is_err r"
    and near: "nearer (clk \<circ> fst) (cl_device c) d"
    using outcomeD [OF outcome_call [OF cooperative_logged [OF assms(1)] logged_ticking [OF assms(2)]
          monotone_logged [OF assms(3)] punctual_logged [OF assms(4)] assms(6)]] by blast
  then obtain x where r: "r = Inl x" by (auto simp: is_err_def split: sum.splits)
  have "idle ?k (cl_device c) d" by (rule keepsD [OF idle_data_service [OF prune] run])
  then have "dev_sockets d = Some []" "stream (record_of d) = stream (record_of (cl_device c))"
    using assms(8) by (auto simp: idle_stream) (simp add: idle_def)
  with client_step_fails [OF run [unfolded r] assms(9)] near keepsD [OF looking.data_call run] assms(7) show ?thesis
    by (auto simp: waited_def)
qed

lemma waited_trans: "waited m c c' \<Longrightarrow> waited n c' c'' \<Longrightarrow> waited (m + n) c c''"
  by (simp add: waited_def)

lemma client_waits:
  assumes "cooperative e" "ticking e clk" "monotone_world e clk" "punctual k clk" "sk_prune k [] = []"
    and "dev_state (cl_device c) = FullyInitialized \<longrightarrow> looks (dev_network (cl_device c))"
    "cl_socket c = None" "dev_sockets (cl_device c) = Some []"
    "cl_count c + rank (clk \<circ> fst) (cl_device c) < 2 ^ 31"
  shows "\<exists>n \<le> rank (clk \<circ> fst) (cl_device c). \<exists>c'. repeatP n (client_step (logged e) (logged_sockets k) st B) c = Some (Inr (), c')
    \<and> waited n c c' \<and> recoverable (cl_device c')"
  using assms(6-9)
proof (induction "rank (clk \<circ> fst) (cl_device c)" arbitrary: c rule: less_induct)
  case less
  let ?rank = "\<lambda>c. rank (clk \<circ> fst) (cl_device c)" and ?step = "client_step (logged e) (logged_sockets k) st B"
  show ?case
  proof (cases "recoverable (cl_device c)")
    case True
    with less.prems show ?thesis by (auto intro!: exI [of _ 0] simp: okP_def waited_def)
  next
    case False
    then have pos: "0 < ?rank c" by (rule rank_pos)
    then have "cl_count c + 1 < 2 ^ 31" using less.prems(4) by linarith
    from failing_turn [OF assms(1-5) adrift_cases [OF less.prems(1) False] less.prems(2,3) this]
    obtain c1 where c1: "?step c = Some (Inr (), c1)" "waited 1 c c1" "nearer (clk \<circ> fst) (cl_device c) (cl_device c1)"
      "looking (cl_device c) (cl_device c1)" by blast
    have lower: "?rank c1 < ?rank c" by (rule nearer_rank [OF c1(3) pos])
    have "\<exists>n \<le> ?rank c1. \<exists>c'. repeatP n ?step c1 = Some (Inr (), c') \<and> waited n c1 c' \<and> recoverable (cl_device c')"
      by (rule less.hyps [OF lower]) (use c1(2,4) lower less.prems in \<open>auto simp: waited_def looking_def\<close>)
    then obtain n c' where "n \<le> ?rank c1" "repeatP n ?step c1 = Some (Inr (), c')" "waited n c1 c'"
      "recoverable (cl_device c')" by blast
    with lower c1(1) waited_trans [OF c1(2)] show ?thesis
      by (intro exI [of _ "Suc n"]) (auto simp: thenP_def bindP_def)
  qed
qed

section \<open>Properties\<close>

text \<open>C1: the whole program from anywhere. The client of the sockets example starts without a socket on a device
  in any state its past can have left it with, under any modem, any network and any calls. If from now on the
  module cooperates, hosts the client's socket and does not close it, and time passes, then the client is at its work
  within a bounded number of turns, with nothing sent in between: from there on every turn delivers its message, so that
  after any further number of turns the stream of its socket has the messages of those turns, whole and in
  order, and no other stream has changed.\<close>

theorem client_recovers:
  assumes "reachable e0 k0 st0 (cl_device c)"
    and "cooperative e" "answers_reads e" "never_closes e h" "hosts e h" "keeps_sockets st h" "steadfast k st h live"
    "st_len st [] < st_capacity st []" "sk_prune k [] = []"
    "blocks (block_unit B)" "blocks (block_nat B)" "blocks (block_read B)"
    and "ticking e clk" "monotone_world e clk" "punctual k clk"
    and "dev_sockets (cl_device c) = Some []" "cl_socket c = None" "cl_count c + 15000002 + Suc m < 2 ^ 31"
  shows "\<exists>n \<le> 15000002. \<exists>c'. repeatP (n + Suc m) (client_step (logged e) (logged_sockets k) st B) c = Some (Inr (), c')
    \<and> cl_socket c' = Some h \<and> in_service (cl_device c')
    \<and> stream (sent (dev_world (cl_device c'))) = (stream (sent (dev_world (cl_device c))))
        (h := stream (sent (dev_world (cl_device c))) h
           @ concat (map whatup [cl_count c + n..<cl_count c + n + Suc m]))"
proof -
  let ?step = "client_step (logged e) (logged_sockets k) st B" and ?clk = "clk \<circ> fst"
  have bound: "rank ?clk (cl_device c) \<le> 15000002"
    using rank_bound [of ?clk "cl_device c"] by (simp add: REGISTRATION_CHECK_INTERVAL_def from_secs_def)
  have "\<exists>n \<le> rank ?clk (cl_device c). \<exists>c1. repeatP n ?step c = Some (Inr (), c1) \<and> waited n c c1 \<and> recoverable (cl_device c1)"
    by (rule client_waits [OF assms(2,13-15,9) _ assms(17,16)])
      (use reachable_looks [OF assms(1)] bound assms(18) in auto)
  then obtain n c1 where n: "n \<le> 15000002" "repeatP n ?step c = Some (Inr (), c1)" "waited n c c1"
    "recoverable (cl_device c1)" using bound by (meson order_trans)
  have "succeeds (repeatP (Suc m) ?step) (\<lambda>_. delivered live h c1 (Suc m)) c1"
    by (rule succeeds_turns [OF assms(2-12) n(4) [unfolded recoverable_def]])
      (use n(1,3) assms(18) in \<open>auto simp: waited_def\<close>)
  then obtain c2 where "repeatP (Suc m) ?step c1 = Some (Inr (), c2)" "delivered live h c1 (Suc m) c2"
    using succeedsD by fastforce
  note c2 = this
  have "repeatP (n + Suc m) ?step c = Some (Inr (), c2)"
    using n(2) c2(1) unfolding repeatP_add by (simp add: thenP_def bindP_def del: repeatP.simps)
  with n(1,3) c2(2) show ?thesis
    by (intro exI [of _ n] conjI exI [of _ c2]) (simp_all add: delivered_def waited_def settled_in_service)
qed

lemma punctual_tiny: "punctual tiny_sockets clk"
  by (simp add: punctual_def tiny_sockets_def)

theorem client_recovers_witness:
  "\<forall>st0 :: (instant \<times> at_req list, tiny_socket) stack_api. \<exists>c n c'.
     reachable (logged (searching_env Toby_R2 pins)) (logged_sockets tiny_sockets) st0 (cl_device c) \<and> \<not> recoverable (cl_device c)
     \<and> cl_count c = 8 \<and> n \<le> 15000002
     \<and> repeatP (n + Suc 2) (client_step (logged (hosting_env Sara_R5 pins)) (logged_sockets tiny_sockets) tiny_stack nb_blocks) c
        = Some (Inr (), c')
     \<and> stream (sent (dev_world (cl_device c'))) 0 = whatup (8 + n) @ whatup (9 + n) @ whatup (10 + n)"
proof
  fix st0 :: "(instant \<times> at_req list, tiny_socket) stack_api"
  let ?e = "logged (searching_env Toby_R2 pins)"
  let ?d = "(device_new (0, []) :: (instant \<times> at_req list, tiny_socket) device)\<lparr>dev_sockets := Some []\<rparr>"
  have "set_socket_storage (logged_sockets tiny_sockets) [] (device_new (0, []) :: (instant \<times> at_req list, tiny_socket) device)
      = Some (Inr () :: device_error + unit, ?d)"
    by (simp add: set_socket_storage_def modifyP_def logged_sockets_def tiny_sockets_def)
  then have given: "reachable ?e (logged_sockets tiny_sockets) st0 ?d"
    by (rule reachable.step [OF reachable.new dev_step.set_sockets])
  have "unconfigured ?d" by (simp add: unconfigured_def device_new_def)
  from initialize_adrift [OF configurable_logged [OF configurable_searching] answers_down_logged [OF answers_down_searching] this]
  obtain d where init: "initialize ?e (logged_sockets tiny_sockets) ?d = Some (Inr (), d)" and lost: "\<not> recoverable d" by blast
  let ?c = "\<lparr>cl_device = d, cl_socket = None, cl_count = 8\<rparr>"
  have reach: "reachable ?e (logged_sockets tiny_sockets) st0 (cl_device ?c)"
    using reachable.step [OF given dev_step.initialize [OF init]] by simp
  have "sk_prune (logged_sockets tiny_sockets) [] = []" by (simp add: logged_sockets_def tiny_sockets_def)
  note quiet = keepsD [OF idle_initialize [OF this] init]
  have sockets: "dev_sockets d = Some []" using quiet by (simp add: idle_def)
  have none: "stream (sent (dev_world d)) = (\<lambda>_. [])"
    using idle_stream [OF quiet] by (simp add: device_new_def network_new_def at_tx_new_def stream_def)
  have "\<exists>n \<le> 15000002. \<exists>c'. repeatP (n + Suc 2)
      (client_step (logged (hosting_env Sara_R5 pins)) (logged_sockets tiny_sockets) tiny_stack nb_blocks) ?c = Some (Inr (), c')
    \<and> cl_socket c' = Some 0 \<and> in_service (cl_device c')
    \<and> stream (sent (dev_world (cl_device c'))) = (stream (sent (dev_world (cl_device ?c))))
        (0 := stream (sent (dev_world (cl_device ?c))) 0 @ concat (map whatup [cl_count ?c + n..<cl_count ?c + n + Suc 2]))"
    by (rule client_recovers [OF reach cooperative_hosting answers_reads_hosting never_closes_hosting
          hosts_hosting keeps_sockets_tiny steadfast_tiny, where clk = id])
      (simp_all add: sockets tiny_stack_def tiny_sockets_def nb_blocks_def blocks_until device_new_def hosting_in_time
        punctual_tiny [unfolded tiny_sockets_def])
  then obtain n c' where "n \<le> 15000002" "repeatP (n + Suc 2)
      (client_step (logged (hosting_env Sara_R5 pins)) (logged_sockets tiny_sockets) tiny_stack nb_blocks) ?c = Some (Inr (), c')"
    "stream (sent (dev_world (cl_device c'))) 0 = concat (map whatup [8 + n..<8 + n + Suc 2])"
    by (auto simp: none)
  moreover have "[8 + n..<8 + n + Suc 2] = [8 + n, 9 + n, 10 + n]" by (simp add: upt_rec)
  ultimately show "\<exists>c n c'. reachable (logged (searching_env Toby_R2 pins)) (logged_sockets tiny_sockets) st0 (cl_device c)
     \<and> \<not> recoverable (cl_device c)
     \<and> cl_count c = 8 \<and> n \<le> 15000002
     \<and> repeatP (n + Suc 2) (client_step (logged (hosting_env Sara_R5 pins)) (logged_sockets tiny_sockets) tiny_stack nb_blocks) c
        = Some (Inr (), c')
     \<and> stream (sent (dev_world (cl_device c'))) 0 = whatup (8 + n) @ whatup (9 + n) @ whatup (10 + n)"
    using reach lost by (intro exI [of _ ?c] exI [of _ n] exI [of _ c']) simp
qed

end
