(* ===== verification/Example_Support.thy ===== *)
theory Example_Support
  imports Environment
begin

text \<open>
  What the examples bring to the driver: \<open>examples/common_lib/src/\<close>, the pins, the serial port and the timer
  on Linux, and \<open>examples/linux_jobs/src/file_handler.rs\<close>, the file an update is assembled in. The pin of
  \<open>linux_embedded_hal\<close> and the port of \<open>serialport\<close> are parameters over a world \<open>'w\<close>; times of
  \<open>std::time\<close> are nanoseconds here.
\<close>

section \<open>Pins\<close>

text \<open>\<open>linux_embedded_hal::Pin\<close>.\<close>

record ('w, 'e) sysfs_pin =
  pin_active_low :: "('w, 'e, bool) prog"
  pin_get :: "('w, 'e, u8) prog"
  pin_set :: "u8 \<Rightarrow> ('w, 'e, unit) prog"

definition ext_set_low :: "('w, 'e) sysfs_pin \<Rightarrow> ('w, 'e, unit) prog" where
  "ext_set_low p = bindP (pin_active_low p) (\<lambda>inverted. if inverted then pin_set p 1 else pin_set p 0)"

definition ext_set_high :: "('w, 'e) sysfs_pin \<Rightarrow> ('w, 'e, unit) prog" where
  "ext_set_high p = bindP (pin_active_low p) (\<lambda>inverted. if inverted then pin_set p 0 else pin_set p 1)"

definition ext_is_high :: "('w, 'e) sysfs_pin \<Rightarrow> ('w, 'e, bool) prog" where
  "ext_is_high p =
     bindP (pin_active_low p) (\<lambda>inverted.
       if \<not> inverted then bindP (pin_get p) (\<lambda>val. okP (val \<noteq> 0))
       else bindP (pin_get p) (\<lambda>val. okP (val = 0)))"

definition ext_is_low :: "('w, 'e) sysfs_pin \<Rightarrow> ('w, 'e, bool) prog" where
  "ext_is_low p = bindP (ext_is_high p) (\<lambda>val. okP (\<not> val))"

text \<open>The pin as the kernel documents it: \<open>value\<close> is the level, inverted when \<open>active_low\<close> is set.\<close>

definition sysfs :: "('w, 'e) sysfs_pin \<Rightarrow> ('w \<Rightarrow> bool) \<Rightarrow> ('w \<Rightarrow> bool) \<Rightarrow> bool" where
  "sysfs p inverted level \<longleftrightarrow>
     (\<forall>w. pin_active_low p w = Some (Inr (inverted w), w))
     \<and> (\<forall>w. \<exists>v. pin_get p w = Some (Inr v, w) \<and> (v \<noteq> 0 \<longleftrightarrow> level w \<noteq> inverted w))
     \<and> (\<forall>v w. \<exists>w'. pin_set p v w = Some (Inr (), w') \<and> inverted w' = inverted w
          \<and> (level w' \<longleftrightarrow> (v \<noteq> 0) \<noteq> inverted w))"

section \<open>The serial port\<close>

datatype io_error_kind = Io_WouldBlock | TimedOut | Interrupted | Io_Other

datatype serial_error = Serial_Other

definition translate_io_errors :: "io_error_kind \<Rightarrow> serial_error nb" where
  "translate_io_errors err =
     (case err of
        Io_WouldBlock \<Rightarrow> WouldBlock | TimedOut \<Rightarrow> WouldBlock | Interrupted \<Rightarrow> WouldBlock
      | _ \<Rightarrow> Other Serial_Other)"

text \<open>\<open>Read\<close> and \<open>Write\<close> of the port: \<open>read\<close> fills the buffer from its start.\<close>

record 'w serial_port =
  port_read :: "('w \<times> bytes, io_error_kind, nat) prog"
  port_write :: "bytes \<Rightarrow> ('w, io_error_kind, nat) prog"
  port_flush :: "('w, io_error_kind, unit) prog"

definition serial_read :: "'w serial_port \<Rightarrow> ('w, serial_error nb, u8) prog" where
  "serial_read p w =
     (case map_errP translate_io_errors (port_read p) (w, [0]) of
        None \<Rightarrow> None
      | Some (Inl x, w', _) \<Rightarrow> Some (Inl x, w')
      | Some (Inr bytes_read, w', buffer) \<Rightarrow>
          Some (if bytes_read = 1 then Inr (hd buffer) else Inl WouldBlock, w'))"

definition serial_write :: "'w serial_port \<Rightarrow> u8 \<Rightarrow> ('w, serial_error nb, unit) prog" where
  "serial_write p word = bindP (map_errP translate_io_errors (port_write p [word])) (\<lambda>_. okP ())"

definition serial_flush :: "'w serial_port \<Rightarrow> ('w, serial_error nb, unit) prog" where
  "serial_flush p = map_errP translate_io_errors (port_flush p)"

section \<open>The timer\<close>

text \<open>\<open>TimerDurationU32\<close> and \<open>TimerInstantU32\<close> are counts of ticks, of \<open>TIMER_HZ\<close> a second. The
  operations take the time they are called at.\<close>

record sys_timer =
  timer_monotonic :: nat
  timer_start :: "nat option"
  timer_duration :: "32 word"

definition sys_timer_new :: "nat \<Rightarrow> sys_timer" where
  "sys_timer_new t = \<lparr>timer_monotonic = t, timer_start = None, timer_duration = 0\<rparr>"

definition sys_timer_now :: "nat \<Rightarrow> sys_timer \<Rightarrow> 32 word" where
  "sys_timer_now t s = of_nat ((t - timer_monotonic s) div 1000000)"

definition sys_timer_start :: "nat \<Rightarrow> 32 word \<Rightarrow> sys_timer \<Rightarrow> sys_timer" where
  "sys_timer_start t d s = s\<lparr>timer_start := Some t, timer_duration := d\<rparr>"

definition sys_timer_cancel :: "sys_timer \<Rightarrow> sys_timer" where
  "sys_timer_cancel s = (if timer_start s \<noteq> None then s\<lparr>timer_start := None\<rparr> else s)"

definition sys_timer_wait :: "nat \<Rightarrow> sys_timer \<Rightarrow> unit nb + unit" where
  "sys_timer_wait t s =
     (case timer_start s of
        Some start \<Rightarrow> if unat (timer_duration s) * 1000000 < t - start then Inr () else Inl WouldBlock
      | None \<Rightarrow> Inr ())"

section \<open>The file of an update\<close>

datatype ota_error = BadFileHandle | FileWriteFailed

text \<open>\<open>Cursor<Vec<u8>>\<close>: the position and the bytes. A write past the end fills the gap with zeros.\<close>

type_synonym cursor = "nat \<times> bytes"

definition cursor_write :: "bytes \<Rightarrow> cursor \<Rightarrow> cursor" where
  "cursor_write data = (\<lambda>(pos, buf).
     (pos + length data,
      take pos buf @ replicate (pos - length buf) 0 @ data @ drop (pos + length data) buf))"

text \<open>The state is \<open>filebuf\<close>.\<close>

definition create_file_for_rx :: "(cursor option, ota_error, unit) prog" where
  "create_file_for_rx = modifyP (\<lambda>_. Some (0, []))"

definition write_block :: "nat \<Rightarrow> bytes \<Rightarrow> (cursor option, ota_error, nat) prog" where
  "write_block block_offset block_payload filebuf =
     (case filebuf of
        Some (_, buf) \<Rightarrow> Some (Inr (length block_payload), Some (cursor_write block_payload (block_offset, buf)))
      | None \<Rightarrow> Some (Inl BadFileHandle, None))"

definition close_file :: "(cursor option, ota_error, unit) prog" where
  "close_file = bindP (getsP (\<lambda>filebuf. filebuf)) (\<lambda>filebuf.
     case filebuf of Some _ \<Rightarrow> okP () | None \<Rightarrow> errP BadFileHandle)"

definition ota_abort :: "(cursor option, ota_error, unit) prog" where
  "ota_abort = okP ()"

definition reset_device :: "(cursor option, ota_error, unit) prog" where
  "reset_device = okP ()"

text \<open>\<open>unimplemented!()\<close> panics.\<close>

definition get_platform_image_state :: "(cursor option, ota_error, 'i) prog" where
  "get_platform_image_state = (\<lambda>_. None)"

definition set_platform_image_state :: "'i \<Rightarrow> (cursor option, ota_error, unit) prog" where
  "set_platform_image_state _ = (\<lambda>_. None)"

section \<open>Writing at a position\<close>

lemma length_cursor_write: "length (snd (cursor_write data (pos, buf))) = max (length buf) (pos + length data)"
  by (auto simp: cursor_write_def)

lemma nth_cursor_write:
  assumes "i < max (length buf) (pos + length data)"
  shows "snd (cursor_write data (pos, buf)) ! i =
    (if pos \<le> i \<and> i < pos + length data then data ! (i - pos) else if i < length buf then buf ! i else 0)"
proof -
  define pre where "pre = take pos buf @ replicate (pos - length buf) 0"
  have "length pre = pos" by (simp add: pre_def)
  moreover have "pre ! i = (if i < length buf then buf ! i else 0)" if "i < pos"
    using that by (simp add: pre_def nth_append)
  moreover have "snd (cursor_write data (pos, buf)) = pre @ data @ drop (pos + length data) buf"
    by (simp add: cursor_write_def pre_def)
  ultimately show ?thesis using assms by (auto simp: nth_append)
qed

text \<open>A download: blocks in the order they arrive, each with its offset.\<close>

primrec write_blocks :: "(nat \<times> bytes) list \<Rightarrow> (cursor option, ota_error, unit) prog" where
  "write_blocks [] = okP ()"
| "write_blocks (b # bs) = bindP (write_block (fst b) (snd b)) (\<lambda>_. write_blocks bs)"

definition block_of :: "bytes \<Rightarrow> nat \<times> bytes \<Rightarrow> bool" where
  "block_of img b \<longleftrightarrow> fst b + length (snd b) \<le> length img
     \<and> snd b = take (length (snd b)) (drop (fst b) img)"

definition covers :: "nat \<times> bytes \<Rightarrow> nat \<Rightarrow> bool" where
  "covers b i \<longleftrightarrow> fst b \<le> i \<and> i < fst b + length (snd b)"

text \<open>What has arrived of the file is in place.\<close>

definition in_place :: "bytes \<Rightarrow> (nat \<times> bytes) set \<Rightarrow> bytes \<Rightarrow> bool" where
  "in_place img B buf \<longleftrightarrow> length buf \<le> length img
     \<and> (\<forall>b \<in> B. \<forall>i. covers b i \<longrightarrow> i < length buf \<and> buf ! i = img ! i)"

lemma in_place_write:
  assumes "in_place img B buf" "block_of img b"
  shows "in_place img (insert b B) (snd (cursor_write (snd b) (fst b, buf)))"
proof -
  have data: "snd b ! (i - fst b) = img ! i" if "covers b i" for i
  proof -
    have "i - fst b < length (snd b)" using that unfolding covers_def by linarith
    then have "snd b ! (i - fst b) = drop (fst b) img ! (i - fst b)"
      using assms(2) unfolding block_of_def by (metis nth_take)
    with that assms(2) show ?thesis by (simp add: covers_def block_of_def)
  qed
  have old: "i < length buf \<and> buf ! i = img ! i" if "b' \<in> B" "covers b' i" for b' i
    using assms(1) that by (auto simp: in_place_def)
  let ?new = "snd (cursor_write (snd b) (fst b, buf))"
  have "i < length ?new \<and> ?new ! i = img ! i" if "covers b' i" "b' = b \<or> b' \<in> B" for b' i
    using that data [of i] old [of b' i]
    by (auto simp: length_cursor_write nth_cursor_write covers_def less_max_iff_disj)
  moreover have "length ?new \<le> length img"
    using assms by (simp add: length_cursor_write in_place_def block_of_def)
  ultimately show ?thesis by (auto simp: in_place_def)
qed

lemma write_blocks_in_place:
  assumes "in_place img B buf" "list_all (block_of img) bs"
  shows "\<exists>pos' buf'. write_blocks bs (Some (pos, buf)) = Some (Inr (), Some (pos', buf'))
    \<and> in_place img (B \<union> set bs) buf'"
  using assms
proof (induction bs arbitrary: B buf pos)
  case Nil
  then show ?case by (simp add: okP_def)
next
  case (Cons b bs)
  obtain pos1 buf1 where 1: "cursor_write (snd b) (fst b, buf) = (pos1, buf1)" by fastforce
  with Cons.prems in_place_write [of img B buf b] have "in_place img (insert b B) buf1" by simp
  from Cons.IH [OF this, of pos1] Cons.prems 1 show ?case
    by (simp add: bindP_def write_block_def)
qed

section \<open>Properties\<close>

text \<open>C34: an update is assembled from its blocks in whatever order they arrive, and however often: when
  every block is a piece of the file at its offset and every byte is in one of them, the buffer is the
  file in the end, and closing it succeeds.\<close>

theorem ota_blocks_assemble:
  assumes "list_all (block_of img) bs" "\<And>i. i < length img \<Longrightarrow> \<exists>b \<in> set bs. covers b i"
  shows "\<exists>pos. thenP create_file_for_rx (thenP (write_blocks bs) close_file) filebuf = Some (Inr (), Some (pos, img))"
proof -
  have "in_place img {} []" by (simp add: in_place_def)
  from write_blocks_in_place [OF this assms(1), of 0] obtain pos buf where
    run: "write_blocks bs (Some (0, [])) = Some (Inr (), Some (pos, buf))" and
    buf: "in_place img (set bs) buf" by auto
  have at: "i < length buf \<and> buf ! i = img ! i" if "i < length img" for i
    using assms(2) [OF that] buf by (auto simp: in_place_def)
  have "length img \<le> length buf"
    using at [of "length img - 1"] by (cases img) auto
  with buf at have "buf = img" by (auto simp: in_place_def intro: nth_equalityI)
  with run show ?thesis
    by (simp add: thenP_def bindP_def create_file_for_rx_def modifyP_def close_file_def getsP_def okP_def)
qed

theorem ota_blocks_assemble_witness:
  "\<exists>pos. thenP create_file_for_rx (thenP (write_blocks [(2, [3, 4]), (0, [1, 2]), (2, [3])]) close_file) None
     = Some (Inr (), Some (pos, [1, 2, 3, 4]))"
proof (rule ota_blocks_assemble)
  show "\<exists>b \<in> set [(2, [3, 4]), (0, [1, 2]), (2, [3])]. covers b i" if "i < length [1, 2, 3, 4 :: u8]" for i
    using that by (auto simp: covers_def)
qed (simp add: block_of_def)

text \<open>A pin of the examples stands for the level of the line, whatever the polarity the kernel was told:
  driving it low or high makes the line so, keeps the polarity, and is what reading it then finds.\<close>

theorem ext_pin_follows_level:
  assumes "sysfs p inverted level"
  shows "\<exists>w'. (if high then ext_set_high p else ext_set_low p) w = Some (Inr (), w')
    \<and> level w' = high \<and> inverted w' = inverted w
    \<and> ext_is_high p w' = Some (Inr high, w') \<and> ext_is_low p w' = Some (Inr (\<not> high), w')"
proof -
  have polarity: "pin_active_low p v = Some (Inr (inverted v), v)" for v
    using assms by (simp add: sysfs_def)
  let ?v = "if high = inverted w then 0 else 1 :: u8"
  obtain w' where drive: "pin_set p ?v w = Some (Inr (), w')" "inverted w' = inverted w"
    "level w' \<longleftrightarrow> (?v \<noteq> 0) \<noteq> inverted w"
    using assms unfolding sysfs_def by blast
  obtain v where get: "pin_get p w' = Some (Inr v, w')" "v \<noteq> 0 \<longleftrightarrow> level w' \<noteq> inverted w'"
    using assms unfolding sysfs_def by blast
  have level: "level w' = high" using drive(3) by auto
  have set: "(if high then ext_set_high p else ext_set_low p) w = Some (Inr (), w')"
    using drive(1) by (auto simp: ext_set_high_def ext_set_low_def bindP_def polarity)
  have is_high: "ext_is_high p w' = Some (Inr high, w')"
    using get level drive(2) by (auto simp: ext_is_high_def bindP_def polarity okP_def)
  then have "ext_is_low p w' = Some (Inr (\<not> high), w')"
    by (simp add: ext_is_low_def bindP_def okP_def)
  with set level drive(2) is_high show ?thesis by blast
qed

text \<open>A pin as its polarity and its level.\<close>

definition memory_pin :: "(bool \<times> bool, unit) sysfs_pin" where
  "memory_pin =
     \<lparr>pin_active_low = getsP fst, pin_get = getsP (\<lambda>(i, l). if i = l then 0 else 1),
      pin_set = (\<lambda>v. modifyP (\<lambda>(i, _). (i, (v \<noteq> 0) \<noteq> i)))\<rparr>"

theorem ext_pin_follows_level_witness:
  "ext_set_low memory_pin (True, True) = Some (Inr (), (True, False))
    \<and> ext_is_low memory_pin (True, False) = Some (Inr True, (True, False))"
proof -
  have "sysfs memory_pin fst snd"
    by (auto simp: sysfs_def memory_pin_def getsP_def modifyP_def)
  from ext_pin_follows_level [OF this, of False "(True, True)"] show ?thesis by auto
qed

text \<open>The timer of the examples, started for \<open>d\<close> ticks, runs out after more than \<open>d\<close> milliseconds and not
  before, whatever \<open>TIMER_HZ\<close> is; so it lasts as long as it was asked to if a second has at least 1000
  ticks, and a tenth of it if a second has 100.\<close>

theorem sys_timer_counts_milliseconds:
  "sys_timer_wait t' (sys_timer_start t d s) = Inr () \<longleftrightarrow> unat d * 1000000 < t' - t"
  "sys_timer_wait t' (sys_timer_cancel (sys_timer_start t d s)) = Inr ()"
  by (simp_all add: sys_timer_wait_def sys_timer_start_def sys_timer_cancel_def)

end
