(* ===== verification/Iot_Examples.thy ===== *)
theory Iot_Examples
  imports Sustained_Service Example_Support
begin

text \<open>
  The other programs of \<open>examples/\<close>: the thread that reads the serial port, \<open>linux_jobs/src/main.rs\<close> and
  \<open>linux_mqtt/src/main.rs\<close>. They join the module to MQTT, job and update agents through the interface the
  driver had when they were written, so the driver is a parameter here as the libraries are, and the
  operations of both are programs on an arbitrary state. \<open>URC_READY\<close> is what the main thread shares with
  the reading thread: any call may find it changed. \<open>concurrent\<close> says of a call that the reading thread goes on
  beside it, step by step, with the matcher as it is written.
\<close>

section \<open>The reading thread\<close>

text \<open>The thread owns a port, over a world, and the ingress of \<open>atat\<close>.\<close>

record 'i ingress_api =
  ing_write :: "bytes \<Rightarrow> 'i \<Rightarrow> 'i"
  ing_digest :: "'i \<Rightarrow> 'i"

text \<open>\<open>serial_rx.read(&mut buffer[..])\<close> on a buffer of \<open>n\<close> zeros, and the part of it that was read: a
  slice past the end of the buffer panics.\<close>

definition read_slice :: "'w serial_port \<Rightarrow> nat \<Rightarrow> ('w, io_error_kind, bytes) prog" where
  "read_slice p n w =
     (case port_read p (w, replicate n 0) of
        None \<Rightarrow> None
      | Some (Inl x, w', _) \<Rightarrow> Some (Inl x, w')
      | Some (Inr bytes_read, w', buffer) \<Rightarrow>
          if bytes_read \<le> length buffer then Some (Inr (take bytes_read buffer), w') else None)"

abbreviation on_port :: "('w, 'e, 'a) prog \<Rightarrow> ('w \<times> 'i, 'e, 'a) prog" where
  "on_port \<equiv> zoom fst (\<lambda>w (_, i). (w, i))"

abbreviation ingest :: "('i \<Rightarrow> 'i) \<Rightarrow> ('w \<times> 'i, 'e, unit) prog" where
  "ingest f \<equiv> modifyP (\<lambda>(w, i). (w, f i))"

text \<open>One turn of the thread of \<open>linux_jobs\<close> and \<open>linux_mqtt\<close>. Errors are ignored or logged.\<close>

definition reader_turn :: "'w serial_port \<Rightarrow> 'i ingress_api \<Rightarrow> ('w \<times> 'i, io_error_kind, unit) prog" where
  "reader_turn p a =
     bindP (attempt (on_port (read_slice p 32))) (\<lambda>res.
       case res of
         Inr chunk \<Rightarrow>
           if chunk = [] then okP ()
           else thenP (ingest (ing_write a chunk))
               (thenP (ingest (ing_digest a))
                      (ingest (ing_digest a)))
       | Inl _ \<Rightarrow> okP ())"

text \<open>One turn of the thread of \<open>sockets\<close>.\<close>

definition sockets_reader_turn :: "'w serial_port \<Rightarrow> 'i ingress_api \<Rightarrow> ('w \<times> 'i, io_error_kind, unit) prog" where
  "sockets_reader_turn p a =
     thenP (ingest (ing_digest a))
    (bindP (attempt (on_port (read_slice p 32))) (\<lambda>res.
       case res of
         Inr chunk \<Rightarrow>
           if chunk = [] then okP ()
           else thenP (ingest (ing_write a chunk))
                      (ingest (ing_digest a))
       | Inl _ \<Rightarrow> okP ()))"

section \<open>The URC matcher\<close>

datatype urc_matcher_result = Complete bytes | Incomplete

text \<open>\<open>atat::get_line\<close>: the line it finds, if it does, and the buffer it leaves.\<close>

type_synonym get_line = "bytes \<Rightarrow> bytes \<Rightarrow> u8 \<Rightarrow> u8 \<Rightarrow> bool \<Rightarrow> bool \<Rightarrow> bytes option \<times> bytes"

text \<open>\<open>NvicUrcMatcher::process\<close>, on \<open>URC_READY\<close> and the buffer.\<close>

definition matcher_process :: "get_line \<Rightarrow> (bool \<times> bytes, 'e, urc_matcher_result) prog" where
  "matcher_process get_line = (\<lambda>(urc_ready, buf).
     case get_line buf [13] 13 10 False False of
       (Some line, buf') \<Rightarrow> Some (Inr (Complete line), True, buf')
     | (None, buf') \<Rightarrow> Some (Inr Incomplete, urc_ready, buf'))"

section \<open>The main threads\<close>

text \<open>What the main thread works on: \<open>URC_READY\<close> and all the rest.\<close>

record 's app =
  app_ready :: bool
  app_rest :: 's

text \<open>The driver as the examples know it: what both use of it, and what either uses.\<close>

record ('s, 'x) gsm_client =
  gsm_init :: "bool \<Rightarrow> ('s app, 'x, unit) prog"
  gsm_spin :: "('s app, 'x, unit) prog"

record ('s, 'x) jobs_gsm = "('s, 'x) gsm_client" +
  gsm_import_root_ca :: "nat \<Rightarrow> string \<Rightarrow> bytes \<Rightarrow> ('s app, 'x, unit) prog"
  gsm_import_certificate :: "nat \<Rightarrow> string \<Rightarrow> bytes \<Rightarrow> ('s app, 'x, unit) prog"
  gsm_import_private_key :: "nat \<Rightarrow> string \<Rightarrow> bytes \<Rightarrow> string option \<Rightarrow> ('s app, 'x, unit) prog"
  gsm_begin_apn :: "string \<Rightarrow> ('s app, 'x, unit) prog"
  gsm_attach_apn :: "apn_info \<Rightarrow> ('s app, 'x, unit) prog"

record ('s, 'x) mqtt_gsm = "('s, 'x) gsm_client" +
  gsm_begin :: "('s app, 'x, unit) prog"
  gsm_attach_gprs :: "('s app, 'x, unit) prog"

text \<open>\<open>attach_gprs\<close> of \<open>linux_jobs\<close>, with the contents of the three files the build includes.\<close>

definition jobs_attach_gprs ::
    "('s, 'x) jobs_gsm \<Rightarrow> bytes \<Rightarrow> bytes \<Rightarrow> bytes \<Rightarrow> ('s app, 'x, unit) prog" where
  "jobs_attach_gprs G verisign cert key =
     thenP (gsm_init G True)
    (thenP (gsm_import_root_ca G 0 ''Verisign'' verisign)
    (thenP (gsm_import_certificate G 0 ''cert'' cert)
    (thenP (gsm_import_private_key G 0 ''key'' key None)
    (thenP (expect (gsm_begin_apn G ''''))
           (expect (gsm_attach_apn G (apn_info_new ''em'')))))))"

record publish =
  pb_topic_name :: string
  pb_payload :: bytes

datatype notification = Publish publish | Other_Notification

datatype 'o job_details = OtaJob 'o | Other_Details

datatype job_status = Succeeded

text \<open>The MQTT event loop, the job and the update agent, and \<open>thread::sleep\<close>.\<close>

record ('s, 'o, 'x) agents =
  ag_connect :: "('s app, 'x nb, unit) prog"
  ag_yield_event :: "('s app, 'x nb, notification) prog"
  ag_is_job_message :: "string \<Rightarrow> bool"
  ag_is_ota_message :: "string \<Rightarrow> bool"
  ag_subscribe_to_jobs :: "('s app, 'x, unit) prog"
  ag_describe_job_execution :: "string \<Rightarrow> nat option \<Rightarrow> bool option \<Rightarrow> ('s app, 'x, unit) prog"
  ag_update_job_execution :: "job_status \<Rightarrow> ('s app, 'x, unit) prog"
  ag_handle_job :: "publish \<Rightarrow> ('s app, 'x, 'o job_details option) prog"
  ag_process_ota_job :: "'o \<Rightarrow> ('s app, 'x, unit) prog"
  ag_handle_ota :: "publish \<Rightarrow> ('s app, 'x, nat) prog"
  ag_request_timer_irq :: "('s app, 'x, unit) prog"
  ag_sleep :: "duration \<Rightarrow> 's app \<Rightarrow> 's app"

text \<open>\<open>if unsafe { URC_READY } { gsm.spin().unwrap(); unsafe { URC_READY = false } }\<close>.\<close>

definition jobs_serve_urc :: "('s, 'x) jobs_gsm \<Rightarrow> ('s app, 'x, unit) prog" where
  "jobs_serve_urc G =
     bindP (getsP app_ready) (\<lambda>ready.
       whenP ready
         (thenP (expect (gsm_spin G))
                (modifyP (\<lambda>a. a\<lparr>app_ready := False\<rparr>))))"

text \<open>The loop around \<open>mqtt_eventloop.connect\<close>: any error but \<open>WouldBlock\<close> panics.\<close>

partial_function (option) jobs_connect ::
    "('s, 'x) jobs_gsm \<Rightarrow> ('s, 'o, 'x) agents \<Rightarrow> 's app \<Rightarrow> (('x + unit) \<times> 's app) option" where
  [code]: "jobs_connect G A a =
     bindP (attempt (ag_connect A)) (\<lambda>res.
       if res = Inr () then okP ()
       else if res = Inl WouldBlock then
         thenP (jobs_serve_urc G) (thenP (modifyP (ag_sleep A (from_millis 100))) (jobs_connect G A))
       else (\<lambda>_. None)) a"

text \<open>A message, to the agent its topic belongs to.\<close>

definition jobs_dispatch :: "('s, 'o, 'x) agents \<Rightarrow> publish \<Rightarrow> ('s app, 'x, unit) prog" where
  "jobs_dispatch A publish =
     (if ag_is_job_message A (pb_topic_name publish) then
        bindP (attempt (ag_handle_job A publish)) (\<lambda>res.
          case res of
            Inr None \<Rightarrow> okP ()
          | Inr (Some (OtaJob otajob)) \<Rightarrow> expect (ag_process_ota_job A otajob)
          | Inr (Some Other_Details) \<Rightarrow> okP ()
          | Inl _ \<Rightarrow> okP ())
      else if ag_is_ota_message A (pb_topic_name publish) then
        bindP (attempt (ag_handle_ota A publish)) (\<lambda>res.
          case res of
            Inr progress \<Rightarrow> whenP (progress = 100) (expect (ag_update_job_execution A Succeeded))
          | Inl _ \<Rightarrow> okP ())
      else okP ())"

definition jobs_turn :: "('s, 'x) jobs_gsm \<Rightarrow> ('s, 'o, 'x) agents \<Rightarrow> ('s app, 'x, unit) prog" where
  "jobs_turn G A =
     thenP (jobs_serve_urc G)
    (thenP (bindP (attempt (ag_request_timer_irq A)) (\<lambda>_. okP ()))
    (thenP (bindP (attempt (ag_yield_event A)) (\<lambda>res.
              case res of
                Inr (Publish publish) \<Rightarrow> jobs_dispatch A publish
              | _ \<Rightarrow> okP ()))
           (modifyP (ag_sleep A (from_millis 100)))))"

text \<open>\<open>loop\<close>: it ends with a panic or not at all.\<close>

partial_function (option) forever :: "('s, 'x, unit) prog \<Rightarrow> 's \<Rightarrow> (('x + unit) \<times> 's) option" where
  [code]: "forever m s = thenP m (forever m) s"

definition jobs_main ::
    "('s, 'x) jobs_gsm \<Rightarrow> ('s, 'o, 'x) agents \<Rightarrow> bytes \<Rightarrow> bytes \<Rightarrow> bytes \<Rightarrow> ('s app, 'x, unit) prog" where
  "jobs_main G A verisign cert key =
     bindP (attempt (jobs_attach_gprs G verisign cert key)) (\<lambda>res.
       whenP (\<not> is_err res)
         (thenP (jobs_connect G A)
         (thenP (expect (ag_subscribe_to_jobs A))
         (thenP (expect (ag_describe_job_execution A ''$next'' None None))
                (forever (jobs_turn G A))))))"

section \<open>The MQTT example\<close>

datatype qos = AtLeastOnce

datatype mqtt_request =
    SubscribeRequest "(string \<times> qos) list"
  | PublishRequest string bytes

definition mqtt_attach_gprs :: "('s, 'x) mqtt_gsm \<Rightarrow> ('s app, 'x, unit) prog" where
  "mqtt_attach_gprs G =
     thenP (gsm_init G True)
    (thenP (expect (gsm_begin G))
           (expect (gsm_attach_gprs G)))"

definition subscription :: mqtt_request where
  "subscription =
     SubscribeRequest [(''mqttrust/tester/subscriber'', AtLeastOnce), (''mqttrust/tester/subscriber2'', AtLeastOnce)]"

abbreviation dquote :: string where
  "dquote \<equiv> [CHR 0x22]"

definition hello :: "nat \<Rightarrow> bytes" where
  "hello cnt = map of_char (''{'' @ dquote @ ''key'' @ dquote @ '': '' @ dquote
     @ ''Hello World from Factbird Mini - '' @ decimal cnt @ ''!'' @ dquote @ ''}'')"

text \<open>One turn of the publishing thread, on its counter, an \<open>i32\<close>, and the queue of requests; a full queue and
  a counter that overflows panic.\<close>

definition publisher_turn ::
    "(mqtt_request \<Rightarrow> ('q, mqtt_request, unit) prog) \<Rightarrow> ('q \<Rightarrow> 'q) \<Rightarrow> (nat \<times> 'q, 'x, unit) prog" where
  "publisher_turn enqueue sleep =
     bindP (getsP fst) (\<lambda>cnt.
     thenP (expect (zoom snd (\<lambda>q (n, _). (n, q))
         (enqueue (PublishRequest ''fbmini/input/test_mini_1'' (hello cnt)))))
    (thenP (\<lambda>(n, q). if n + 1 < 2 ^ 31 then Some (Inr (), n + 1, q) else None)
           (modifyP (\<lambda>(n, q). (n, sleep q)))))"

text \<open>Here \<open>URC_READY\<close> is not taken back after the spin, and a payload that is no text panics.\<close>

definition mqtt_turn ::
    "('s, 'x) mqtt_gsm \<Rightarrow> ('s, 'o, 'x) agents \<Rightarrow> (bytes \<Rightarrow> string option) \<Rightarrow> ('s app, 'x, unit) prog" where
  "mqtt_turn G A from_utf8 =
     bindP (getsP app_ready) (\<lambda>ready.
     thenP (whenP ready (expect (gsm_spin G)))
    (thenP (bindP (attempt (block_until (ag_yield_event A) :: ('s app, 'x, notification) prog)) (\<lambda>res.
              case res of
                Inr (Publish publish) \<Rightarrow>
                  (case from_utf8 (pb_payload publish) of Some _ \<Rightarrow> okP () | None \<Rightarrow> (\<lambda>_. None))
              | _ \<Rightarrow> okP ()))
           (modifyP (ag_sleep A (from_millis 500)))))"

definition mqtt_main ::
    "('s, 'x) mqtt_gsm \<Rightarrow> ('s, 'o, 'x) agents \<Rightarrow> (mqtt_request \<Rightarrow> ('s app, mqtt_request, unit) prog)
     \<Rightarrow> ('s app, 'x, unit) prog \<Rightarrow> (bytes \<Rightarrow> string option) \<Rightarrow> ('s app, 'x, unit) prog" where
  "mqtt_main G A enqueue spawn from_utf8 =
     bindP (attempt (mqtt_attach_gprs G)) (\<lambda>res.
       whenP (\<not> is_err res)
         (thenP (expect (block_until (ag_connect A) :: ('s app, 'x, unit) prog))
         (thenP (expect (enqueue subscription))
         (thenP spawn
                (forever (mqtt_turn G A from_utf8))))))"

section \<open>The flag and the two threads\<close>

text \<open>What the two threads share, besides \<open>URC_READY\<close>: the bytes that were received, the line the matcher has found and
  \<open>atat\<close> has not queued yet, and the queue of the URCs.\<close>

record 'm received =
  rx_buf :: bytes
  rx_matched :: "bytes option"
  urc_queue :: "bytes list"
  rx_rest :: 'm

abbreviation on_received :: "('m received \<Rightarrow> 'm received) \<Rightarrow> 'm received app \<Rightarrow> 'm received app" where
  "on_received f a \<equiv> a\<lparr>app_rest := f (app_rest a)\<rparr>"

text \<open>The reading thread: bytes arrive, the matcher processes them, and a line it found is queued.\<close>

inductive reading_step :: "get_line \<Rightarrow> 'm received app \<Rightarrow> 'm received app \<Rightarrow> bool" for gl where
  arrived: "reading_step gl a (on_received (\<lambda>x. x\<lparr>rx_buf := rx_buf x @ bs\<rparr>) a)"
| processed: "rx_matched (app_rest a) = None \<Longrightarrow>
    matcher_process gl (app_ready a, rx_buf (app_rest a)) = Some (Inr res :: unit + urc_matcher_result, flag, buf) \<Longrightarrow>
    reading_step gl a (on_received (\<lambda>x. x\<lparr>rx_buf := buf,
      rx_matched := (case res of Complete line \<Rightarrow> Some line | Incomplete \<Rightarrow> None)\<rparr>) (a\<lparr>app_ready := flag\<rparr>))"
| queued: "rx_matched (app_rest a) = Some line \<Longrightarrow>
    reading_step gl a (on_received (\<lambda>x. x\<lparr>rx_matched := None, urc_queue := urc_queue x @ [line]\<rparr>) a)"

text \<open>A call of a library leaves the flag alone and may take from the queue.\<close>

definition call_access :: "'m received app \<Rightarrow> 'm received app \<Rightarrow> bool" where
  "call_access a a' \<longleftrightarrow> app_ready a' = app_ready a \<and> rx_matched (app_rest a') = rx_matched (app_rest a)
     \<and> set (urc_queue (app_rest a')) \<subseteq> set (urc_queue (app_rest a))"

definition concurrent :: "get_line \<Rightarrow> ('m received app, 'e, 'a) prog \<Rightarrow> bool" where
  "concurrent gl m \<longleftrightarrow> keeps (rtranclp (\<lambda>a a'. reading_step gl a a' \<or> call_access a a')) m"

text \<open>A spin that takes everything that is queued when it starts.\<close>

definition takes_all :: "get_line \<Rightarrow> ('m received app, 'e, unit) prog \<Rightarrow> bool" where
  "takes_all gl m \<longleftrightarrow> keeps (\<lambda>a a'. rtranclp (reading_step gl) (on_received (\<lambda>x. x\<lparr>urc_queue := []\<rparr>) a) a') m"

text \<open>While a URC has been found, queued or not, the flag is up.\<close>

definition covered :: "'m received app \<Rightarrow> bool" where
  "covered a \<longleftrightarrow> (urc_queue (app_rest a) \<noteq> [] \<or> rx_matched (app_rest a) \<noteq> None \<longrightarrow> app_ready a)"

definition covers :: "'m received app \<Rightarrow> 'm received app \<Rightarrow> bool" where
  "covers a a' \<longleftrightarrow> (app_ready a \<longrightarrow> app_ready a') \<and> (covered a \<longrightarrow> covered a')"

interpretation covers: step_relation covers
  by unfold_locales (auto simp: covers_def)

lemma reading_covers: "reading_step gl a a' \<Longrightarrow> covers a a'"
  by (induction rule: reading_step.induct)
    (auto simp: covers_def covered_def matcher_process_def split: prod.splits option.splits)

lemma access_covers:
  assumes "call_access a a'"
  shows "covers a a'"
proof -
  have "urc_queue (app_rest a) = [] \<Longrightarrow> urc_queue (app_rest a') = []"
    using assms by (simp add: call_access_def)
  with assms show ?thesis unfolding covers_def covered_def call_access_def by simp
qed

lemma concurrent_covers:
  assumes "concurrent gl m"
  shows "keeps covers m"
  using assms [unfolded concurrent_def]
proof (rule keeps_mono)
  show "covers a a'" if "rtranclp (\<lambda>a a'. reading_step gl a a' \<or> call_access a a') a a'" for a a'
    using that
  proof induction
    case (step b c)
    then have "covers b c" using reading_covers access_covers by blast
    with step show ?case using covers.R_trans by blast
  qed (rule covers.R_refl)
qed

lemma keeps_block_until:
  assumes "keeps covers m"
  shows "keeps covers (block_until m)"
proof (rule keepsI)
  fix s r t assume "block_until m s = Some (r, t)"
  then have "keeps covers m \<longrightarrow> covers s (snd (r, t))"
  proof (rule block_until.raw_induct [where P = "\<lambda>m s y. keeps covers m \<longrightarrow> covers s (snd y)", rotated])
    fix f and m :: "('a received app, 'b nb, 'c) prog" and s and y :: "('b + 'c) \<times> 'a received app"
    assume IH: "\<And>m s y. f m s = Some y \<Longrightarrow> keeps covers m \<longrightarrow> covers s (snd y)"
      and step: "(case m s of None \<Rightarrow> None | Some (Inl x, t) \<Rightarrow>
          (case x of WouldBlock \<Rightarrow> f m t | Other y \<Rightarrow> Some (Inl y, t))
        | Some (Inr a, t) \<Rightarrow> Some (Inr a, t)) = Some y"
    show "keeps covers m \<longrightarrow> covers s (snd y)"
    proof
      assume m: "keeps covers m"
      obtain r t where "m s = Some (r, t)" using step by (cases "m s") auto
      with m have "covers s t" and "m s = Some (r, t)" by (simp_all add: keeps_def)
      with step IH [of m t y] m show "covers s (snd y)"
        by (auto split: sum.splits nb.splits intro: covers.R_trans)
    qed
  qed
  with assms show "covers s t" by simp
qed

lemma keeps_expect: "keeps R m \<Longrightarrow> keeps R (expect m)"
  by (auto simp: keeps_def expect_def split: option.splits sum.splits)

lemma keeps_repeatP: "keeps covers m \<Longrightarrow> keeps covers (repeatP n m)"
  by (induction n) (simp_all add: covers.rules)

lemma mqtt_turn_covers:
  assumes "concurrent gl (gsm_spin G)" "concurrent gl (ag_yield_event A)"
    "concurrent gl (modifyP (ag_sleep A (from_millis 500)) :: ('m received app, 'x, unit) prog)"
  shows "keeps covers (mqtt_turn G A from_utf8 :: ('m received app, 'x, unit) prog)"
  unfolding mqtt_turn_def
  by (intro covers.getsP covers.bindP covers.thenP covers.whenP covers.attempt keeps_expect keeps_block_until
      concurrent_covers [OF assms(1)] concurrent_covers [OF assms(2)] concurrent_covers [OF assms(3)])
    (auto simp: keeps_def covers.R_refl okP_def split: sum.split notification.split option.split)

lemma takes_all_concurrent: "takes_all gl m \<Longrightarrow> concurrent gl m"
  unfolding takes_all_def concurrent_def
proof (erule keeps_mono)
  let ?step = "\<lambda>a a'. reading_step gl a a' \<or> call_access a a'"
  fix a a' assume "rtranclp (reading_step gl) (on_received (\<lambda>x. x\<lparr>urc_queue := []\<rparr>) a) a'"
  then have "rtranclp ?step (on_received (\<lambda>x. x\<lparr>urc_queue := []\<rparr>) a) a'"
    by (rule rtranclp_mono [THEN predicate2D, rotated]) blast
  moreover have "?step a (on_received (\<lambda>x. x\<lparr>urc_queue := []\<rparr>) a)" by (simp add: call_access_def)
  ultimately show "rtranclp ?step a a'" by (rule converse_rtranclp_into_rtranclp [rotated])
qed

text \<open>A spin that takes all there is and during which the matcher finds the line that has arrived.\<close>

definition late_spin :: "get_line \<Rightarrow> ('m received app, 'x, unit) prog" where
  "late_spin gl a =
     Some (Inr (), let a = on_received (\<lambda>x. x\<lparr>urc_queue := []\<rparr>) a in
       case gl (rx_buf (app_rest a)) [13] 13 10 False False of
         (Some line, buf) \<Rightarrow>
           if rx_matched (app_rest a) = None
           then on_received (\<lambda>x. x\<lparr>rx_buf := buf, urc_queue := [line]\<rparr>) (a\<lparr>app_ready := True\<rparr>) else a
       | (None, _) \<Rightarrow> a)"

lemma late_spin_reads:
  assumes "gl (rx_buf x) [13] 13 10 False False = (Some line, buf)" "rx_matched x = None"
  shows "rtranclp (reading_step gl) \<lparr>app_ready = flag, app_rest = x\<lparr>urc_queue := []\<rparr>\<rparr>
    \<lparr>app_ready = True, app_rest = x\<lparr>rx_buf := buf, urc_queue := [line]\<rparr>\<rparr>"
proof -
  let ?a = "\<lparr>app_ready = flag, app_rest = x\<lparr>urc_queue := []\<rparr>\<rparr>"
  let ?b = "\<lparr>app_ready = True, app_rest = x\<lparr>rx_buf := buf, rx_matched := Some line, urc_queue := []\<rparr>\<rparr>"
  let ?c = "\<lparr>app_ready = True, app_rest = x\<lparr>rx_buf := buf, urc_queue := [line]\<rparr>\<rparr>"
  have "reading_step gl ?a ?b"
    using reading_step.processed [of ?a gl "Complete line" True buf] assms by (cases x) (simp add: matcher_process_def)
  moreover have "reading_step gl ?b ?c"
    using reading_step.queued [of ?b line gl] assms(2) by (cases x) simp
  ultimately show ?thesis by (rule converse_rtranclp_into_rtranclp [OF _ r_into_rtranclp])
qed

lemma late_spin_takes_all: "takes_all gl (late_spin gl :: ('m received app, 'x, unit) prog)"
  unfolding takes_all_def
proof (rule keepsI)
  fix a t :: "'m received app" and r :: "'x + unit" assume run: "late_spin gl a = Some (r, t)"
  obtain flag x where a: "a = \<lparr>app_ready = flag, app_rest = x\<rparr>" by (cases a)
  obtain found buf where gl: "gl (rx_buf x) [13] 13 10 False False = (found, buf)"
    by (cases "gl (rx_buf x) [13] 13 10 False False")
  show "rtranclp (reading_step gl) (on_received (\<lambda>x. x\<lparr>urc_queue := []\<rparr>) a) t"
  proof (cases "found = None \<or> rx_matched x \<noteq> None")
    case True
    with run a gl have "t = on_received (\<lambda>x. x\<lparr>urc_queue := []\<rparr>) a"
      by (cases found) (auto simp: late_spin_def Let_def)
    then show ?thesis by simp
  next
    case False
    then obtain line where "found = Some line" "rx_matched x = None" by auto
    with run a gl late_spin_reads [of gl x line buf flag] show ?thesis by (simp add: late_spin_def Let_def)
  qed
qed

section \<open>What the reading thread forwards\<close>

text \<open>\<open>Read::read\<close> as documented: it never blocks for good, keeps the length of the buffer, and what it says it
  read is at the front; \<open>got\<close> is what the port has handed out so far.\<close>

definition hands_out :: "'w serial_port \<Rightarrow> ('w \<Rightarrow> bytes) \<Rightarrow> bool" where
  "hands_out p got \<longleftrightarrow> (\<forall>w buf. \<exists>r w' buf'. port_read p (w, buf) = Some (r, w', buf') \<and> length buf' = length buf
     \<and> (case r of Inl _ \<Rightarrow> got w' = got w | Inr n \<Rightarrow> n \<le> length buf \<and> got w' = got w @ take n buf'))"

definition forwarded :: "'i ingress_api \<Rightarrow> bytes \<Rightarrow> 'i \<Rightarrow> 'i" where
  "forwarded a b i = (if b = [] then i else ing_digest a (ing_digest a (ing_write a b i)))"

definition sockets_forwarded :: "'i ingress_api \<Rightarrow> bytes \<Rightarrow> 'i \<Rightarrow> 'i" where
  "sockets_forwarded a b i =
     (let i = ing_digest a i in if b = [] then i else ing_digest a (ing_write a b i))"

lemma read_slice_run:
  assumes "hands_out p got"
  shows "\<exists>b w'. length b \<le> n \<and> got w' = got w @ b
    \<and> (read_slice p n w = Some (Inr b, w') \<or> b = [] \<and> (\<exists>x. read_slice p n w = Some (Inl x, w')))"
proof -
  obtain r w' buf' where read: "port_read p (w, replicate n 0) = Some (r, w', buf')" "length buf' = n"
    "case r of Inl _ \<Rightarrow> got w' = got w | Inr m \<Rightarrow> m \<le> length (replicate n 0 :: bytes) \<and> got w' = got w @ take m buf'"
    using assms [unfolded hands_out_def, rule_format, of w "replicate n 0"] unfolding length_replicate by (elim exE conjE)
  show ?thesis
  proof (cases r)
    case (Inl x)
    with read show ?thesis by (intro exI [of _ "[]"] exI [of _ w']) (simp add: read_slice_def)
  next
    case (Inr m)
    with read show ?thesis by (intro exI [of _ "take m buf'"] exI [of _ w']) (simp add: read_slice_def)
  qed
qed

lemma turns_run:
  assumes "hands_out p got"
  shows "\<exists>b w'. length b \<le> 32 \<and> got w' = got w @ b
    \<and> reader_turn p a (w, i) = Some (Inr (), w', forwarded a b i)
    \<and> sockets_reader_turn p a (w, j) = Some (Inr (), w', sockets_forwarded a b j)"
proof -
  obtain b w' where "length b \<le> 32" "got w' = got w @ b"
    "read_slice p 32 w = Some (Inr b, w') \<or> b = [] \<and> (\<exists>x. read_slice p 32 w = Some (Inl x, w'))"
    using read_slice_run [OF assms, of 32 w] by (elim exE conjE)
  then show ?thesis
    by (intro exI [of _ b] exI [of _ w'])
      (auto simp: reader_turn_def sockets_reader_turn_def prog_defs forwarded_def sockets_forwarded_def Let_def)
qed

section \<open>Programs that do not end\<close>

text \<open>No error leaves the run.\<close>

definition errorless :: "('s, 'x, 'a) prog \<Rightarrow> bool" where
  "errorless m \<longleftrightarrow> (\<forall>s x t. m s \<noteq> Some (Inl x, t))"

lemma errorless_rules:
  "errorless (okP a)" "errorless (getsP f)" "errorless (modifyP g)" "errorless (attempt m)" "errorless (expect m)"
  "errorless (\<lambda>_. None)"
  by (auto simp: errorless_def prog_defs expect_def split: option.splits sum.splits)

lemma errorless_bindP: "errorless m \<Longrightarrow> (\<And>a. errorless (f a)) \<Longrightarrow> errorless (bindP m f)"
  by (auto simp: errorless_def bindP_def split: option.splits sum.splits)

lemma errorless_thenP: "errorless m \<Longrightarrow> errorless k \<Longrightarrow> errorless (thenP m k)"
  by (simp add: thenP_def errorless_bindP)

lemma errorless_whenP: "errorless m \<Longrightarrow> errorless (whenP b m)"
  by (simp add: whenP_def errorless_rules)

lemmas errorless_intros = errorless_rules errorless_bindP errorless_thenP errorless_whenP

lemma forever_None:
  assumes "errorless m"
  shows "forever m s = None"
proof (rule ccontr)
  assume "forever m s \<noteq> None"
  then obtain y where "forever m s = Some y" by blast
  then have "errorless m \<longrightarrow> False"
    by (rule forever.raw_induct [where P = "\<lambda>m _ _. errorless m \<longrightarrow> False", rotated])
      (fastforce simp: errorless_def thenP_def bindP_def split: option.splits sum.splits)+
  with assms show False by simp
qed

lemma errorless_serve: "errorless (jobs_serve_urc G)"
  unfolding jobs_serve_urc_def by (intro errorless_intros)

lemma errorless_turn: "errorless (jobs_turn G A)"
  unfolding jobs_turn_def jobs_dispatch_def
  by (intro errorless_intros errorless_serve)
    (auto intro!: errorless_intros split: sum.split notification.split option.split job_details.split)

lemma errorless_mqtt_turn: "errorless (mqtt_turn G A f)"
  unfolding mqtt_turn_def
  by (intro errorless_intros) (auto intro!: errorless_intros split: sum.split notification.split option.split)

lemma errorless_connect: "errorless (jobs_connect G A)"
proof -
  have "\<not> is_err (fst y)" if "jobs_connect G A a = Some y" for a y
    using that
    by (rule jobs_connect.raw_induct [where P = "\<lambda>G A a y. \<not> is_err (fst y)", rotated])
      (use errorless_serve in \<open>fastforce simp: errorless_def thenP_def bindP_def attempt_def okP_def modifyP_def
         split: option.splits sum.splits if_splits\<close>)
  then show ?thesis by (fastforce simp: errorless_def)
qed

lemma thenP_None:
  assumes "errorless m" "\<And>t. k t = None"
  shows "thenP m k s = None"
  using assms by (auto simp: errorless_def thenP_def bindP_def split: option.splits sum.splits)


section \<open>Properties\<close>

text \<open>C32: the reading thread loses nothing: over any number of turns, and whatever errors the port
  reports in between, the bytes the port has handed out reach the ingress of the driver once and in order, in slices
  of at most 32 bytes, each digested after it was written; the thread never panics. This holds of the thread of
  the sockets example too.\<close>

theorem reader_forwards_every_byte:
  assumes "hands_out p got"
  shows "\<exists>bs w'. length bs = n \<and> got w' = got w @ concat bs \<and> list_all (\<lambda>b. length b \<le> 32) bs
    \<and> repeatP n (reader_turn p a) (w, i) = Some (Inr (), w', fold (forwarded a) bs i)
    \<and> repeatP n (sockets_reader_turn p a) (w, j) = Some (Inr (), w', fold (sockets_forwarded a) bs j)"
proof (induction n arbitrary: w i j)
  case 0
  then show ?case by (simp add: okP_def)
next
  case (Suc n)
  obtain b w1 where one: "length b \<le> 32" "got w1 = got w @ b"
    "reader_turn p a (w, i) = Some (Inr (), w1, forwarded a b i)"
    "sockets_reader_turn p a (w, j) = Some (Inr (), w1, sockets_forwarded a b j)"
    using turns_run [OF assms, where a = a and w = w and i = i and j = j] by (elim exE conjE)
  obtain bs w2 where "length bs = n" "got w2 = got w1 @ concat bs" "list_all (\<lambda>b. length b \<le> 32) bs"
    "repeatP n (reader_turn p a) (w1, forwarded a b i) = Some (Inr (), w2, fold (forwarded a) bs (forwarded a b i))"
    "repeatP n (sockets_reader_turn p a) (w1, sockets_forwarded a b j)
       = Some (Inr (), w2, fold (sockets_forwarded a) bs (sockets_forwarded a b j))"
    using Suc [of w1 "forwarded a b i" "sockets_forwarded a b j"] by (elim exE conjE)
  with one show ?case
    by (intro exI [of _ "b # bs"] exI [of _ w2]) (simp add: thenP_def bindP_def)
qed

text \<open>A port that has all its bytes already, and hands them out as the buffer has room.\<close>

definition memory_port :: "(bytes \<times> bytes) serial_port" where
  "memory_port =
     \<lparr>port_read = (\<lambda>((got, rest), buf). let m = min (length buf) (length rest) in
        Some (Inr m, (got @ take m rest, drop m rest), take m rest @ drop m buf)),
      port_write = (\<lambda>b w. Some (Inr (length b), w)), port_flush = okP ()\<rparr>"

lemma hands_out_memory: "hands_out memory_port fst"
  by (auto simp: hands_out_def memory_port_def Let_def)

theorem reader_forwards_every_byte_witness:
  "\<exists>bs. concat bs = replicate 40 (7 :: u8) \<and> length bs = 3
    \<and> repeatP 3 (reader_turn memory_port \<lparr>ing_write = (\<lambda>b l. l @ b), ing_digest = id\<rparr>) (([], replicate 40 7), [])
       = Some (Inr (), (replicate 40 7, []), replicate 40 7)"
proof -
  let ?a = "\<lparr>ing_write = (\<lambda>b l. l @ b), ing_digest = id\<rparr> :: bytes ingress_api"
  have written: "fold (forwarded ?a) bs l = l @ concat bs" for bs :: "bytes list" and l
    by (induction bs arbitrary: l) (simp_all add: forwarded_def)
  have three: "repeatP 3 (reader_turn memory_port ?a) (([], replicate 40 7), []) = Some (Inr (), (replicate 40 7, []), replicate 40 7)"
    by (simp add: numeral_3_eq_3 reader_turn_def read_slice_def memory_port_def prog_defs Let_def flip: replicate_add)
  obtain bs w' where "length bs = 3" "fst w' = fst ([] :: bytes, replicate 40 (7 :: u8)) @ concat bs"
    "repeatP 3 (reader_turn memory_port ?a) (([], replicate 40 7), []) = Some (Inr (), w', fold (forwarded ?a) bs [])"
    using reader_forwards_every_byte [OF hands_out_memory, of 3 "([], replicate 40 7)" ?a "[]" "[]"]
    by (elim exE conjE)
  with three written [of bs "[]"] show ?thesis by auto
qed

text \<open>C33: the flag by which the reading thread tells the main thread of a URC, with the reading thread going on beside
  every call the main thread makes. In the MQTT example the flag covers them all: after any number of turns of the main loop, if a
  URC has been found, queued or not, the flag is up, on which the next turn spins. The jobs example takes the flag back after
  the spin, and with it the notice of a URC that came in meanwhile: whatever line the matcher finds, there is a run in which it is left in
  the queue with the flag down after the check, even if the spin took all that was there and nothing was pending but under
  the flag.\<close>

theorem urc_flag_covers_queue:
  fixes G :: "('m received, 'x) mqtt_gsm" and A :: "('m received, 'o, 'x) agents"
  assumes "concurrent gl (gsm_spin G)" "concurrent gl (ag_yield_event A)"
    and "concurrent gl (modifyP (ag_sleep A (from_millis 500)) :: ('m received app, 'x, unit) prog)"
    and "repeatP n (mqtt_turn G A from_utf8) a = Some (r, a')"
    and "urc_queue (app_rest a) \<noteq> [] \<or> rx_matched (app_rest a) \<noteq> None \<longrightarrow> app_ready a"
    and "gl buf [13] 13 10 False False = (Some line, buf')"
  shows "(urc_queue (app_rest a') \<noteq> [] \<or> rx_matched (app_rest a') \<noteq> None \<longrightarrow> app_ready a')
    \<and> (\<exists>(J :: ('m received, 'x) jobs_gsm) b b'. takes_all gl (gsm_spin J)
         \<and> app_ready b \<and> rx_matched (app_rest b) = None
         \<and> jobs_serve_urc J b = Some (Inr (), b') \<and> urc_queue (app_rest b') = [line] \<and> \<not> app_ready b')"
proof (intro conjI)
  have "covers a a'" by (rule keepsD [OF keeps_repeatP [OF mqtt_turn_covers [OF assms(1-3)]] assms(4)])
  with assms(5) show "urc_queue (app_rest a') \<noteq> [] \<or> rx_matched (app_rest a') \<noteq> None \<longrightarrow> app_ready a'"
    by (simp add: covers_def covered_def)
next
  let ?J = "\<lparr>gsm_init = (\<lambda>_. okP ()), gsm_spin = late_spin gl, gsm_import_root_ca = (\<lambda>_ _ _. okP ()),
      gsm_import_certificate = (\<lambda>_ _ _. okP ()), gsm_import_private_key = (\<lambda>_ _ _ _. okP ()),
      gsm_begin_apn = (\<lambda>_. okP ()), gsm_attach_apn = (\<lambda>_. okP ())\<rparr> :: ('m received, 'x) jobs_gsm"
  let ?b = "\<lparr>app_ready = True, app_rest = \<lparr>rx_buf = buf, rx_matched = None, urc_queue = [], rx_rest = undefined\<rparr>\<rparr>
    :: 'm received app"
  let ?b' = "\<lparr>app_ready = False, app_rest = \<lparr>rx_buf = buf', rx_matched = None, urc_queue = [line], rx_rest = undefined\<rparr>\<rparr>
    :: 'm received app"
  have "jobs_serve_urc ?J ?b = Some (Inr (), ?b')"
    using assms(6) by (simp add: jobs_serve_urc_def late_spin_def whenP_def prog_defs expect_def)
  then show "\<exists>(J :: ('m received, 'x) jobs_gsm) b b'. takes_all gl (gsm_spin J)
         \<and> app_ready b \<and> rx_matched (app_rest b) = None
         \<and> jobs_serve_urc J b = Some (Inr (), b') \<and> urc_queue (app_rest b') = [line] \<and> \<not> app_ready b'"
    by (intro exI [of _ ?J] exI [of _ ?b] exI [of _ ?b']) (simp add: late_spin_takes_all)
qed

text \<open>A driver and agents that do nothing themselves, while a line arrives and is found and queued.\<close>

definition busy_line :: get_line where
  "busy_line buf _ _ _ _ _ = (if buf = [] then (None, []) else (Some buf, []))"

theorem urc_flag_covers_queue_witness:
  "\<exists>(G :: (unit received, at_error) mqtt_gsm) (A :: (unit received, unit, at_error) agents) a'.
     repeatP 1 (mqtt_turn G A (\<lambda>_. None))
       \<lparr>app_ready = True, app_rest = \<lparr>rx_buf = [65], rx_matched = None, urc_queue = [[66]], rx_rest = ()\<rparr>\<rparr> = Some (Inr (), a')
     \<and> urc_queue (app_rest a') = [[65]] \<and> app_ready a'"
proof -
  let ?G = "\<lparr>gsm_init = (\<lambda>_. okP ()), gsm_spin = late_spin busy_line, gsm_begin = okP (), gsm_attach_gprs = okP ()\<rparr>
    :: (unit received, at_error) mqtt_gsm"
  let ?A = "\<lparr>ag_connect = okP (), ag_yield_event = okP Other_Notification, ag_is_job_message = (\<lambda>_. False),
      ag_is_ota_message = (\<lambda>_. False), ag_subscribe_to_jobs = okP (), ag_describe_job_execution = (\<lambda>_ _ _. okP ()),
      ag_update_job_execution = (\<lambda>_. okP ()), ag_handle_job = (\<lambda>_. okP None), ag_process_ota_job = (\<lambda>_. okP ()),
      ag_handle_ota = (\<lambda>_. okP 0), ag_request_timer_irq = okP (), ag_sleep = (\<lambda>_ a. a)\<rparr>
    :: (unit received, unit, at_error) agents"
  let ?a = "\<lparr>app_ready = True, app_rest = \<lparr>rx_buf = [65], rx_matched = None, urc_queue = [[66]], rx_rest = ()\<rparr>\<rparr>"
  have spin: "concurrent busy_line (gsm_spin ?G)"
    using takes_all_concurrent [OF late_spin_takes_all] by simp
  have idle: "concurrent busy_line (ag_yield_event ?A)"
    "concurrent busy_line (modifyP (ag_sleep ?A (from_millis 500)) :: (unit received app, at_error, unit) prog)"
    by (simp_all add: concurrent_def keeps_def okP_def modifyP_def)
  obtain a' where run: "repeatP 1 (mqtt_turn ?G ?A (\<lambda>_. None)) ?a = Some (Inr (), a')" "urc_queue (app_rest a') = [[65]]"
    by (simp add: mqtt_turn_def prog_defs whenP_def expect_def late_spin_def busy_line_def block_until.simps)
  have "busy_line [65] [13] 13 10 False False = (Some [65], [])" by (simp add: busy_line_def)
  from urc_flag_covers_queue [OF spin idle run(1) _ this] run show ?thesis
    by (intro exI [of _ ?G] exI [of _ ?A] exI [of _ a']) simp
qed

text \<open>The program of the jobs example comes to an end only if the module could not be attached: then the error
  is ignored, and nothing else has been done. Once attached it runs until it panics.\<close>

theorem jobs_main_ends_unattached:
  assumes "jobs_main G A verisign cert key a = Some (r, a')"
  shows "r = Inr () \<and> (\<exists>x. jobs_attach_gprs G verisign cert key a = Some (Inl x, a'))"
proof -
  let ?attach = "jobs_attach_gprs G verisign cert key"
  let ?rest = "thenP (jobs_connect G A) (thenP (expect (ag_subscribe_to_jobs A))
    (thenP (expect (ag_describe_job_execution A ''$next'' None None)) (forever (jobs_turn G A))))"
  have never: "?rest b = None" for b
    by (intro thenP_None errorless_connect errorless_rules forever_None errorless_turn)
  obtain q b where attach: "?attach a = Some (q, b)"
    using assms by (auto simp: jobs_main_def bindP_def attempt_def split: option.splits)
  with assms never [of b] show ?thesis
    by (cases q) (auto simp: jobs_main_def bindP_def attempt_def okP_def)
qed

definition mute_gsm :: "('s, at_error) jobs_gsm" where
  "mute_gsm =
     \<lparr>gsm_init = (\<lambda>_. errP At_Timeout), gsm_spin = okP (), gsm_import_root_ca = (\<lambda>_ _ _. okP ()),
      gsm_import_certificate = (\<lambda>_ _ _. okP ()), gsm_import_private_key = (\<lambda>_ _ _ _. okP ()),
      gsm_begin_apn = (\<lambda>_. okP ()), gsm_attach_apn = (\<lambda>_. okP ())\<rparr>"

theorem jobs_main_ends_unattached_witness:
  "\<forall>(A :: ('s, 'o, at_error) agents) a. jobs_main mute_gsm A [] [] [] a = Some (Inr (), a)
     \<and> (\<exists>x. jobs_attach_gprs mute_gsm [] [] [] a = Some (Inl x, a))"
proof (intro allI)
  fix A :: "('s, 'o, at_error) agents" and a
  have run: "jobs_main mute_gsm A [] [] [] a = Some (Inr (), a)"
    by (simp add: jobs_main_def jobs_attach_gprs_def mute_gsm_def prog_defs)
  from jobs_main_ends_unattached [OF run] run
  show "jobs_main mute_gsm A [] [] [] a = Some (Inr (), a)
     \<and> (\<exists>x. jobs_attach_gprs mute_gsm [] [] [] a = Some (Inl x, a))" by blast
qed

end
