(* ===== verification/Spec2Isabelle.thy ===== *)
theory Spec2Isabelle
  imports Client_Recovery Iot_Examples
begin

text \<open>
  A model of \<open>ublox-cellular-rs\<close>, a \<open>no_std\<close> Rust driver for u-blox cellular modules, with the
  theorems that make it correct. Paths are relative to \<open>src/ublox-cellular/src/\<close>, those of the examples to
  \<open>src/\<close>.

  The program and its parts. An application owns a \<open>Device\<close> (\<open>client.rs\<close>), which owns a \<open>Network\<close>
  (\<open>network.rs\<close>) with its \<open>AtTx\<close> port to the modem, its \<open>RegistrationState\<close> (\<open>registration.rs\<close>) and the
  state of the data context, the pins of a \<open>CellularConfig\<close>, a record of the power of the module and
  an optional set of sockets. The application calls \<open>spin\<close> or \<open>data_service\<close> in a loop. \<open>spin\<close> powers the
  module up (\<open>power.rs\<close>), configures it and lets the network state machine run: it polls the
  registration, intervenes when it is stuck and, through a timeout, asks for a reset. Once the device is
  registered, \<open>data_service\<close> (\<open>services/data/mod.rs\<close>) defines and activates the data context, reads what
  the module holds for the sockets and hands out a \<open>DataService\<close>, which borrows the network and the sockets
  and implements the socket stacks, name resolution and the set-up of TLS.

  How the code is modelled. A method on \<open>&mut self\<close> that may fail is a program (\<open>Prelude\<close>): a function of the
  state that does not return (\<open>None\<close>), or returns a \<open>Result\<close> (\<open>Inl\<close> the error, \<open>Inr\<close> the value) with the
  state it leaves, the same state in an error as the code leaves in one. \<open>bindP\<close> is the \<open>?\<close> operator,
  \<open>attempt\<close> a \<open>Result\<close> that is looked at or dropped, \<open>zoom\<close> a call on a field. \<open>None\<close> stands for a panic, and
  for a loop or a recursion that never ends. There is no fuel: the busy wait of \<open>blocking_timer.rs\<close>, the
  wait for a power state and the mutual recursion of \<open>power_on\<close> and \<open>hard_reset\<close> are
  \<open>partial_function (option)\<close>; that they return is proved where they do, under the hypothesis \<open>ticking\<close> that
  the clock moves on when it is read, and that they do not where they do not. (\<open>ticking\<close> is an idealisation: the documents
  promise a clock that does not go back, and one that stands still between two readings does move on in the end.) Every other loop of the
  code is bounded by a constant or by a list and is structural recursion. \<open>u8\<close> counters saturate as in the
  code, on 8-bit words; lengths are naturals; times are microseconds, as naturals.

  What the code is given is the record \<open>env\<close> of \<open>Environment\<close>, over an arbitrary world: the clock of
  \<open>embassy_time\<close>, the AT client and the URC subscriptions of \<open>atat\<close>, the pins, and the module that the Cargo
  features select (\<open>module_variant\<close>; a \<open>cfg\<close> is a condition on it). The sockets and the set of sockets of
  \<open>ublox_sockets\<close> are the records \<open>socket_api\<close> and \<open>stack_api\<close>. Nothing is assumed of any of them unless a
  theorem says so. \<open>logged e\<close> is \<open>e\<close> with the requests it was sent on record, for the theorems on the order of
  the commands, \<open>wired e\<close> with the levels its pins were driven to, and \<open>reports e c x\<close> says that \<open>x\<close> is what the
  module says when it answers \<open>c\<close>; the witnesses run in \<open>script_env\<close>, a modem that answers from a list, in \<open>obliging_env\<close>
  (\<open>Obliging_Modem\<close>), a modem that answers everything as the driver hopes, in \<open>hosting_env\<close>, one that
  also takes what is written to a socket, or in \<open>searching_env\<close> (\<open>Recovery\<close>), one that can be configured but
  finds no network (\<open>asked_env\<close> and \<open>socket_env\<close> give the answers of their theorem). The liveness theorems hold for any world and any modem that is
  \<open>cooperative\<close>: it acknowledges the commands that only ask for something to be done and says that it is
  powered, registered, attached and active when it is asked; what URCs it sends is left open. \<open>succeeds\<close> is
  total correctness, that a run returns, without an error, in a given state.

  The theories, and where their code is.

  \<^item> \<open>Prelude\<close>: programs, \<open>wp\<close> (what holds if a run returns), \<open>halts\<close> (it returns), \<open>keeps\<close> (a relation between
    the states before and after) with the locale \<open>step_relation\<close> that carries a relation through every
    combinator.
  \<^item> \<open>Codec\<close>, \<open>Control_Types\<close>, \<open>Network_Types\<close>, \<open>Socket_Types\<close>: the enums of \<open>command/*/types.rs\<close> with their wire
    numbers. Each interprets the locale \<open>enum_codec\<close>, whose laws give that reading back what is written
    is the identity.
  \<^item> \<open>Commands\<close>, \<open>Responses\<close>: the requests, responses and URCs of \<open>command/*/mod.rs\<close>, \<open>responses.rs\<close> and \<open>urc.rs\<close>,
    with the attributes of the commands and the capacities of the \<open>heapless\<close> fields.
  \<^item> \<open>Environment\<close>: \<open>error.rs\<close>, \<open>services/data/error.rs\<close>, \<open>config.rs\<close>, and what the code is given.
  \<^item> \<open>Registration\<close>: \<open>registration.rs\<close>. The slot of a domain refines the history of what was reported to it;
    the three domains interpret the locale \<open>reg_domain\<close>.
  \<^item> \<open>Network\<close>, \<open>Network_Proofs\<close>: \<open>network.rs\<close>. The port and its count of timeouts, polling, interventions, the
    reset request; the context follows the URCs as the transition relation \<open>urc_step\<close>; a registered module
    is found connected, a silent one is reset; the locales \<open>net_relation\<close> and \<open>net_frame\<close> carry invariants
    through every operation of the network.
  \<^item> \<open>Power_Control\<close>, \<open>Power_Proofs\<close>: \<open>power.rs\<close>, \<open>module_timing.rs\<close>, \<open>blocking_timer.rs\<close>. How long the waits
    last, when \<open>power_on\<close> returns and when it never does; the locales \<open>power_relation\<close> and \<open>switch_relation\<close>.
  \<^item> \<open>Device\<close>, \<open>Device_Proofs\<close>: \<open>client.rs\<close>. The commands of the set-up in their order, what success of
    \<open>initialize\<close> and \<open>spin\<close> means, how a timeout becomes a hard reset and what that does to the pins, which socket a URC
    reaches.
  \<^item> \<open>Hex_Codec\<close>: \<open>services/data/hex.rs\<close>. The decoder that overwrites its input computes the decoding of the
    input, inverts the encoding and rejects everything else.
  \<^item> \<open>Data_Service\<close>, \<open>Data_Proofs\<close>: \<open>services/data/mod.rs\<close> and \<open>apn.rs\<close>. The commands that define and activate a
    context, on modules of either kind; a service is handed out on an active context only; reading for the
    sockets asks for no more than fits and delivers the bytes the module sent; the locale \<open>context_relation\<close>
    carries an invariant through the commands of a context.
  \<^item> \<open>Socket_Stacks\<close>, \<open>Secure_Services\<close>, \<open>Stack_Proofs\<close>: \<open>tcp_stack.rs\<close>, \<open>udp_stack.rs\<close>, \<open>dns.rs\<close> and \<open>ssl.rs\<close> under
    \<open>services/data/\<close>. What a socket is given is what the module is sent for it, chunk by chunk; TLS is
    enabled before a connection is made; certificates and profiles are set up in order.
  \<^item> \<open>Lifecycle\<close>: the transition system of all calls an application can make; the locales \<open>call_relation\<close> and
    \<open>life_relation\<close> carry a relation through all of them and give the invariants of every reachable device;
    initializing never sets a device back (its states are a \<open>linorder\<close>), and a session leaves the
    registration alone.
  \<^item> \<open>Cooperative_Modem\<close>: liveness. With a cooperative modem one call of \<open>data_service\<close> takes an unconfigured
    device into service, and a send is on the stream of its socket, whole; total correctness is carried through
    the operations of the network, the power control, the device and the stacks.
  \<^item> \<open>Socket_Client\<close>: \<open>examples/sockets/src/main.rs\<close>, the loop of a client that keeps a socket open and talks on
    it. It relies on the locale \<open>nonblocking_stack\<close>, which the TCP stack of a data service interprets; a turn of it
    returns whatever the module answers, and delivers its message when the module cooperates.
  \<^item> \<open>Sustained_Service\<close>: liveness that lasts. \<open>settled\<close>, in service with the registration to show for it and not
    waiting for a reset, is an invariant of \<open>data_service\<close> with a modem that also answers the requests for data: every call succeeds,
    and every turn of the client delivers its message, in order.
  \<^item> \<open>Recovery\<close>: liveness from anywhere. From any reachable device, whatever its past, a modem that cooperates from
    now on has it in service after a bounded number of failing calls: each lowers \<open>rank\<close>, which says how far the
    next poll of the registration is away. The bound is the polling interval of 15 seconds in microseconds and two,
    for a call takes at least one; \<open>outcome\<close> is total correctness of runs that may fail.
  \<^item> \<open>Client_Recovery\<close>: the whole program from anywhere. The client of the sockets example on such a device is at
    its work again within as many turns, and every turn from there on delivers its message.
  \<^item> \<open>Example_Support\<close>: \<open>examples/common_lib/src/\<close> and \<open>examples/linux_jobs/src/file_handler.rs\<close>, the pins, the serial
    port and the timer on Linux, and the file an update is assembled in, which is the update whatever the order
    its blocks arrive in.
  \<^item> \<open>Iot_Examples\<close>: \<open>examples/linux_jobs/src/main.rs\<close> and \<open>examples/linux_mqtt/src/main.rs\<close>, and the thread that
    reads the serial port in all three programs: it forwards every byte. \<open>reading_step\<close> is what that thread does to
    the flag that tells of a URC and to the queue of the URCs while the main thread runs; \<open>concurrent\<close> lets it go on beside every
    call the main thread makes.

  Not modelled, and why. The text of commands and responses is written and read by the derive macros of
  \<open>atat\<close>, which are not part of the sources: a command is its fields, a response the fields its text spells,
  and a response that does not fit its type is rejected. Of the constructors, the one that splits the
  buffers of \<open>atat\<close> has no model. \<open>fmt.rs\<close> and the log messages have no effect on the state; \<open>lib.rs\<close> and
  \<open>services/mod.rs\<close> are re-exports. \<open>NoPin\<close> of \<open>config.rs\<close>, a pin that does nothing, has
  no model, nor has its like of the examples. The examples are programs for Linux written against earlier
  interfaces of the driver. The calls \<open>examples/sockets\<close> makes of a data service are the present ones, and they are
  those of the model; \<open>linux_jobs\<close> and \<open>linux_mqtt\<close> join the driver to MQTT libraries and agents that are not part
  of the sources, and their operations and the driver's are parameters. The start-up of the three (command line,
  serial port, queues, constructors) is not modelled.
\<close>

end
